(* ===== verification/Prelude.thy ===== *)
theory Prelude
  imports Main "HOL-Library.Sublist" "HOL-Library.Char_ord" "HOL-Library.List_Lexorder"
    "HOL-Library.Multiset"
begin

text \<open>
  Shared vocabulary of the development: the functions of Go's \<open>strings\<close>, \<open>bytes\<close> and
  \<open>time\<close> packages that the sources call, 64-bit integer arithmetic, and the generic lemmas
  on them.  A Go string is a sequence of bytes, so it is a \<^typ>\<open>string\<close> whose characters are
  bytes; a Go error return is a value of a sum type with the error on the left.
\<close>

section \<open>Collections of facts\<close>

text \<open>
  \<open>gostr\<close> collects the facts about the string functions, \<open>frame\<close> the facts that an operation
  leaves a field of a state alone, \<open>invs\<close> the facts that an operation keeps an invariant.
\<close>

named_theorems gostr
named_theorems frame
named_theorems invs

section \<open>Strings\<close>

type_synonym bytes = string

text \<open>\<open>strings.HasPrefix\<close>, \<open>strings.HasSuffix\<close>, \<open>strings.Contains\<close>, \<open>strings.ContainsAny\<close>.\<close>

definition HasPrefix :: "string \<Rightarrow> string \<Rightarrow> bool" where
  "HasPrefix s p \<longleftrightarrow> prefix p s"

definition HasSuffix :: "string \<Rightarrow> string \<Rightarrow> bool" where
  "HasSuffix s p \<longleftrightarrow> suffix p s"

definition Contains :: "string \<Rightarrow> string \<Rightarrow> bool" where
  "Contains s sub \<longleftrightarrow> sublist sub s"

definition ContainsAny :: "string \<Rightarrow> string \<Rightarrow> bool" where
  "ContainsAny s chars \<longleftrightarrow> list_ex (\<lambda>c. c \<in> set chars) s"

text \<open>\<open>strings.TrimPrefix\<close>, \<open>strings.TrimSuffix\<close> and \<open>strings.CutPrefix\<close>.\<close>

definition TrimPrefix :: "string \<Rightarrow> string \<Rightarrow> string" where
  "TrimPrefix s p = (if HasPrefix s p then drop (length p) s else s)"

definition TrimSuffix :: "string \<Rightarrow> string \<Rightarrow> string" where
  "TrimSuffix s p = (if HasSuffix s p then take (length s - length p) s else s)"

definition CutPrefix :: "string \<Rightarrow> string \<Rightarrow> string option" where
  "CutPrefix s p = (if HasPrefix s p then Some (drop (length p) s) else None)"

text \<open>
  \<open>strings.Cut\<close> and \<open>strings.Split\<close> at a separator of one byte, the only kind the sources use.
  \<open>Cut\<close> gives the text before and after the first separator, \<open>None\<close> standing for the result
  with \<open>found = false\<close>.
\<close>

fun Cut :: "string \<Rightarrow> char \<Rightarrow> (string \<times> string) option" where
  "Cut [] sep = None"
| "Cut (c # s) sep =
     (if c = sep then Some ([], s)
      else case Cut s sep of None \<Rightarrow> None | Some (a, b) \<Rightarrow> Some (c # a, b))"

fun Split :: "string \<Rightarrow> char \<Rightarrow> string list" where
  "Split [] sep = [[]]"
| "Split (c # s) sep =
     (if c = sep then [] # Split s sep
      else case Split s sep of [] \<Rightarrow> [[c]] | w # ws \<Rightarrow> (c # w) # ws)"

fun Join :: "string list \<Rightarrow> string \<Rightarrow> string" where
  "Join [] sep = []"
| "Join [w] sep = w"
| "Join (w # ws) sep = w @ sep @ Join ws sep"

text \<open>
  \<open>unicode.IsSpace\<close> on UTF-8 text: the encodings of the code points with the Unicode property
  White\_Space.  No encoding is a proper prefix or suffix of another one, and none starts with a
  continuation byte, so stripping them from either end is what decoding rune by rune does.
\<close>

definition white_space :: "string list" where
  "white_space =
     map (\<lambda>c. [c]) [CHR 0x09, CHR 0x0A, CHR 0x0B, CHR 0x0C, CHR 0x0D, CHR 0x20] @
     [[CHR 0xC2, CHR 0x85], [CHR 0xC2, CHR 0xA0], [CHR 0xE1, CHR 0x9A, CHR 0x80]] @
     map (\<lambda>c. [CHR 0xE2, CHR 0x80, c])
       [CHR 0x80, CHR 0x81, CHR 0x82, CHR 0x83, CHR 0x84, CHR 0x85, CHR 0x86, CHR 0x87,
        CHR 0x88, CHR 0x89, CHR 0x8A, CHR 0xA8, CHR 0xA9, CHR 0xAF] @
     [[CHR 0xE2, CHR 0x81, CHR 0x9F], [CHR 0xE3, CHR 0x80, CHR 0x80]]"

text \<open>Length of the white-space rune a text starts with, 0 when it starts with none.\<close>

definition space_prefix :: "string \<Rightarrow> nat" where
  "space_prefix s = (case find (\<lambda>w. prefix w s) white_space of None \<Rightarrow> 0 | Some w \<Rightarrow> length w)"

definition space_suffix :: "string \<Rightarrow> nat" where
  "space_suffix s = (case find (\<lambda>w. suffix w s) white_space of None \<Rightarrow> 0 | Some w \<Rightarrow> length w)"

function TrimLeftSpace :: "string \<Rightarrow> string" where
  "TrimLeftSpace s =
     (if s = [] \<or> space_prefix s = 0 then s else TrimLeftSpace (drop (space_prefix s) s))"
  by pat_completeness auto
termination
  by (relation "measure length") auto

function TrimRightSpace :: "string \<Rightarrow> string" where
  "TrimRightSpace s =
     (if s = [] \<or> space_suffix s = 0 then s
      else TrimRightSpace (take (length s - space_suffix s) s))"
  by pat_completeness auto
termination
  by (relation "measure length") auto

declare TrimLeftSpace.simps [simp del] TrimRightSpace.simps [simp del]

text \<open>\<open>strings.TrimSpace\<close>, and \<open>strings.Fields\<close>, which splits around runs of white space.\<close>

definition TrimSpace :: "string \<Rightarrow> string" where
  "TrimSpace s = TrimRightSpace (TrimLeftSpace s)"

function fields_from :: "string \<Rightarrow> string \<Rightarrow> string list" where
  "fields_from w [] = (if w = [] then [] else [w])"
| "fields_from w (c # s) =
     (if space_prefix (c # s) = 0 then fields_from (w @ [c]) s
      else (if w = [] then [] else [w]) @ fields_from [] (drop (space_prefix (c # s)) (c # s)))"
  by pat_completeness auto
termination
  by (relation "measure (\<lambda>(w, s). length s)") auto

definition Fields :: "string \<Rightarrow> string list" where
  "Fields s = fields_from [] s"

text \<open>\<open>strconv.Itoa\<close>.\<close>

definition digit_char :: "nat \<Rightarrow> char" where
  "digit_char d = char_of (48 + d)"

fun Utoa :: "nat \<Rightarrow> string" where
  "Utoa n = (if n < 10 then [digit_char n] else Utoa (n div 10) @ [digit_char (n mod 10)])"

declare Utoa.simps [simp del]

definition Itoa :: "int \<Rightarrow> string" where
  "Itoa n = (if n < 0 then CHR ''-'' # Utoa (nat (- n)) else Utoa (nat n))"

section \<open>64-bit integers, durations and times\<close>

text \<open>
  An \<open>int64\<close> is an \<^typ>\<open>int\<close> in the range of 64-bit two's complement; \<open>int64\<close> is the
  wrap-around that Go's arithmetic performs.  A \<open>time.Time\<close> is its number of nanoseconds since the
  epoch, a \<open>time.Duration\<close> a number of nanoseconds in the \<open>int64\<close> range.
\<close>

type_synonym gotime = int

definition int64_min :: int where "int64_min = - (2 ^ 63)"

definition int64_max :: int where "int64_max = 2 ^ 63 - 1"

definition int64 :: "int \<Rightarrow> int" where
  "int64 x = (x + 2 ^ 63) mod 2 ^ 64 - 2 ^ 63"

text \<open>\<open>Time.Sub\<close> saturates at the limits of a duration.\<close>

definition time_Sub :: "gotime \<Rightarrow> gotime \<Rightarrow> int" where
  "time_Sub t u = max int64_min (min int64_max (t - u))"

text \<open>\<open>Duration.Microseconds\<close> divides by 1000, rounding towards zero.\<close>

definition Microseconds :: "int \<Rightarrow> int" where
  "Microseconds d = sgn d * (\<bar>d\<bar> div 1000)"

definition time_UnixMilli :: "int \<Rightarrow> gotime" where
  "time_UnixMilli ms = ms * 1000000"

section \<open>Errors\<close>

text \<open>
  Error values.  \<open>NotExistErr\<close> are the errors of the operating system for which
  \<open>os.IsNotExist\<close> holds, \<open>OSErr\<close> its other errors, \<open>TypedErr\<close> errors of a named Go type that
  \<open>errors.As\<close> looks for, \<open>StatusErr\<close> the errors of gRPC's \<open>status\<close> package with their code.  An
  error made by \<open>fmt.Errorf\<close> keeps its format and its string arguments; \<open>WrapErr\<close> is one whose
  format ends in \<open>: %w\<close>.
\<close>

datatype goerror =
    NotExistErr string
  | OSErr string
  | Errorf string "string list"
  | WrapErr string "string list" goerror
  | TypedErr string string
  | StatusErr string string "string list"

text \<open>\<open>os.IsNotExist\<close> does not look into wrapped errors, \<open>errors.As\<close> does.\<close>

fun IsNotExist :: "goerror \<Rightarrow> bool" where
  "IsNotExist (NotExistErr s) = True"
| "IsNotExist _ = False"

fun errors_As :: "string \<Rightarrow> goerror \<Rightarrow> bool" where
  "errors_As ty (TypedErr t s) \<longleftrightarrow> t = ty"
| "errors_As ty (WrapErr f as e) \<longleftrightarrow> errors_As ty e"
| "errors_As ty _ \<longleftrightarrow> False"

section \<open>Lemmas\<close>

lemma HasPrefix_append [simp, gostr]: "HasPrefix (p @ s) p"
  by (simp add: HasPrefix_def)

lemma TrimPrefix_append [simp, gostr]: "TrimPrefix (p @ s) p = s"
  by (simp add: TrimPrefix_def)

lemma CutPrefix_append [simp, gostr]: "CutPrefix (p @ s) p = Some s"
  by (simp add: CutPrefix_def)

lemma CutPrefix_Some_iff [gostr]: "CutPrefix s p = Some r \<longleftrightarrow> s = p @ r"
  by (auto simp: CutPrefix_def HasPrefix_def prefix_def)

lemma TrimSuffix_append [simp, gostr]: "TrimSuffix (s @ p) p = s"
  by (simp add: TrimSuffix_def HasSuffix_def suffix_def)

lemma Cut_None_iff [gostr]: "Cut s sep = None \<longleftrightarrow> sep \<notin> set s"
  by (induction s) (auto split: option.splits)

lemma Cut_SomeD: "Cut s sep = Some (a, b) \<Longrightarrow> s = a @ sep # b \<and> sep \<notin> set a"
  by (induction s arbitrary: a) (auto split: option.splits if_splits)

lemma Cut_append: "sep \<notin> set a \<Longrightarrow> Cut (a @ sep # b) sep = Some (a, b)"
  by (induction a) auto

lemma Cut_Some_iff [gostr]:
  "Cut s sep = Some (a, b) \<longleftrightarrow> s = a @ sep # b \<and> sep \<notin> set a"
  using Cut_SomeD [of s sep a b] Cut_append [of sep a b] by blast

lemma Split_not_Nil [simp]: "Split s sep \<noteq> []"
  by (induction s) (auto split: list.splits)

lemma Split_no_sep: "w \<in> set (Split s sep) \<Longrightarrow> sep \<notin> set w"
  by (induction s arbitrary: w) (auto split: list.splits if_splits)

lemma Split_id [gostr]: "sep \<notin> set s \<Longrightarrow> Split s sep = [s]"
  by (induction s) auto

lemma Split_append [gostr]: "sep \<notin> set w \<Longrightarrow> Split (w @ sep # s) sep = w # Split s sep"
  by (induction w) auto

lemma Join_Cons [gostr]: "ws \<noteq> [] \<Longrightarrow> Join (w # ws) sep = w @ sep @ Join ws sep"
  by (cases ws) auto

lemma Join_Split [simp, gostr]: "Join (Split s sep) [sep] = s"
proof (induction s)
  case (Cons c s)
  show ?case
  proof (cases "c = sep")
    case True
    with Cons.IH show ?thesis by (simp add: Join_Cons)
  next
    case False
    obtain w ws where w: "Split s sep = w # ws" by (cases "Split s sep") auto
    with Cons.IH False show ?thesis by (cases ws) auto
  qed
qed simp

lemma Split_Join [gostr]:
  "ws \<noteq> [] \<Longrightarrow> (\<And>w. w \<in> set ws \<Longrightarrow> sep \<notin> set w) \<Longrightarrow> Split (Join ws [sep]) sep = ws"
proof (induction ws)
  case (Cons w ws)
  show ?case
  proof (cases "ws = []")
    case True
    with Cons.prems show ?thesis by (simp add: Split_id)
  next
    case False
    with Cons show ?thesis by (simp add: Join_Cons Split_append)
  qed
qed simp

lemma Join_eq_Nil_iff: "Join ws [sep] = [] \<longleftrightarrow> ws = [] \<or> ws = [[]]"
  by (cases ws rule: list.exhaust; cases "tl ws") auto

text \<open>Trimming only drops bytes, and what it leaves starts and ends with no white space.\<close>

lemma TrimLeftSpace_suffix: "suffix (TrimLeftSpace s) s"
proof (induction s rule: TrimLeftSpace.induct)
  case (1 s)
  then show ?case
    by (subst TrimLeftSpace.simps) (auto intro: suffix_order.trans suffix_drop)
qed

lemma TrimRightSpace_prefix: "prefix (TrimRightSpace s) s"
proof (induction s rule: TrimRightSpace.induct)
  case (1 s)
  then show ?case
    by (subst TrimRightSpace.simps) (auto intro: prefix_order.trans take_is_prefix)
qed

lemma set_TrimSpace: "set (TrimSpace s) \<subseteq> set s"
  using set_mono_prefix [OF TrimRightSpace_prefix] set_mono_suffix [OF TrimLeftSpace_suffix]
  unfolding TrimSpace_def by blast

lemma TrimLeftSpace_done: "TrimLeftSpace s = [] \<or> space_prefix (TrimLeftSpace s) = 0"
proof (induction s rule: TrimLeftSpace.induct)
  case (1 s)
  then show ?case
    by (cases "s = [] \<or> space_prefix s = 0") (auto simp: TrimLeftSpace.simps [of s])
qed

lemma TrimRightSpace_done: "TrimRightSpace s = [] \<or> space_suffix (TrimRightSpace s) = 0"
proof (induction s rule: TrimRightSpace.induct)
  case (1 s)
  then show ?case
    by (cases "s = [] \<or> space_suffix s = 0") (auto simp: TrimRightSpace.simps [of s])
qed

lemma white_space_nonempty: "w \<in> set white_space \<Longrightarrow> w \<noteq> []"
  by (auto simp: white_space_def)

lemma space_prefix_0_iff: "space_prefix s = 0 \<longleftrightarrow> (\<forall>w \<in> set white_space. \<not> prefix w s)"
  by (auto simp: space_prefix_def find_None_iff find_Some_iff nth_mem white_space_nonempty
      split: option.splits)

lemma space_prefix_0_mono: "prefix r s \<Longrightarrow> space_prefix s = 0 \<Longrightarrow> space_prefix r = 0"
  by (auto simp: space_prefix_0_iff intro: prefix_order.trans)

lemma TrimSpace_idem [simp]: "TrimSpace (TrimSpace s) = TrimSpace s"
proof -
  have "TrimSpace s = [] \<or> space_prefix (TrimSpace s) = 0"
    using TrimLeftSpace_done [of s] space_prefix_0_mono [OF TrimRightSpace_prefix]
      TrimRightSpace_prefix [of "TrimLeftSpace s"]
    by (auto simp: TrimSpace_def)
  then have "TrimLeftSpace (TrimSpace s) = TrimSpace s"
    by (subst TrimLeftSpace.simps) auto
  moreover have "TrimRightSpace (TrimSpace s) = TrimSpace s"
    using TrimRightSpace_done [of "TrimLeftSpace s"]
    by (subst TrimRightSpace.simps) (auto simp: TrimSpace_def)
  ultimately show ?thesis by (simp add: TrimSpace_def [of "TrimSpace s"])
qed

lemma int64_id: "int64_min \<le> x \<Longrightarrow> x \<le> int64_max \<Longrightarrow> int64 x = x"
  by (simp add: int64_def int64_min_def int64_max_def)

lemma int64_bounds: "int64_min \<le> int64 x \<and> int64 x \<le> int64_max"
  using pos_mod_bound [of "2 ^ 64" "x + 2 ^ 63"] pos_mod_sign [of "2 ^ 64" "x + 2 ^ 63"]
  by (simp add: int64_def int64_min_def int64_max_def)

lemma time_Sub_exact:
  "int64_min \<le> t - u \<Longrightarrow> t - u \<le> int64_max \<Longrightarrow> time_Sub t u = t - u"
  by (simp add: time_Sub_def)

lemma Microseconds_mult [simp]: "Microseconds (us * 1000) = us"
  by (cases "us < 0"; cases "us = 0") (simp_all add: Microseconds_def abs_mult sgn_mult)

end
