(* ===== verification/BuildEvents.thy ===== *)
theory BuildEvents
  imports Prelude
begin

text \<open>
  The messages of the Bazel build event protocol that the program reads, from the generated
  packages \<open>proto/gen/build_event_stream\<close>, \<open>command_line\<close> and \<open>failure_details\<close>.  A message
  is a record of the fields that the program reads (no code looks at the others), a \<open>oneof\<close> is a
  datatype with one constructor per wrapper struct, a pointer to a message that may be nil is an
  option, and an open enum is its \<open>int32\<close> number.  The alternatives of a \<open>oneof\<close> whose content
  nobody reads carry no argument.
\<close>

section \<open>Enumerations\<close>

type_synonym TestSize = int
type_synonym TestStatus = int

definition TestSize_UNKNOWN :: TestSize where "TestSize_UNKNOWN = 0"

definition TestStatus_PASSED :: TestStatus where "TestStatus_PASSED = 1"

definition TestStatus_name :: "(TestStatus \<times> string) list" where
  "TestStatus_name =
     [(0, ''NO_STATUS''), (1, ''PASSED''), (2, ''FLAKY''), (3, ''TIMEOUT''), (4, ''FAILED''),
      (5, ''INCOMPLETE''), (6, ''REMOTE_FAILURE''), (7, ''FAILED_TO_BUILD''),
      (8, ''TOOL_HALTED_BEFORE_TESTING'')]"

text \<open>\<open>String\<close> of an enum value: its name, or its decimal number when it has none.\<close>

definition TestStatus_String :: "TestStatus \<Rightarrow> string" where
  "TestStatus_String x = (case map_of TestStatus_name x of Some s \<Rightarrow> s | None \<Rightarrow> Itoa x)"

section \<open>Well-known types\<close>

record Timestamp =
  ts_Seconds :: int
  ts_Nanos :: int

record Duration =
  du_Seconds :: int
  du_Nanos :: int

text \<open>
  \<open>timestamppb.Timestamp.AsTime\<close> and \<open>durationpb.Duration.AsDuration\<close> belong to the protobuf
  runtime, \<open>netip.ParseAddr\<close> decides what an IPv6 address is: the operations that reach them take
  them in a record of this type.  A nil message is \<^const>\<open>None\<close>.
\<close>

record golib =
  AsTime :: "Timestamp option \<Rightarrow> gotime"
  AsDuration :: "Duration option \<Rightarrow> int"
  ParseAddr6 :: "string \<Rightarrow> bool"

section \<open>Event identifiers\<close>

record TargetId =
  tid_Label :: string
  tid_Aspect :: string

datatype BuildEventId =
    BuildEventId_unset
  | BuildEventId_Unknown
  | BuildEventId_Progress
  | BuildEventId_Started
  | BuildEventId_UnstructuredCommandLine
  | BuildEventId_StructuredCommandLine
  | BuildEventId_WorkspaceStatus
  | BuildEventId_OptionsParsed
  | BuildEventId_Fetch
  | BuildEventId_Configuration
  | BuildEventId_TargetConfigured TargetId
  | BuildEventId_Pattern "string list"
  | BuildEventId_PatternSkipped
  | BuildEventId_NamedSet string
  | BuildEventId_TargetCompleted TargetId
  | BuildEventId_ActionCompleted
  | BuildEventId_UnconfiguredLabel
  | BuildEventId_ConfiguredLabel
  | BuildEventId_TestResult string
  | BuildEventId_TestProgress
  | BuildEventId_TestSummary string
  | BuildEventId_TargetSummary
  | BuildEventId_BuildFinished
  | BuildEventId_BuildToolLogs
  | BuildEventId_BuildMetrics
  | BuildEventId_Workspace
  | BuildEventId_BuildMetadata
  | BuildEventId_ConvenienceSymlinksIdentified
  | BuildEventId_ExecRequest
  | BuildEventId_SkyvalueUploaded

definition GetTargetConfigured :: "BuildEventId option \<Rightarrow> TargetId option" where
  "GetTargetConfigured x =
     (case x of Some (BuildEventId_TargetConfigured t) \<Rightarrow> Some t | _ \<Rightarrow> None)"

definition GetTargetCompleted :: "BuildEventId option \<Rightarrow> TargetId option" where
  "GetTargetCompleted x =
     (case x of Some (BuildEventId_TargetCompleted t) \<Rightarrow> Some t | _ \<Rightarrow> None)"

definition GetNamedSet :: "BuildEventId option \<Rightarrow> string option" where
  "GetNamedSet x = (case x of Some (BuildEventId_NamedSet i) \<Rightarrow> Some i | _ \<Rightarrow> None)"

definition GetTestResult :: "BuildEventId option \<Rightarrow> string option" where
  "GetTestResult x = (case x of Some (BuildEventId_TestResult l) \<Rightarrow> Some l | _ \<Rightarrow> None)"

definition GetTestSummary :: "BuildEventId option \<Rightarrow> string option" where
  "GetTestSummary x = (case x of Some (BuildEventId_TestSummary l) \<Rightarrow> Some l | _ \<Rightarrow> None)"

section \<open>Command lines\<close>

record OptionMsg =
  CombinedForm :: string
  OptionName :: string
  OptionValue :: string
  OptionSource :: string

datatype SectionType =
    SectionType_unset
  | CommandLineSection_ChunkList "string list"
  | CommandLineSection_OptionList "OptionMsg list"

record CommandLine =
  CommandLineLabel :: string
  Sections :: "SectionType list"

section \<open>Payloads\<close>

record Progress =
  Stdout :: string
  Stderr :: string

record BuildStarted =
  StartTime :: "Timestamp option"
  StartTimeMillis :: int
  StartedCommand :: string

record WorkspaceStatus_Item =
  ItemKey :: string
  ItemValue :: string

record FailureDetail =
  FailureDetail_Message :: string

record ExitCode =
  ExitCode_Name :: string
  ExitCode_Code :: int

record BuildFinished =
  FinishedExitCode :: "ExitCode option"
  FinishTime :: "Timestamp option"
  FinishTimeMillis :: int
  FinishedFailureDetail :: "FailureDetail option"

record BuildMetrics =
  ActionsExecuted :: "int option"
  PackagesLoaded :: "int option"

datatype FileContent = File_unset | File_Uri string | File_Contents bytes | File_SymlinkTargetPath string

record File =
  FileName :: string
  FileBody :: FileContent

record NamedSetOfFiles =
  SetFiles :: "File list"
  SetFileSets :: "string list"

record OutputGroup =
  GroupName :: string
  GroupFileSets :: "string list"

record TargetConfigured =
  TargetKind :: string
  TestSize :: TestSize

record TargetComplete =
  CompleteSuccess :: bool
  CompleteOutputGroup :: "OutputGroup list"
  CompleteFailureDetail :: "FailureDetail option"

record TestResult =
  ResultStatus :: TestStatus
  ResultCachedLocally :: bool
  TestAttemptStart :: "Timestamp option"
  TestAttemptDuration :: "Duration option"
  TestActionOutput :: "File list"

record TestSummary =
  OverallStatus :: TestStatus
  TotalRunDuration :: "Duration option"

datatype Payload =
    Payload_unset
  | BuildEvent_Progress Progress
  | BuildEvent_Aborted string
  | BuildEvent_Started BuildStarted
  | BuildEvent_UnstructuredCommandLine
  | BuildEvent_StructuredCommandLine CommandLine
  | BuildEvent_OptionsParsed
  | BuildEvent_WorkspaceStatus "WorkspaceStatus_Item list"
  | BuildEvent_Fetch
  | BuildEvent_Configuration string
  | BuildEvent_Expanded
  | BuildEvent_Configured TargetConfigured
  | BuildEvent_Action
  | BuildEvent_NamedSetOfFiles NamedSetOfFiles
  | BuildEvent_Completed TargetComplete
  | BuildEvent_TestResult TestResult
  | BuildEvent_TestProgress
  | BuildEvent_TestSummary TestSummary
  | BuildEvent_TargetSummary
  | BuildEvent_Finished BuildFinished
  | BuildEvent_BuildToolLogs
  | BuildEvent_BuildMetrics BuildMetrics
  | BuildEvent_WorkspaceInfo
  | BuildEvent_BuildMetadata "(string \<times> string) list"
  | BuildEvent_ConvenienceSymlinksIdentified
  | BuildEvent_ExecRequest
  | BuildEvent_SkyvalueUploaded

text \<open>
  The metadata of \<open>BuildMetadata\<close> is a Go map, whose iteration order is not specified: the list
  is its entries, each key once, in the order in which one iteration delivers them.
\<close>

record BuildEvent =
  EventId :: "BuildEventId option"
  Children :: "BuildEventId list"
  Payload :: Payload

section \<open>Getters\<close>

definition GetUri :: "File \<Rightarrow> string" where
  "GetUri f = (case FileBody f of File_Uri u \<Rightarrow> u | _ \<Rightarrow> [])"

definition GetMessage :: "FailureDetail option \<Rightarrow> string" where
  "GetMessage x = (case x of Some fd \<Rightarrow> FailureDetail_Message fd | None \<Rightarrow> [])"

definition GetCode :: "ExitCode option \<Rightarrow> int" where
  "GetCode x = (case x of Some c \<Rightarrow> ExitCode_Code c | None \<Rightarrow> 0)"

definition GetName :: "ExitCode option \<Rightarrow> string" where
  "GetName x = (case x of Some c \<Rightarrow> ExitCode_Name c | None \<Rightarrow> [])"

definition GetActionsExecuted :: "BuildMetrics \<Rightarrow> int" where
  "GetActionsExecuted m = (case ActionsExecuted m of Some n \<Rightarrow> n | None \<Rightarrow> 0)"

definition GetPackagesLoaded :: "BuildMetrics \<Rightarrow> int" where
  "GetPackagesLoaded m = (case PackagesLoaded m of Some n \<Rightarrow> n | None \<Rightarrow> 0)"

definition GetProgress :: "BuildEvent \<Rightarrow> Progress option" where
  "GetProgress e = (case Payload e of BuildEvent_Progress p \<Rightarrow> Some p | _ \<Rightarrow> None)"

definition GetStdout :: "Progress option \<Rightarrow> string" where
  "GetStdout x = (case x of Some p \<Rightarrow> Stdout p | None \<Rightarrow> [])"

definition GetStderr :: "Progress option \<Rightarrow> string" where
  "GetStderr x = (case x of Some p \<Rightarrow> Stderr p | None \<Rightarrow> [])"

end
