(* ===== verification/GoUrl.thy ===== *)
theory GoUrl
  imports Prelude
begin

text \<open>
  The part of Go's \<open>net/url\<close> and \<open>net\<close> packages that the program relies on: \<open>url.Parse\<close>,
  \<open>URL.String\<close>, \<open>URL.Hostname\<close>, \<open>url.QueryEscape\<close>, \<open>net.SplitHostPort\<close> and
  \<open>net.JoinHostPort\<close>.  Parsing follows RFC 3986 the way Go does; the one thing left open is which
  texts between brackets are IPv6 addresses (\<open>netip.ParseAddr\<close>), the argument \<open>ip6\<close>.
\<close>

section \<open>Characters\<close>

definition is_lower :: "char \<Rightarrow> bool" where "is_lower c \<longleftrightarrow> CHR ''a'' \<le> c \<and> c \<le> CHR ''z''"

definition is_upper :: "char \<Rightarrow> bool" where "is_upper c \<longleftrightarrow> CHR ''A'' \<le> c \<and> c \<le> CHR ''Z''"

definition is_digit :: "char \<Rightarrow> bool" where "is_digit c \<longleftrightarrow> CHR ''0'' \<le> c \<and> c \<le> CHR ''9''"

definition is_alnum :: "char \<Rightarrow> bool" where
  "is_alnum c \<longleftrightarrow> is_lower c \<or> is_upper c \<or> is_digit c"

definition code :: "char \<Rightarrow> nat" where "code c = of_char c"

definition unhex :: "char \<Rightarrow> nat option" where
  "unhex c =
     (if is_digit c then Some (code c - 48)
      else if CHR ''a'' \<le> c \<and> c \<le> CHR ''f'' then Some (code c - 87)
      else if CHR ''A'' \<le> c \<and> c \<le> CHR ''F'' then Some (code c - 55)
      else None)"

definition hexdigit :: "nat \<Rightarrow> char" where
  "hexdigit n = (if n < 10 then char_of (48 + n) else char_of (55 + n))"

definition to_lower :: "char \<Rightarrow> char" where
  "to_lower c = (if is_upper c then char_of (code c + 32) else c)"

definition ToLower :: "string \<Rightarrow> string" where "ToLower s = map to_lower s"

section \<open>Percent-encoding\<close>

datatype encoding =
  encodePath | encodeHost | encodeZone | encodeUserPassword | encodeQueryComponent | encodeFragment

definition shouldEscape :: "char \<Rightarrow> encoding \<Rightarrow> bool" where
  "shouldEscape c mode =
     (if is_alnum c then False
      else if mode \<in> {encodeHost, encodeZone} \<and> c \<in> set ''!$&'' \<union> {CHR 0x27} \<union> set ''()*+,;=:[]<>'' \<union> {CHR 0x22} then False
      else if c \<in> set ''-_.~'' then False
      else if c \<in> set ''$&+,/:;=?@'' \<and> mode = encodePath then c = CHR ''?''
      else if c \<in> set ''$&+,/:;=?@'' \<and> mode = encodeUserPassword then c \<in> set ''@/?:''
      else if c \<in> set ''$&+,/:;=?@'' \<and> mode = encodeQueryComponent then True
      else if c \<in> set ''$&+,/:;=?@'' \<and> mode = encodeFragment then False
      else if mode = encodeFragment \<and> c \<in> set ''!()*'' then False
      else True)"

datatype url_error =
    InvalidControlCharacter | MissingProtocolScheme | FirstPathSegmentColon
  | EscapeError string | InvalidHostError char | InvalidPort string | MissingBracket
  | InvalidIPLiteral | InvalidUserinfo

text \<open>
  A percent sign and two hexadecimal digits.  Hosts take escapes of non-ASCII bytes and \<open>%25\<close>
  only, zones those of bytes that a host may hold and of a space.
\<close>

definition bad_escape :: "encoding \<Rightarrow> nat \<Rightarrow> bool" where
  "bad_escape mode v =
     (mode = encodeHost \<and> v < 128 \<and> v \<noteq> 37 \<or>
      mode = encodeZone \<and> v \<noteq> 37 \<and> v \<noteq> 32 \<and> shouldEscape (char_of v) encodeHost)"

fun unescape :: "encoding \<Rightarrow> string \<Rightarrow> url_error + string" where
  "unescape mode [] = Inr []"
| "unescape mode (c # s) =
     (if c = CHR ''%'' then
        (case s of
           h # l # r \<Rightarrow>
             (case (unhex h, unhex l) of
                (Some a, Some b) \<Rightarrow>
                  if bad_escape mode (16 * a + b) then Inl (EscapeError [c, h, l])
                  else map_sum id (\<lambda>t. char_of (16 * a + b) # t) (unescape mode r)
              | _ \<Rightarrow> Inl (EscapeError [c, h, l]))
         | _ \<Rightarrow> Inl (EscapeError (c # s)))
      else if c = CHR ''+'' \<and> mode = encodeQueryComponent then
        map_sum id (\<lambda>t. CHR '' '' # t) (unescape mode s)
      else if mode \<in> {encodeHost, encodeZone} \<and> code c < 128 \<and> shouldEscape c mode then
        Inl (InvalidHostError c)
      else map_sum id (\<lambda>t. c # t) (unescape mode s))"

definition escape_char :: "encoding \<Rightarrow> char \<Rightarrow> string" where
  "escape_char mode c =
     (if \<not> shouldEscape c mode then [c]
      else if c = CHR '' '' \<and> mode = encodeQueryComponent then ''+''
      else [CHR ''%'', hexdigit (code c div 16), hexdigit (code c mod 16)])"

definition escape :: "encoding \<Rightarrow> string \<Rightarrow> string" where
  "escape mode s = concat (map (escape_char mode) s)"

definition QueryEscape :: "string \<Rightarrow> string" where "QueryEscape s = escape encodeQueryComponent s"

definition validEncoded :: "encoding \<Rightarrow> string \<Rightarrow> bool" where
  "validEncoded mode s =
     list_all (\<lambda>c. c \<in> set ''!$&()*+,;=:@[]%'' \<union> {CHR 0x27} \<or> \<not> shouldEscape c mode) s"

section \<open>URLs\<close>

record Userinfo =
  Username :: string
  Password :: "string option"

record URL =
  Scheme :: string
  Opaque :: string
  UserInfo :: "Userinfo option"
  UrlHost :: string
  UrlPath :: string
  RawPath :: string
  OmitHost :: bool
  ForceQuery :: bool
  RawQuery :: string
  Fragment :: string
  RawFragment :: string

definition empty_URL :: URL where
  "empty_URL = \<lparr>Scheme = [], Opaque = [], UserInfo = None, UrlHost = [], UrlPath = [],
     RawPath = [], OmitHost = False, ForceQuery = False, RawQuery = [], Fragment = [],
     RawFragment = []\<rparr>"

text \<open>Index of the last occurrence of a byte, as the text before and after it.\<close>

definition cut_last :: "string \<Rightarrow> char \<Rightarrow> (string \<times> string) option" where
  "cut_last s c = (case Cut (rev s) c of None \<Rightarrow> None | Some (b, a) \<Rightarrow> Some (rev a, rev b))"

text \<open>\<open>strings.Cut\<close> with its results for a missing separator: the whole text and nothing.\<close>

definition cut_total :: "string \<Rightarrow> char \<Rightarrow> string \<times> string" where
  "cut_total s c = (case Cut s c of None \<Rightarrow> (s, []) | Some r \<Rightarrow> r)"

fun getScheme_from :: "string \<Rightarrow> string \<Rightarrow> string \<Rightarrow> url_error + (string \<times> string)" where
  "getScheme_from raw pre [] = Inr ([], raw)"
| "getScheme_from raw pre (c # s) =
     (if is_lower c \<or> is_upper c then getScheme_from raw (pre @ [c]) s
      else if is_digit c \<or> c \<in> set ''+-.'' then
        (if pre = [] then Inr ([], raw) else getScheme_from raw (pre @ [c]) s)
      else if c = CHR '':'' then
        (if pre = [] then Inl MissingProtocolScheme else Inr (pre, s))
      else Inr ([], raw))"

definition getScheme :: "string \<Rightarrow> url_error + (string \<times> string)" where
  "getScheme raw = getScheme_from raw [] raw"

definition validOptionalPort :: "string \<Rightarrow> bool" where
  "validOptionalPort p = (case p of [] \<Rightarrow> True | c # s \<Rightarrow> c = CHR '':'' \<and> list_all is_digit s)"

definition validUserinfo :: "string \<Rightarrow> bool" where
  "validUserinfo s =
     list_all (\<lambda>c. is_alnum c \<or> c \<in> set ''-._:~!$&()*+,;=%@'' \<union> {CHR 0x27}) s"

text \<open>The text before the first \<open>%25\<close> and the text from there on.\<close>

fun cut_zone :: "string \<Rightarrow> string \<times> string" where
  "cut_zone [] = ([], [])"
| "cut_zone (c # s) =
     (if HasPrefix (c # s) ''%25'' then ([], c # s) else map_prod (\<lambda>t. c # t) id (cut_zone s))"

definition parseIPLiteral :: "(string \<Rightarrow> bool) \<Rightarrow> string \<Rightarrow> url_error + string" where
  "parseIPLiteral ip6 host =
     (case cut_last host CHR ''['' of
        None \<Rightarrow> Inl InvalidIPLiteral
      | Some (front, inner) \<Rightarrow>
          (case cut_last inner CHR '']'' of
             None \<Rightarrow> Inl MissingBracket
           | Some (name, colonPort) \<Rightarrow>
               if \<not> validOptionalPort colonPort then Inl (InvalidPort colonPort)
               else (case (unescape encodeHost (fst (cut_zone name)),
                           unescape encodeZone (snd (cut_zone name))) of
                  (Inl e, _) \<Rightarrow> Inl e
                | (_, Inl e) \<Rightarrow> Inl e
                | (Inr a, Inr z) \<Rightarrow>
                    if front = [] \<and> ip6 (a @ z) then Inr (''['' @ a @ z @ '']'' @ colonPort)
                    else Inl InvalidIPLiteral)))"

definition parseHost :: "(string \<Rightarrow> bool) \<Rightarrow> string \<Rightarrow> url_error + string" where
  "parseHost ip6 host =
     (if CHR ''['' \<in> set host then parseIPLiteral ip6 host
      else case Cut host CHR '':'' of
        None \<Rightarrow> unescape encodeHost host
      | Some (h, p) \<Rightarrow>
          if \<not> validOptionalPort (CHR '':'' # p) then Inl (InvalidPort (CHR '':'' # p))
          else unescape encodeHost host)"

definition parseUserinfo :: "string \<Rightarrow> url_error + Userinfo" where
  "parseUserinfo userinfo =
     (if \<not> validUserinfo userinfo then Inl InvalidUserinfo
      else case Cut userinfo CHR '':'' of
        None \<Rightarrow>
          (case unescape encodeUserPassword userinfo of
             Inl e \<Rightarrow> Inl e | Inr n \<Rightarrow> Inr \<lparr>Username = n, Password = None\<rparr>)
      | Some (n, p) \<Rightarrow>
          (case unescape encodeUserPassword n of
             Inl e \<Rightarrow> Inl e
           | Inr n' \<Rightarrow>
               (case unescape encodeUserPassword p of
                  Inl e \<Rightarrow> Inl e
                | Inr p' \<Rightarrow> Inr \<lparr>Username = n', Password = Some p'\<rparr>)))"

definition parseAuthority ::
  "(string \<Rightarrow> bool) \<Rightarrow> string \<Rightarrow> url_error + (Userinfo option \<times> string)" where
  "parseAuthority ip6 authority =
     (case cut_last authority CHR ''@'' of
        None \<Rightarrow>
          (case parseHost ip6 authority of Inl e \<Rightarrow> Inl e | Inr h \<Rightarrow> Inr (None, h))
      | Some (ui, hostpart) \<Rightarrow>
          (case parseHost ip6 hostpart of
             Inl e \<Rightarrow> Inl e
           | Inr h \<Rightarrow>
               (case parseUserinfo ui of Inl e \<Rightarrow> Inl e | Inr u \<Rightarrow> Inr (Some u, h))))"

definition setPath :: "URL \<Rightarrow> string \<Rightarrow> url_error + URL" where
  "setPath u p =
     (case unescape encodePath p of
        Inl e \<Rightarrow> Inl e
      | Inr path \<Rightarrow>
          Inr (u\<lparr>UrlPath := path, RawPath := (if p = escape encodePath path then [] else p)\<rparr>))"

definition setFragment :: "URL \<Rightarrow> string \<Rightarrow> url_error + URL" where
  "setFragment u f =
     (case unescape encodeFragment f of
        Inl e \<Rightarrow> Inl e
      | Inr frag \<Rightarrow>
          Inr (u\<lparr>Fragment := frag,
                 RawFragment := (if f = escape encodeFragment frag then [] else f)\<rparr>))"

definition containsCTLByte :: "string \<Rightarrow> bool" where
  "containsCTLByte s = list_ex (\<lambda>c. code c < 32 \<or> code c = 127) s"

text \<open>Splitting the query off: a single question mark at the end only forces an empty query.\<close>

definition split_query :: "string \<Rightarrow> string \<times> bool \<times> string" where
  "split_query rest =
     (case Cut rest CHR ''?'' of
        None \<Rightarrow> (rest, False, [])
      | Some (p, q) \<Rightarrow> if q = [] then (p, True, []) else (p, False, q))"

definition parse_hier :: "(string \<Rightarrow> bool) \<Rightarrow> URL \<Rightarrow> string \<Rightarrow> url_error + URL" where
  "parse_hier ip6 u rest =
     (if (Scheme u \<noteq> [] \<or> \<not> HasPrefix rest ''///'') \<and> HasPrefix rest ''//'' then
        (let a = drop 2 rest;
             authority = takeWhile (\<lambda>c. c \<noteq> CHR ''/'') a;
             path = dropWhile (\<lambda>c. c \<noteq> CHR ''/'') a
         in case parseAuthority ip6 authority of
              Inl e \<Rightarrow> Inl e
            | Inr (ui, h) \<Rightarrow> setPath (u\<lparr>UserInfo := ui, UrlHost := h\<rparr>) path)
      else setPath (u\<lparr>OmitHost := Scheme u \<noteq> [] \<and> HasPrefix rest ''/''\<rparr>) rest)"

definition parse_ref :: "(string \<Rightarrow> bool) \<Rightarrow> string \<Rightarrow> url_error + URL" where
  "parse_ref ip6 raw =
     (if containsCTLByte raw then Inl InvalidControlCharacter
      else if raw = ''*'' then Inr (empty_URL\<lparr>UrlPath := ''*''\<rparr>)
      else case getScheme raw of
        Inl e \<Rightarrow> Inl e
      | Inr (scheme, rest0) \<Rightarrow>
          (let (rest, force, query) = split_query rest0;
               u = empty_URL\<lparr>Scheme := ToLower scheme, ForceQuery := force, RawQuery := query\<rparr>
           in if \<not> HasPrefix rest ''/'' \<and> scheme \<noteq> [] then Inr (u\<lparr>Opaque := rest\<rparr>)
              else if \<not> HasPrefix rest ''/'' \<and> CHR '':'' \<in> set (fst (cut_total rest CHR ''/'')) then
                Inl FirstPathSegmentColon
              else parse_hier ip6 u rest))"

definition url_Parse :: "(string \<Rightarrow> bool) \<Rightarrow> string \<Rightarrow> url_error + URL" where
  "url_Parse ip6 raw =
     (let (u, frag) = cut_total raw CHR ''#''
      in case parse_ref ip6 u of
           Inl e \<Rightarrow> Inl e
         | Inr url \<Rightarrow> if frag = [] then Inr url else setFragment url frag)"

section \<open>Printing\<close>

definition EscapedPath :: "URL \<Rightarrow> string" where
  "EscapedPath u =
     (if RawPath u \<noteq> [] \<and> validEncoded encodePath (RawPath u)
         \<and> unescape encodePath (RawPath u) = Inr (UrlPath u) then RawPath u
      else if UrlPath u = ''*'' then ''*''
      else escape encodePath (UrlPath u))"

definition EscapedFragment :: "URL \<Rightarrow> string" where
  "EscapedFragment u =
     (if RawFragment u \<noteq> [] \<and> validEncoded encodeFragment (RawFragment u)
         \<and> unescape encodeFragment (RawFragment u) = Inr (Fragment u) then RawFragment u
      else escape encodeFragment (Fragment u))"

definition Userinfo_String :: "Userinfo \<Rightarrow> string" where
  "Userinfo_String ui =
     escape encodeUserPassword (Username ui) @
     (case Password ui of None \<Rightarrow> [] | Some p \<Rightarrow> '':'' @ escape encodeUserPassword p)"

definition authority_String :: "URL \<Rightarrow> string" where
  "authority_String u =
     (if Scheme u \<noteq> [] \<or> UrlHost u \<noteq> [] \<or> UserInfo u \<noteq> None then
        (if OmitHost u \<and> UrlHost u = [] \<and> UserInfo u = None then []
         else (if UrlHost u \<noteq> [] \<or> UrlPath u \<noteq> [] \<or> UserInfo u \<noteq> None then ''//'' else []) @
              (case UserInfo u of None \<Rightarrow> [] | Some ui \<Rightarrow> Userinfo_String ui @ ''@'') @
              escape encodeHost (UrlHost u))
      else [])"

definition path_String :: "URL \<Rightarrow> string \<Rightarrow> string" where
  "path_String u front =
     (let path = EscapedPath u
      in (if path \<noteq> [] \<and> \<not> HasPrefix path ''/'' \<and> UrlHost u \<noteq> [] then ''/'' else []) @
         (if front = [] \<and> CHR '':'' \<in> set (fst (cut_total path CHR ''/'')) then ''./'' else []) @
         path)"

definition url_String :: "URL \<Rightarrow> string" where
  "url_String u =
     (let scheme = (if Scheme u \<noteq> [] then Scheme u @ '':'' else []);
          hier = (if Opaque u \<noteq> [] then Opaque u
                  else authority_String u @ path_String u (scheme @ authority_String u))
      in scheme @ hier @
         (if ForceQuery u \<or> RawQuery u \<noteq> [] then ''?'' @ RawQuery u else []) @
         (if Fragment u \<noteq> [] then ''#'' @ EscapedFragment u else []))"

section \<open>Hosts and ports\<close>

definition Hostname :: "URL \<Rightarrow> string" where
  "Hostname u =
     (let h = (case cut_last (UrlHost u) CHR '':'' of
                 Some (a, p) \<Rightarrow> if list_all is_digit p then a else UrlHost u
               | None \<Rightarrow> UrlHost u)
      in if HasPrefix h ''['' \<and> HasSuffix h '']'' then drop 1 (take (length h - 1) h) else h)"

definition SplitHostPort :: "string \<Rightarrow> (string \<times> string) option" where
  "SplitHostPort hostport =
     (case cut_last hostport CHR '':'' of
        None \<Rightarrow> None
      | Some (front, port) \<Rightarrow>
          if HasPrefix hostport ''['' then
            (case Cut hostport CHR '']'' of
               None \<Rightarrow> None
             | Some (pre, post) \<Rightarrow>
                 if front = pre @ '']'' \<and> CHR ''['' \<notin> set (drop 1 hostport) \<and> CHR '']'' \<notin> set post
                 then Some (drop 1 pre, port) else None)
          else if CHR '':'' \<in> set front \<or> CHR ''['' \<in> set hostport \<or> CHR '']'' \<in> set hostport
          then None
          else Some (front, port))"

definition JoinHostPort :: "string \<Rightarrow> string \<Rightarrow> string" where
  "JoinHostPort host port =
     (if CHR '':'' \<in> set host then ''['' @ host @ '']:'' @ port else host @ '':'' @ port)"

section \<open>Plain URLs\<close>

text \<open>
  A plain URL has a lower-case scheme, a host of unreserved characters with an optional port, and
  a path of unreserved characters: nothing in it is escaped, and parsing reads each part back.
\<close>

definition unreserved :: "char \<Rightarrow> bool" where
  "unreserved c \<longleftrightarrow> is_alnum c \<or> c \<in> set ''-_.~''"

definition plain_host :: "string \<Rightarrow> bool" where
  "plain_host h \<longleftrightarrow>
     (case Cut h CHR '':'' of
        None \<Rightarrow> list_all unreserved h
      | Some (n, p) \<Rightarrow> list_all unreserved n \<and> list_all is_digit p)"

definition plain_path :: "string \<Rightarrow> bool" where
  "plain_path p \<longleftrightarrow> list_all (\<lambda>c. unreserved c \<or> c = CHR ''/'') p"

lemma not_unreserved [simp]:
  "\<not> unreserved CHR ''/''" "\<not> unreserved CHR ''?''" "\<not> unreserved CHR ''#''"
  "\<not> unreserved CHR ''%''" "\<not> unreserved CHR '':''" "\<not> unreserved CHR ''@''"
  "\<not> unreserved CHR ''[''" "\<not> unreserved CHR '']''" "\<not> unreserved CHR ''+''"
  by code_simp+

lemma unreserved_printable: "unreserved c \<Longrightarrow> 32 \<le> code c \<and> code c \<noteq> 127"
  by (auto simp: unreserved_def is_alnum_def is_lower_def is_upper_def is_digit_def code_def
      less_eq_char_def)

lemma kept_slash_colon [simp]:
  "\<not> shouldEscape CHR ''/'' encodePath" "\<not> shouldEscape CHR '':'' encodeHost"
  by code_simp+

lemma digit_unreserved [simp]: "is_digit c \<Longrightarrow> unreserved c"
  by (simp add: unreserved_def is_alnum_def)

lemma unreserved_not_escaped [simp]: "unreserved c \<Longrightarrow> \<not> shouldEscape c mode"
  by (auto simp: unreserved_def shouldEscape_def)

lemma unescape_plain:
  assumes "list_all (\<lambda>c. \<not> shouldEscape c mode \<and> c \<noteq> CHR ''%'' \<and> c \<noteq> CHR ''+'') s"
  shows "unescape mode s = Inr s"
  using assms by (induction s) auto

lemma escape_plain: "list_all (\<lambda>c. \<not> shouldEscape c mode) s \<Longrightarrow> escape mode s = s"
  by (induction s) (auto simp: escape_def escape_char_def)

lemma plain_path_escape:
  assumes "plain_path p"
  shows "unescape encodePath p = Inr p" "escape encodePath p = p"
proof -
  have "list_all (\<lambda>c. \<not> shouldEscape c encodePath \<and> c \<noteq> CHR ''%'' \<and> c \<noteq> CHR ''+'') p"
    using assms unfolding plain_path_def
    by (rule list.pred_mono_strong) auto
  then show "unescape encodePath p = Inr p" "escape encodePath p = p"
    by (auto intro!: unescape_plain escape_plain elim: list.pred_mono_strong)
qed

lemma plain_host_chars:
  "plain_host h \<Longrightarrow> list_all (\<lambda>c. unreserved c \<or> c = CHR '':'') h"
  by (auto simp: plain_host_def list_all_iff gostr split: option.splits)

lemma parseHost_plain:
  assumes "plain_host h"
  shows "parseHost ip6 h = Inr h"
proof -
  have c: "list_all (\<lambda>c. \<not> shouldEscape c encodeHost \<and> c \<noteq> CHR ''%'' \<and> c \<noteq> CHR ''+'') h"
    using plain_host_chars [OF assms]
    by (rule list.pred_mono_strong) auto
  have "CHR ''['' \<notin> set h"
    using plain_host_chars [OF assms] by (auto simp: list_all_iff)
  with unescape_plain [OF c] assms show ?thesis
    by (auto simp: parseHost_def plain_host_def validOptionalPort_def split: option.splits)
qed

lemma parseAuthority_plain:
  assumes "plain_host h"
  shows "parseAuthority ip6 h = Inr (None, h)"
proof -
  have "CHR ''@'' \<notin> set h"
    using plain_host_chars [OF assms] by (auto simp: list_all_iff)
  then have "cut_last h CHR ''@'' = None"
    by (simp add: cut_last_def Cut_None_iff [THEN iffD2])
  with parseHost_plain [OF assms] show ?thesis by (simp add: parseAuthority_def)
qed

lemma getScheme_from_lower:
  "list_all is_lower s \<Longrightarrow> pre @ s \<noteq> [] \<Longrightarrow>
   getScheme_from raw pre (s @ CHR '':'' # r) = Inr (pre @ s, r)"
  by (induction s arbitrary: pre)
    (auto simp: is_lower_def is_upper_def is_digit_def less_eq_char_def)

lemma ToLower_lower: "list_all is_lower s \<Longrightarrow> ToLower s = s"
  unfolding ToLower_def list_all_iff
  by (rule map_idI) (auto simp: to_lower_def is_lower_def is_upper_def less_eq_char_def)

lemma url_Parse_plain:
  assumes "list_all is_lower sch" "sch \<noteq> []" "plain_host h" "plain_path p"
    "p = [] \<or> HasPrefix p ''/''"
  shows "url_Parse ip6 (sch @ ''://'' @ h @ p) =
    Inr (empty_URL\<lparr>Scheme := sch, UrlHost := h, UrlPath := p\<rparr>)"
proof -
  have s: "unreserved c" if "c \<in> set sch" for c
    using assms(1) that by (auto simp: list_all_iff unreserved_def is_alnum_def)
  have h: "unreserved c \<or> c = CHR '':''" if "c \<in> set h" for c
    using plain_host_chars [OF assms(3)] that by (auto simp: list_all_iff)
  have p: "unreserved c \<or> c = CHR ''/''" if "c \<in> set p" for c
    using assms(4) that by (auto simp: plain_path_def list_all_iff)
  let ?raw = "sch @ ''://'' @ h @ p"
  have "CHR ''#'' \<notin> set ?raw" "CHR ''?'' \<notin> set (''//'' @ h @ p)"
    using s [of "CHR ''#''"] h [of "CHR ''#''"] p [of "CHR ''#''"]
      h [of "CHR ''?''"] p [of "CHR ''?''"] by auto
  then have cut: "cut_total ?raw CHR ''#'' = (?raw, [])"
    "split_query (''//'' @ h @ p) = (''//'' @ h @ p, False, [])"
    by (auto simp: cut_total_def split_query_def Cut_None_iff [THEN iffD2])
  have "32 \<le> code c \<and> code c \<noteq> 127" if "c \<in> set ?raw" for c
    using that s [of c] h [of c] p [of c] unreserved_printable [of c] by (auto simp: code_def)
  then have ctl: "\<not> containsCTLByte ?raw"
    unfolding containsCTLByte_def list_ex_iff by (metis not_le)
  have scheme: "getScheme ?raw = Inr (sch, ''//'' @ h @ p)"
    using getScheme_from_lower [OF assms(1), of "[]" ?raw "''//'' @ h @ p"] assms(2)
    by (simp add: getScheme_def)
  have slash: "c \<noteq> CHR ''/''" if "c \<in> set h" for c using h [OF that] by auto
  have split: "takeWhile (\<lambda>c. c \<noteq> CHR ''/'') (h @ p) = h"
    "dropWhile (\<lambda>c. c \<noteq> CHR ''/'') (h @ p) = p"
    using assms(5) slash
    by (auto simp: HasPrefix_def prefix_def takeWhile_append dropWhile_append)
  have "?raw \<noteq> ''*''" using assms(2) by (cases sch) auto
  then show ?thesis
    using assms(2) ctl scheme cut split plain_path_escape [OF assms(4)]
    by (simp add: url_Parse_def parse_ref_def parse_hier_def setPath_def parseAuthority_plain
        assms(3) ToLower_lower [OF assms(1)] HasPrefix_def empty_URL_def)
qed

end
