(* ===== verification/InvocationRecord.thy ===== *)
theory InvocationRecord
  imports Prelude
begin

text \<open>
  The queryable summary of one invocation (\<open>src/index/record.go\<close>) and the normalisation of its
  tags (\<open>src/index/tags.go\<close>), with the reference that the tag loop computes.
\<close>

record Record =
  InvocationID :: string
  Host :: string
  User :: string
  Role :: string
  RepoURL :: string
  BranchName :: string
  CommitSHA :: string
  Command :: string
  Pattern :: "string list"
  Tags :: "string list"
  ParentRunID :: string
  RunID :: string
  Success :: bool
  BazelExitCode :: string
  DurationUsec :: int
  ActionCount :: int
  CreatedAt :: gotime
  UpdatedAt :: gotime

text \<open>The record with only an ID and a creation time, as the server makes it.\<close>

definition new_Record :: "string \<Rightarrow> gotime \<Rightarrow> Record" where
  "new_Record iid now =
     \<lparr>InvocationID = iid, Host = [], User = [], Role = [], RepoURL = [], BranchName = [],
      CommitSHA = [], Command = [], Pattern = [], Tags = [], ParentRunID = [], RunID = [],
      Success = False, BazelExitCode = [], DurationUsec = 0, ActionCount = 0,
      CreatedAt = now, UpdatedAt = 0\<rparr>"

section \<open>Tags\<close>

text \<open>The loop of \<open>splitAndTrimAndDedupeTags\<close>, with its map \<open>seen\<close> and its result \<open>out\<close>.\<close>

fun dedupe_tags :: "string list \<Rightarrow> (string \<Rightarrow> bool) \<Rightarrow> string list \<Rightarrow> string list" where
  "dedupe_tags [] seen out = out"
| "dedupe_tags (t # ts) seen out =
     (let trimmed = TrimSpace t
      in if trimmed \<noteq> [] \<and> \<not> seen trimmed
         then dedupe_tags ts (seen(trimmed := True)) (out @ [trimmed])
         else dedupe_tags ts seen out)"

definition splitAndTrimAndDedupeTags :: "string \<Rightarrow> string list" where
  "splitAndTrimAndDedupeTags tags =
     (if tags = [] then [] else dedupe_tags (Split tags CHR '','') (\<lambda>_. False) [])"

section \<open>Reference and lemmas\<close>

text \<open>The first occurrence of each element, in order.\<close>

definition nub :: "'a list \<Rightarrow> 'a list" where
  "nub xs = rev (remdups (rev xs))"

lemma nub_snoc: "nub (xs @ [x]) = (if x \<in> set xs then nub xs else nub xs @ [x])"
  by (simp add: nub_def)

lemma set_nub [simp]: "set (nub xs) = set xs"
  by (simp add: nub_def)

lemma distinct_nub [simp]: "distinct (nub xs)"
  by (simp add: nub_def)

lemma dedupe_tags_nub:
  assumes "\<And>t. seen t \<longleftrightarrow> t \<in> set pre" and "out = nub pre"
  shows "dedupe_tags ts seen out = nub (pre @ filter (\<lambda>t. t \<noteq> []) (map TrimSpace ts))"
  using assms
proof (induction ts arbitrary: seen out pre)
  case (Cons t ts)
  let ?t = "TrimSpace t"
  show ?case
  proof (cases "?t \<noteq> [] \<and> \<not> seen ?t")
    case True
    have "dedupe_tags ts (seen(?t := True)) (out @ [?t]) =
        nub ((pre @ [?t]) @ filter (\<lambda>t. t \<noteq> []) (map TrimSpace ts))"
      using Cons.prems True by (intro Cons.IH) (auto simp: nub_snoc)
    with True show ?thesis by (simp add: Let_def)
  next
    case skip: False
    show ?thesis
    proof (cases "?t = []")
      case True
      with Cons.IH [OF Cons.prems] show ?thesis by (simp add: Let_def)
    next
      case False
      have "dedupe_tags ts seen out = nub ((pre @ [?t]) @ filter (\<lambda>t. t \<noteq> []) (map TrimSpace ts))"
        using Cons.prems skip False by (intro Cons.IH) (auto simp: nub_snoc)
      with skip False show ?thesis by (simp add: Let_def)
    qed
  qed
qed simp

lemma TrimSpace_Nil [simp]: "TrimSpace [] = []"
  by (simp add: TrimSpace_def TrimLeftSpace.simps TrimRightSpace.simps)

text \<open>
  C23: the tags of a comma-separated list are its parts with white space trimmed, without the empty
  ones, each kept where it first occurs; so they are distinct, non-empty, trimmed, and hold no
  comma.
\<close>

theorem tags_normalised:
  "splitAndTrimAndDedupeTags tags =
     nub (filter (\<lambda>t. t \<noteq> []) (map TrimSpace (Split tags CHR '',''))) \<and>
   distinct (splitAndTrimAndDedupeTags tags) \<and>
   list_all (\<lambda>t. t \<noteq> [] \<and> TrimSpace t = t \<and> CHR '','' \<notin> set t) (splitAndTrimAndDedupeTags tags)"
proof -
  have eq: "splitAndTrimAndDedupeTags tags =
      nub (filter (\<lambda>t. t \<noteq> []) (map TrimSpace (Split tags CHR '','')))"
    using dedupe_tags_nub [of "\<lambda>_. False" "[]" "[]" "Split tags CHR '',''"]
    by (simp add: splitAndTrimAndDedupeTags_def nub_def)
  moreover have "CHR '','' \<notin> set (TrimSpace w)" if "w \<in> set (Split tags CHR '','')" for w
    using Split_no_sep [OF that] set_TrimSpace by blast
  ultimately show ?thesis by (auto simp: list_all_iff)
qed

end
