(* ===== verification/EventParser.thy ===== *)
theory EventParser
  imports BuildEvents GitUrl InvocationRecord
begin

text \<open>
  The event parser, \<open>src/index/parser.go\<close>: it folds the events of one invocation into a
  \<^typ>\<open>Record\<close>.  Every summary field but the tags carries the priority of the event that set it,
  and the setters follow one contract, stated here as the locale \<open>prio_field\<close> and interpreted on
  each setter; the lemmas of the locale then say which event decides a field.
\<close>

section \<open>State\<close>

definition structuredCommandLineLabelCanonical :: string where
  "structuredCommandLineLabelCanonical = ''canonical''"

definition envVarOptionName :: string where "envVarOptionName = ''client_env''"

definition envVarSeparator :: char where "envVarSeparator = CHR ''=''"

definition startedPriority :: int where "startedPriority = 1"

definition envPriority :: int where "envPriority = 2"

definition workspaceStatusPriority :: int where "workspaceStatusPriority = 3"

definition buildMetadataPriority :: int where "buildMetadataPriority = 4"

record fieldPriorities =
  pHost :: int
  pUser :: int
  pRole :: int
  pRepoURL :: int
  pBranchName :: int
  pCommitSHA :: int
  pCommand :: int
  pPattern :: int
  pTags :: int
  pParentRunID :: int
  pRunID :: int

record EventParser =
  parser_record :: Record
  startTime :: "gotime option"
  priority :: fieldPriorities

definition NewEventParser :: "Record \<Rightarrow> EventParser" where
  "NewEventParser r =
     \<lparr>parser_record = r, startTime = None,
      priority = \<lparr>pHost = 0, pUser = 0, pRole = 0, pRepoURL = 0, pBranchName = 0, pCommitSHA = 0,
        pCommand = 0, pPattern = 0, pTags = 0, pParentRunID = 0, pRunID = 0\<rparr>\<rparr>"

section \<open>Setters\<close>

definition setHost :: "string \<Rightarrow> int \<Rightarrow> EventParser \<Rightarrow> EventParser" where
  "setHost value pr p =
     (if pHost (priority p) \<le> pr
      then p\<lparr>priority := (priority p)\<lparr>pHost := pr\<rparr>, parser_record := (parser_record p)\<lparr>Host := value\<rparr>\<rparr>
      else p)"

definition setUser :: "string \<Rightarrow> int \<Rightarrow> EventParser \<Rightarrow> EventParser" where
  "setUser value pr p =
     (if pUser (priority p) \<le> pr
      then p\<lparr>priority := (priority p)\<lparr>pUser := pr\<rparr>, parser_record := (parser_record p)\<lparr>User := value\<rparr>\<rparr>
      else p)"

definition setRole :: "string \<Rightarrow> int \<Rightarrow> EventParser \<Rightarrow> EventParser" where
  "setRole value pr p =
     (if pRole (priority p) \<le> pr
      then p\<lparr>priority := (priority p)\<lparr>pRole := pr\<rparr>, parser_record := (parser_record p)\<lparr>Role := value\<rparr>\<rparr>
      else p)"

text \<open>The value a repository URL is recorded as: normalised, or as given if it does not parse.\<close>

definition repo_value :: "golib \<Rightarrow> string \<Rightarrow> string" where
  "repo_value lib value =
     (case normalizeRepoURL (ParseAddr6 lib) value of Inl e \<Rightarrow> value | Inr norm \<Rightarrow> url_String norm)"

definition setRepoURL :: "golib \<Rightarrow> string \<Rightarrow> int \<Rightarrow> EventParser \<Rightarrow> EventParser" where
  "setRepoURL lib value pr p =
     (let value' = repo_value lib value
      in if pRepoURL (priority p) \<le> pr
         then p\<lparr>priority := (priority p)\<lparr>pRepoURL := pr\<rparr>,
                parser_record := (parser_record p)\<lparr>RepoURL := value'\<rparr>\<rparr>
         else p)"

definition setBranchName :: "string \<Rightarrow> int \<Rightarrow> EventParser \<Rightarrow> EventParser" where
  "setBranchName value pr p =
     (if pBranchName (priority p) \<le> pr
      then p\<lparr>priority := (priority p)\<lparr>pBranchName := pr\<rparr>,
             parser_record := (parser_record p)\<lparr>BranchName := value\<rparr>\<rparr>
      else p)"

definition setCommitSHA :: "string \<Rightarrow> int \<Rightarrow> EventParser \<Rightarrow> EventParser" where
  "setCommitSHA value pr p =
     (if pCommitSHA (priority p) \<le> pr
      then p\<lparr>priority := (priority p)\<lparr>pCommitSHA := pr\<rparr>,
             parser_record := (parser_record p)\<lparr>CommitSHA := value\<rparr>\<rparr>
      else p)"

definition setCommand :: "string \<Rightarrow> int \<Rightarrow> EventParser \<Rightarrow> EventParser" where
  "setCommand value pr p =
     (if pCommand (priority p) \<le> pr
      then p\<lparr>priority := (priority p)\<lparr>pCommand := pr\<rparr>,
             parser_record := (parser_record p)\<lparr>Command := value\<rparr>\<rparr>
      else p)"

definition setPattern :: "string list \<Rightarrow> int \<Rightarrow> EventParser \<Rightarrow> EventParser" where
  "setPattern value pr p =
     (if pPattern (priority p) \<le> pr
      then p\<lparr>priority := (priority p)\<lparr>pPattern := pr\<rparr>,
             parser_record := (parser_record p)\<lparr>Pattern := value\<rparr>\<rparr>
      else p)"

definition setTags :: "string \<Rightarrow> int \<Rightarrow> EventParser \<Rightarrow> EventParser" where
  "setTags value pr p =
     (let tags = splitAndTrimAndDedupeTags value;
          r = parser_record p
      in p\<lparr>parser_record :=
             (if pTags (priority p) \<le> pr then r\<lparr>Tags := Tags r @ tags\<rparr>
              else r\<lparr>Tags := tags @ Tags r\<rparr>),
           priority := (priority p)\<lparr>pTags := pr\<rparr>\<rparr>)"

definition setParentRunID :: "string \<Rightarrow> int \<Rightarrow> EventParser \<Rightarrow> EventParser" where
  "setParentRunID value pr p =
     (if pParentRunID (priority p) \<le> pr
      then p\<lparr>priority := (priority p)\<lparr>pParentRunID := pr\<rparr>,
             parser_record := (parser_record p)\<lparr>ParentRunID := value\<rparr>\<rparr>
      else p)"

definition setRunID :: "string \<Rightarrow> int \<Rightarrow> EventParser \<Rightarrow> EventParser" where
  "setRunID value pr p =
     (if pRunID (priority p) \<le> pr
      then p\<lparr>priority := (priority p)\<lparr>pRunID := pr\<rparr>,
             parser_record := (parser_record p)\<lparr>RunID := value\<rparr>\<rparr>
      else p)"

section \<open>Command line\<close>

text \<open>Reading a Go map of strings: a missing key reads as the empty string.\<close>

definition map_get :: "(string \<rightharpoonup> string) \<Rightarrow> string \<Rightarrow> string" where
  "map_get m k = (case m k of None \<Rightarrow> [] | Some v \<Rightarrow> v)"

definition option_lists :: "CommandLine \<Rightarrow> OptionMsg list" where
  "option_lists cl =
     concat (map (\<lambda>s. case s of CommandLineSection_OptionList os \<Rightarrow> os | _ \<Rightarrow> []) (Sections cl))"

definition add_env :: "OptionMsg \<Rightarrow> (string \<rightharpoonup> string) \<Rightarrow> (string \<rightharpoonup> string)" where
  "add_env opt m =
     (if OptionName opt \<noteq> envVarOptionName then m
      else case Cut (OptionValue opt) envVarSeparator of
        None \<Rightarrow> m
      | Some (k, v) \<Rightarrow> m(k \<mapsto> v))"

definition parseCommandLine :: "CommandLine option \<Rightarrow> (string \<rightharpoonup> string)" where
  "parseCommandLine cl =
     (case cl of None \<Rightarrow> Map.empty | Some cl \<Rightarrow> fold add_env (option_lists cl) Map.empty)"

text \<open>The loop \<open>for _, k := range keys { if v := env[k]; v != "" { set(v) } }\<close>.\<close>

definition set_from_keys ::
  "(string \<rightharpoonup> string) \<Rightarrow> (string \<Rightarrow> int \<Rightarrow> EventParser \<Rightarrow> EventParser) \<Rightarrow> int \<Rightarrow> string list
     \<Rightarrow> EventParser \<Rightarrow> EventParser" where
  "set_from_keys env setter pr keys p =
     fold (\<lambda>k p. if map_get env k \<noteq> [] then setter (map_get env k) pr p else p) keys p"

definition user_keys :: "string list" where
  "user_keys = [''USER'', ''GITHUB_ACTOR'', ''BUILDKITE_BUILD_CREATOR'', ''GITLAB_USER_NAME'',
     ''CIRCLE_USERNAME'']"

definition repo_keys :: "string list" where
  "repo_keys = [''TRAVIS_REPO_SLUG'', ''GIT_REPOSITORY_URL'', ''GIT_URL'', ''BUILDKITE_REPO'',
     ''REPO_URL'', ''CIRCLE_REPOSITORY_URL'', ''GITHUB_REPOSITORY'', ''CI_REPOSITORY_URL'']"

definition branch_keys :: "string list" where
  "branch_keys = [''TRAVIS_BRANCH'', ''BITRISE_GIT_BRANCH'', ''GIT_BRANCH'', ''BUILDKITE_BRANCH'',
     ''CIRCLE_BRANCH'', ''GITHUB_HEAD_REF'', ''CI_COMMIT_BRANCH'',
     ''CI_MERGE_REQUEST_SOURCE_BRANCH_NAME'']"

definition commit_keys :: "string list" where
  "commit_keys = [''TRAVIS_COMMIT'', ''BITRISE_GIT_COMMIT'', ''GIT_COMMIT'', ''BUILDKITE_COMMIT'',
     ''CIRCLE_SHA1'', ''GITHUB_SHA'', ''COMMIT_SHA'', ''VOLATILE_GIT_COMMIT'', ''CI_COMMIT_SHA'']"

definition set_github_ref :: "(string \<rightharpoonup> string) \<Rightarrow> int \<Rightarrow> EventParser \<Rightarrow> EventParser" where
  "set_github_ref env pr p =
     (let v = map_get env ''GITHUB_REF''
      in if HasPrefix v ''refs/heads/'' then setBranchName (TrimPrefix v ''refs/heads/'') pr p else p)"

definition set_ci_roles :: "(string \<rightharpoonup> string) \<Rightarrow> int \<Rightarrow> EventParser \<Rightarrow> EventParser" where
  "set_ci_roles env pr p =
     (let p1 = (if map_get env ''CI'' \<noteq> [] then setRole ''CI'' pr p else p)
      in if map_get env ''CI_RUNNER'' \<noteq> [] then setRole ''CI_RUNNER'' pr p1 else p1)"

definition fillFromStructuredCommandLine :: "golib \<Rightarrow> CommandLine \<Rightarrow> EventParser \<Rightarrow> EventParser" where
  "fillFromStructuredCommandLine lib cl p =
     (if CommandLineLabel cl \<noteq> structuredCommandLineLabelCanonical then p
      else
        let env = parseCommandLine (Some cl);
            p1 = set_from_keys env setUser envPriority user_keys p;
            p2 = set_from_keys env (setRepoURL lib) envPriority repo_keys p1;
            p3 = set_from_keys env setBranchName envPriority branch_keys p2;
            p4 = set_github_ref env envPriority p3;
            p5 = set_from_keys env setCommitSHA envPriority commit_keys p4
        in set_ci_roles env envPriority p5)"

section \<open>Workspace status and build metadata\<close>

definition status_item :: "golib \<Rightarrow> int \<Rightarrow> WorkspaceStatus_Item \<Rightarrow> EventParser \<Rightarrow> EventParser" where
  "status_item lib pr item p =
     (let k = ItemKey item; v = ItemValue item
      in if v = [] then p
         else if k = ''BUILD_USER'' \<or> k = ''USER'' then setUser v pr p
         else if k = ''BUILD_HOST'' \<or> k = ''HOST'' then setHost v pr p
         else if k = ''PATTERN'' then setPattern (Split v CHR '' '') pr p
         else if k = ''ROLE'' then setRole v pr p
         else if k = ''REPO_URL'' then setRepoURL lib v pr p
         else if k = ''GIT_BRANCH'' then setBranchName v pr p
         else if k = ''COMMIT_SHA'' then setCommitSHA v pr p
         else if k = ''TAGS'' then setTags v pr p
         else p)"

definition fillFromWorkspaceStatus ::
  "golib \<Rightarrow> WorkspaceStatus_Item list \<Rightarrow> EventParser \<Rightarrow> EventParser" where
  "fillFromWorkspaceStatus lib items p = fold (status_item lib workspaceStatusPriority) items p"

text \<open>\<open>if v := metadata[key]; v != "" { set(v, priority) }\<close>.\<close>

definition set_from_meta ::
  "(string \<rightharpoonup> string) \<Rightarrow> string \<Rightarrow> (string \<Rightarrow> int \<Rightarrow> EventParser \<Rightarrow> EventParser)
     \<Rightarrow> EventParser \<Rightarrow> EventParser" where
  "set_from_meta m key setter p =
     (if map_get m key \<noteq> [] then setter (map_get m key) buildMetadataPriority p else p)"

text \<open>The tag values: \<open>TAGS\<close> first, then each \<open>TAG_\<close> entry in the order of the iteration.\<close>

definition meta_tag :: "string \<times> string \<Rightarrow> string list" where
  "meta_tag kv =
     (case CutPrefix (fst kv) ''TAG_'' of
        None \<Rightarrow> []
      | Some tagKey \<Rightarrow> if snd kv \<noteq> [] then [tagKey @ ''='' @ snd kv] else [tagKey])"

definition meta_tag_values :: "(string \<times> string) list \<Rightarrow> string list" where
  "meta_tag_values metadata =
     (let v = map_get (map_of metadata) ''TAGS''
      in (if v \<noteq> [] then [v] else []) @ concat (map meta_tag metadata))"

definition fillFromBuildMetadata ::
  "golib \<Rightarrow> (string \<times> string) list \<Rightarrow> EventParser \<Rightarrow> EventParser" where
  "fillFromBuildMetadata lib metadata p =
     (let m = map_of metadata;
          p1 = set_from_meta m ''COMMIT_SHA'' setCommitSHA p;
          p2 = set_from_meta m ''BRANCH_NAME'' setBranchName p1;
          p3 = set_from_meta m ''REPO_URL'' (setRepoURL lib) p2;
          p4 = set_from_meta m ''USER'' setUser p3;
          p5 = set_from_meta m ''HOST'' setHost p4;
          p6 = set_from_meta m ''PATTERN'' (\<lambda>v. setPattern (Split v CHR '' '')) p5;
          p7 = set_from_meta m ''ROLE'' setRole p6;
          p8 = set_from_meta m ''PARENT_RUN_ID'' setParentRunID p7;
          p9 = set_from_meta m ''RUN_ID'' setRunID p8;
          tagValues = meta_tag_values metadata
      in if tagValues \<noteq> [] then setTags (Join tagValues '','') buildMetadataPriority p9 else p9)"

section \<open>ParseEvent\<close>

definition timeWithFallback :: "golib \<Rightarrow> Timestamp option \<Rightarrow> int \<Rightarrow> gotime" where
  "timeWithFallback lib ts fallbackMillis =
     (if ts \<noteq> None then AsTime lib ts else time_UnixMilli fallbackMillis)"

definition child_pattern :: "BuildEventId \<Rightarrow> EventParser \<Rightarrow> EventParser" where
  "child_pattern child p =
     (case child of BuildEventId_Pattern pats \<Rightarrow> setPattern pats startedPriority p | _ \<Rightarrow> p)"

definition parse_started :: "golib \<Rightarrow> BuildEvent \<Rightarrow> BuildStarted \<Rightarrow> EventParser \<Rightarrow> EventParser" where
  "parse_started lib event st p =
     (let t = timeWithFallback lib (StartTime st) (StartTimeMillis st);
          p1 = setCommand (StartedCommand st) startedPriority (p\<lparr>startTime := Some t\<rparr>)
      in fold child_pattern (Children event) p1)"

definition parse_finished :: "golib \<Rightarrow> BuildFinished \<Rightarrow> EventParser \<Rightarrow> EventParser" where
  "parse_finished lib f p =
     (let endTime = timeWithFallback lib (FinishTime f) (FinishTimeMillis f);
          r = parser_record p;
          r1 = (case startTime p of
                  Some s \<Rightarrow> r\<lparr>DurationUsec := Microseconds (time_Sub endTime s)\<rparr>
                | None \<Rightarrow> r)
      in p\<lparr>parser_record := r1\<lparr>Success := (GetCode (FinishedExitCode f) = 0),
                               BazelExitCode := GetName (FinishedExitCode f)\<rparr>\<rparr>)"

definition ParseEvent :: "golib \<Rightarrow> BuildEvent \<Rightarrow> EventParser \<Rightarrow> EventParser" where
  "ParseEvent lib event p =
     (case Payload event of
        BuildEvent_Started st \<Rightarrow> parse_started lib event st p
      | BuildEvent_StructuredCommandLine cl \<Rightarrow> fillFromStructuredCommandLine lib cl p
      | BuildEvent_WorkspaceStatus items \<Rightarrow> fillFromWorkspaceStatus lib items p
      | BuildEvent_Finished f \<Rightarrow> parse_finished lib f p
      | BuildEvent_BuildMetrics m \<Rightarrow>
          p\<lparr>parser_record := (parser_record p)\<lparr>ActionCount := GetActionsExecuted m\<rparr>\<rparr>
      | BuildEvent_BuildMetadata md \<Rightarrow> fillFromBuildMetadata lib md p
      | _ \<Rightarrow> p)"

text \<open>A whole stream, as the server feeds it to one parser.\<close>

definition ParseEvents :: "golib \<Rightarrow> BuildEvent list \<Rightarrow> EventParser \<Rightarrow> EventParser" where
  "ParseEvents lib events p = fold (ParseEvent lib) events p"

section \<open>The contract of the setters\<close>

text \<open>
  A field under priorities is a cell holding a value and the priority that set it.  A write
  replaces the value unless the cell was set with a higher priority.
\<close>

fun cell_write :: "'v \<times> int \<Rightarrow> 'v \<times> int \<Rightarrow> 'v \<times> int" where
  "cell_write (v, pr) (w, pw) = (if pw \<le> pr then (v, pr) else (w, pw))"

lemma fold_cell_writes:
  assumes "\<And>x p. x \<in> set xs \<Longrightarrow> obs (f x p) = fold cell_write (ws x) (obs p)"
  shows "obs (fold f xs p) = fold cell_write (concat (map ws xs)) (obs p)"
  using assms by (induction xs arbitrary: p) auto

lemma cell_write_low: "snd w < snd c \<Longrightarrow> cell_write w c = c"
  by (cases w; cases c) auto

text \<open>Which write decides: the last one of those with the highest priority.\<close>

lemma cell_writes_prio:
  "snd (fold cell_write ws c) = fold (\<lambda>w m. max (snd w) m) ws (snd c)"
  by (induction ws arbitrary: c) (auto simp: max_def split: prod.splits)

lemma cell_writes_low:
  "(\<And>w. w \<in> set ws \<Longrightarrow> snd w < snd c) \<Longrightarrow> fold cell_write ws c = c"
  by (induction ws) (simp_all add: cell_write_low)

lemma fold_max_le:
  "(\<And>w. w \<in> set ws \<Longrightarrow> snd w \<le> (pr :: int)) \<Longrightarrow> m \<le> pr \<Longrightarrow> fold (\<lambda>w m. max (snd w) m) ws m \<le> pr"
  by (induction ws arbitrary: m) auto

lemma cell_writes_last_max:
  assumes "\<And>w. w \<in> set ws \<Longrightarrow> snd w \<le> pr" and "\<And>w. w \<in> set vs \<Longrightarrow> snd w < pr" and "snd c \<le> pr"
  shows "fold cell_write (ws @ (v, pr) # vs) c = (v, pr)"
proof -
  have "snd (fold cell_write ws c) \<le> pr"
    using assms(1,3) by (simp add: cell_writes_prio fold_max_le)
  then have "fold cell_write (ws @ [(v, pr)]) c = (v, pr)"
    by (cases "fold cell_write ws c") simp
  with cell_writes_low [of vs "(v, pr)"] assms(2) show ?thesis by simp
qed

locale prio_field =
  fixes obs :: "'p \<Rightarrow> 'v \<times> int"
    and put :: "'w \<Rightarrow> int \<Rightarrow> 'p \<Rightarrow> 'p"
    and val :: "'w \<Rightarrow> 'v"
  assumes put_obs: "obs (put w pr p) = cell_write (val w, pr) (obs p)"
begin

lemma put_wins: "snd (obs p) \<le> pr \<Longrightarrow> obs (put w pr p) = (val w, pr)"
  by (cases "obs p") (simp add: put_obs)

lemma put_blocked: "pr < snd (obs p) \<Longrightarrow> obs (put w pr p) = obs p"
  by (cases "obs p") (simp add: put_obs)

lemma put_prio_mono: "snd (obs p) \<le> snd (obs (put w pr p))"
  by (cases "obs p") (simp add: put_obs)

lemma puts_obs:
  "obs (fold (\<lambda>(w, pr). put w pr) ws p) = fold cell_write (map (map_prod val id) ws) (obs p)"
  by (induction ws arbitrary: p) (auto simp: put_obs)

end

text \<open>The observation of each field, and the interpretation on the parser's setters.\<close>

definition obs_Host :: "EventParser \<Rightarrow> string \<times> int" where
  "obs_Host p = (Host (parser_record p), pHost (priority p))"

definition obs_User :: "EventParser \<Rightarrow> string \<times> int" where
  "obs_User p = (User (parser_record p), pUser (priority p))"

definition obs_Role :: "EventParser \<Rightarrow> string \<times> int" where
  "obs_Role p = (Role (parser_record p), pRole (priority p))"

definition obs_RepoURL :: "EventParser \<Rightarrow> string \<times> int" where
  "obs_RepoURL p = (RepoURL (parser_record p), pRepoURL (priority p))"

definition obs_BranchName :: "EventParser \<Rightarrow> string \<times> int" where
  "obs_BranchName p = (BranchName (parser_record p), pBranchName (priority p))"

definition obs_CommitSHA :: "EventParser \<Rightarrow> string \<times> int" where
  "obs_CommitSHA p = (CommitSHA (parser_record p), pCommitSHA (priority p))"

definition obs_Command :: "EventParser \<Rightarrow> string \<times> int" where
  "obs_Command p = (Command (parser_record p), pCommand (priority p))"

definition obs_Pattern :: "EventParser \<Rightarrow> string list \<times> int" where
  "obs_Pattern p = (Pattern (parser_record p), pPattern (priority p))"

definition obs_ParentRunID :: "EventParser \<Rightarrow> string \<times> int" where
  "obs_ParentRunID p = (ParentRunID (parser_record p), pParentRunID (priority p))"

definition obs_RunID :: "EventParser \<Rightarrow> string \<times> int" where
  "obs_RunID p = (RunID (parser_record p), pRunID (priority p))"

lemmas setter_defs =
  setHost_def setUser_def setRole_def setRepoURL_def setBranchName_def setCommitSHA_def
  setCommand_def setPattern_def setTags_def setParentRunID_def setRunID_def

lemmas obs_defs =
  obs_Host_def obs_User_def obs_Role_def obs_RepoURL_def obs_BranchName_def obs_CommitSHA_def
  obs_Command_def obs_Pattern_def obs_ParentRunID_def obs_RunID_def

interpretation host_field: prio_field obs_Host setHost "\<lambda>v. v"
  by unfold_locales (simp add: obs_Host_def setHost_def)

interpretation user_field: prio_field obs_User setUser "\<lambda>v. v"
  by unfold_locales (simp add: obs_User_def setUser_def)

interpretation role_field: prio_field obs_Role setRole "\<lambda>v. v"
  by unfold_locales (simp add: obs_Role_def setRole_def)

interpretation repo_field: prio_field obs_RepoURL "setRepoURL lib" "repo_value lib" for lib
  by unfold_locales (simp add: obs_RepoURL_def setRepoURL_def Let_def)

interpretation branch_field: prio_field obs_BranchName setBranchName "\<lambda>v. v"
  by unfold_locales (simp add: obs_BranchName_def setBranchName_def)

interpretation commit_field: prio_field obs_CommitSHA setCommitSHA "\<lambda>v. v"
  by unfold_locales (simp add: obs_CommitSHA_def setCommitSHA_def)

interpretation command_field: prio_field obs_Command setCommand "\<lambda>v. v"
  by unfold_locales (simp add: obs_Command_def setCommand_def)

interpretation pattern_field: prio_field obs_Pattern setPattern "\<lambda>v. v"
  by unfold_locales (simp add: obs_Pattern_def setPattern_def)

interpretation parent_run_field: prio_field obs_ParentRunID setParentRunID "\<lambda>v. v"
  by unfold_locales (simp add: obs_ParentRunID_def setParentRunID_def)

interpretation run_field: prio_field obs_RunID setRunID "\<lambda>v. v"
  by unfold_locales (simp add: obs_RunID_def setRunID_def)

section \<open>What an event writes to a field\<close>

definition key_writes :: "(string \<rightharpoonup> string) \<Rightarrow> int \<Rightarrow> string list \<Rightarrow> (string \<times> int) list" where
  "key_writes env pr keys = [(map_get env k, pr). k \<leftarrow> keys, map_get env k \<noteq> []]"

definition meta_writes :: "(string \<times> string) list \<Rightarrow> string \<Rightarrow> (string \<times> int) list" where
  "meta_writes md key = key_writes (map_of md) buildMetadataPriority [key]"

definition item_writes :: "WorkspaceStatus_Item list \<Rightarrow> string list \<Rightarrow> (string \<times> int) list" where
  "item_writes items keys =
     [(ItemValue i, workspaceStatusPriority). i \<leftarrow> items, ItemKey i \<in> set keys \<and> ItemValue i \<noteq> []]"

definition env_writes :: "CommandLine \<Rightarrow> string list \<Rightarrow> (string \<times> int) list" where
  "env_writes cl keys =
     (if CommandLineLabel cl \<noteq> structuredCommandLineLabelCanonical then []
      else key_writes (parseCommandLine (Some cl)) envPriority keys)"

text \<open>
  The writes of one event to a field fed by environment variables \<open>ek\<close>, status items \<open>sk\<close> and
  the metadata entry \<open>mk\<close>, and the fields made so.  The branch has one more source, the
  reference \<open>GITHUB_REF\<close> of a branch head.
\<close>

definition event_writes ::
  "string list \<Rightarrow> string list \<Rightarrow> string \<Rightarrow> BuildEvent \<Rightarrow> (string \<times> int) list" where
  "event_writes ek sk mk e =
     (case Payload e of
        BuildEvent_StructuredCommandLine cl \<Rightarrow> env_writes cl ek
      | BuildEvent_WorkspaceStatus items \<Rightarrow> item_writes items sk
      | BuildEvent_BuildMetadata md \<Rightarrow> meta_writes md mk
      | _ \<Rightarrow> [])"

definition user_writes :: "BuildEvent \<Rightarrow> (string \<times> int) list" where
  "user_writes = event_writes user_keys [''BUILD_USER'', ''USER''] ''USER''"

definition repo_writes :: "BuildEvent \<Rightarrow> (string \<times> int) list" where
  "repo_writes = event_writes repo_keys [''REPO_URL''] ''REPO_URL''"

definition commit_writes :: "BuildEvent \<Rightarrow> (string \<times> int) list" where
  "commit_writes = event_writes commit_keys [''COMMIT_SHA''] ''COMMIT_SHA''"

definition ref_writes :: "CommandLine \<Rightarrow> (string \<times> int) list" where
  "ref_writes cl =
     (let v = map_get (parseCommandLine (Some cl)) ''GITHUB_REF''
      in if CommandLineLabel cl = structuredCommandLineLabelCanonical \<and> HasPrefix v ''refs/heads/''
         then [(TrimPrefix v ''refs/heads/'', envPriority)] else [])"

definition branch_writes :: "BuildEvent \<Rightarrow> (string \<times> int) list" where
  "branch_writes e =
     (case Payload e of
        BuildEvent_StructuredCommandLine cl \<Rightarrow> env_writes cl branch_keys @ ref_writes cl
      | BuildEvent_WorkspaceStatus items \<Rightarrow> item_writes items [''GIT_BRANCH'']
      | BuildEvent_BuildMetadata md \<Rightarrow> meta_writes md ''BRANCH_NAME''
      | _ \<Rightarrow> [])"

text \<open>A setter leaves the other fields alone.\<close>

lemma obs_User_frame [frame]:
  "obs_User (setHost v pr p) = obs_User p" "obs_User (setRole v pr p) = obs_User p"
  "obs_User (setRepoURL lib v pr p) = obs_User p" "obs_User (setBranchName v pr p) = obs_User p"
  "obs_User (setCommitSHA v pr p) = obs_User p" "obs_User (setCommand v pr p) = obs_User p"
  "obs_User (setPattern vs pr p) = obs_User p" "obs_User (setTags v pr p) = obs_User p"
  "obs_User (setParentRunID v pr p) = obs_User p" "obs_User (setRunID v pr p) = obs_User p"
  by (simp_all add: obs_User_def setter_defs Let_def)

lemma obs_RepoURL_frame [frame]:
  "obs_RepoURL (setHost v pr p) = obs_RepoURL p" "obs_RepoURL (setRole v pr p) = obs_RepoURL p"
  "obs_RepoURL (setUser v pr p) = obs_RepoURL p"
  "obs_RepoURL (setBranchName v pr p) = obs_RepoURL p"
  "obs_RepoURL (setCommitSHA v pr p) = obs_RepoURL p"
  "obs_RepoURL (setCommand v pr p) = obs_RepoURL p"
  "obs_RepoURL (setPattern vs pr p) = obs_RepoURL p" "obs_RepoURL (setTags v pr p) = obs_RepoURL p"
  "obs_RepoURL (setParentRunID v pr p) = obs_RepoURL p"
  "obs_RepoURL (setRunID v pr p) = obs_RepoURL p"
  by (simp_all add: obs_RepoURL_def setter_defs Let_def)

lemma obs_BranchName_frame [frame]:
  "obs_BranchName (setHost v pr p) = obs_BranchName p"
  "obs_BranchName (setRole v pr p) = obs_BranchName p"
  "obs_BranchName (setUser v pr p) = obs_BranchName p"
  "obs_BranchName (setRepoURL lib v pr p) = obs_BranchName p"
  "obs_BranchName (setCommitSHA v pr p) = obs_BranchName p"
  "obs_BranchName (setCommand v pr p) = obs_BranchName p"
  "obs_BranchName (setPattern vs pr p) = obs_BranchName p"
  "obs_BranchName (setTags v pr p) = obs_BranchName p"
  "obs_BranchName (setParentRunID v pr p) = obs_BranchName p"
  "obs_BranchName (setRunID v pr p) = obs_BranchName p"
  by (simp_all add: obs_BranchName_def setter_defs Let_def)

lemma obs_CommitSHA_frame [frame]:
  "obs_CommitSHA (setHost v pr p) = obs_CommitSHA p"
  "obs_CommitSHA (setRole v pr p) = obs_CommitSHA p"
  "obs_CommitSHA (setUser v pr p) = obs_CommitSHA p"
  "obs_CommitSHA (setRepoURL lib v pr p) = obs_CommitSHA p"
  "obs_CommitSHA (setBranchName v pr p) = obs_CommitSHA p"
  "obs_CommitSHA (setCommand v pr p) = obs_CommitSHA p"
  "obs_CommitSHA (setPattern vs pr p) = obs_CommitSHA p"
  "obs_CommitSHA (setTags v pr p) = obs_CommitSHA p"
  "obs_CommitSHA (setParentRunID v pr p) = obs_CommitSHA p"
  "obs_CommitSHA (setRunID v pr p) = obs_CommitSHA p"
  by (simp_all add: obs_CommitSHA_def setter_defs Let_def)

text \<open>How a field reacts to the parser's loops, given how it reacts to one setter.\<close>

lemma keys_own:
  assumes "\<And>v p. obs (setter v pr p) = cell_write (val v, pr) (obs p)"
  shows "obs (set_from_keys env setter pr keys p) =
    fold cell_write (map (map_prod val id) (key_writes env pr keys)) (obs p)"
  unfolding set_from_keys_def key_writes_def
  by (induction keys arbitrary: p) (auto simp: assms)

lemma keys_other:
  assumes "\<And>v p. obs (setter v pr p) = obs p"
  shows "obs (set_from_keys env setter pr keys p) = obs p"
  unfolding set_from_keys_def by (induction keys arbitrary: p) (auto simp: assms)

lemma meta_is_keys:
  "set_from_meta m key setter p = set_from_keys m setter buildMetadataPriority [key] p"
  by (simp add: set_from_meta_def set_from_keys_def)

lemma map_prod_id [simp]: "map (map_prod (\<lambda>v. v) id) ws = ws"
  by (induction ws) auto

lemma child_pattern_frame [frame]:
  "obs_User (child_pattern c p) = obs_User p" "obs_RepoURL (child_pattern c p) = obs_RepoURL p"
  "obs_BranchName (child_pattern c p) = obs_BranchName p"
  "obs_CommitSHA (child_pattern c p) = obs_CommitSHA p"
  by (simp_all add: child_pattern_def frame split: BuildEventId.splits)

lemma fold_frame:
  "(\<And>x p. obs (f x p) = obs p) \<Longrightarrow> obs (fold f xs p) = obs p"
  by (induction xs arbitrary: p) auto

lemma startTime_frame [frame]:
  "obs_User (p\<lparr>startTime := t\<rparr>) = obs_User p" "obs_RepoURL (p\<lparr>startTime := t\<rparr>) = obs_RepoURL p"
  "obs_BranchName (p\<lparr>startTime := t\<rparr>) = obs_BranchName p"
  "obs_CommitSHA (p\<lparr>startTime := t\<rparr>) = obs_CommitSHA p"
  by (simp_all add: obs_defs)

lemma finished_frame [frame]:
  "obs_User (parse_finished lib f p) = obs_User p"
  "obs_RepoURL (parse_finished lib f p) = obs_RepoURL p"
  "obs_BranchName (parse_finished lib f p) = obs_BranchName p"
  "obs_CommitSHA (parse_finished lib f p) = obs_CommitSHA p"
  by (simp_all add: parse_finished_def obs_defs Let_def split: option.splits)

lemma metrics_frame [frame]:
  "obs_User (p\<lparr>parser_record := (parser_record p)\<lparr>ActionCount := n\<rparr>\<rparr>) = obs_User p"
  "obs_RepoURL (p\<lparr>parser_record := (parser_record p)\<lparr>ActionCount := n\<rparr>\<rparr>) = obs_RepoURL p"
  "obs_BranchName (p\<lparr>parser_record := (parser_record p)\<lparr>ActionCount := n\<rparr>\<rparr>) = obs_BranchName p"
  "obs_CommitSHA (p\<lparr>parser_record := (parser_record p)\<lparr>ActionCount := n\<rparr>\<rparr>) = obs_CommitSHA p"
  by (simp_all add: obs_defs)

lemma started_frame [frame]:
  "obs_User (parse_started lib e st p) = obs_User p"
  "obs_RepoURL (parse_started lib e st p) = obs_RepoURL p"
  "obs_BranchName (parse_started lib e st p) = obs_BranchName p"
  "obs_CommitSHA (parse_started lib e st p) = obs_CommitSHA p"
  by (simp_all add: parse_started_def Let_def frame fold_frame [of obs_User] fold_frame [of obs_RepoURL]
      fold_frame [of obs_BranchName] fold_frame [of obs_CommitSHA])

lemmas fill_defs =
  fillFromStructuredCommandLine_def fillFromBuildMetadata_def set_ci_roles_def set_github_ref_def
  Let_def meta_is_keys

lemma item_writes_fold:
  assumes "\<And>i p. obs (status_item lib workspaceStatusPriority i p) =
    fold cell_write (map (map_prod val id) (item_writes [i] keys)) (obs p)"
  shows "obs (fillFromWorkspaceStatus lib items p) =
    fold cell_write (map (map_prod val id) (item_writes items keys)) (obs p)"
proof -
  have "map (map_prod val id) (item_writes items keys) =
      concat (map (\<lambda>i. map (map_prod val id) (item_writes [i] keys)) items)"
    by (induction items) (auto simp: item_writes_def)
  then show ?thesis
    unfolding fillFromWorkspaceStatus_def
    using fold_cell_writes [where obs = obs and f = "status_item lib workspaceStatusPriority" and
        ws = "\<lambda>i. map (map_prod val id) (item_writes [i] keys)"] assms
    by simp
qed

lemma user_ParseEvent:
  "obs_User (ParseEvent lib e p) = fold cell_write (user_writes e) (obs_User p)"
proof -
  have own: "obs_User (setUser v pr p) = cell_write (v, pr) (obs_User p)" for v pr p
    by (rule user_field.put_obs)
  have "obs_User (status_item lib workspaceStatusPriority i p) =
      fold cell_write (map (map_prod (\<lambda>v. v) id) (item_writes [i] [''BUILD_USER'', ''USER''])) (obs_User p)" for i p
    by (simp add: status_item_def item_writes_def Let_def own frame)
  note items = item_writes_fold [where obs = obs_User and val = "\<lambda>v. v", OF this]
  show ?thesis
    unfolding ParseEvent_def user_writes_def event_writes_def
    by (simp add: fill_defs env_writes_def meta_writes_def items own frame
        keys_own [of obs_User, OF own] keys_other [of obs_User] split: Payload.splits)
qed

lemma repo_ParseEvent:
  "obs_RepoURL (ParseEvent lib e p) = fold cell_write (map (map_prod (repo_value lib) id) (repo_writes e)) (obs_RepoURL p)"
proof -
  have own: "obs_RepoURL (setRepoURL lib v pr p) = cell_write (repo_value lib v, pr) (obs_RepoURL p)" for v pr p
    by (rule repo_field.put_obs)
  have "obs_RepoURL (status_item lib workspaceStatusPriority i p) =
      fold cell_write (map (map_prod (repo_value lib) id) (item_writes [i] [''REPO_URL''])) (obs_RepoURL p)" for i p
    by (simp add: status_item_def item_writes_def Let_def own frame)
  note items = item_writes_fold [where obs = obs_RepoURL and val = "repo_value lib", OF this]
  show ?thesis
    unfolding ParseEvent_def repo_writes_def event_writes_def
    by (simp add: fill_defs env_writes_def meta_writes_def items own frame
        keys_own [of obs_RepoURL, OF own] keys_other [of obs_RepoURL] split: Payload.splits)
qed

lemma commit_ParseEvent:
  "obs_CommitSHA (ParseEvent lib e p) = fold cell_write (commit_writes e) (obs_CommitSHA p)"
proof -
  have own: "obs_CommitSHA (setCommitSHA v pr p) = cell_write (v, pr) (obs_CommitSHA p)" for v pr p
    by (rule commit_field.put_obs)
  have "obs_CommitSHA (status_item lib workspaceStatusPriority i p) =
      fold cell_write (map (map_prod (\<lambda>v. v) id) (item_writes [i] [''COMMIT_SHA''])) (obs_CommitSHA p)" for i p
    by (simp add: status_item_def item_writes_def Let_def own frame)
  note items = item_writes_fold [where obs = obs_CommitSHA and val = "\<lambda>v. v", OF this]
  show ?thesis
    unfolding ParseEvent_def commit_writes_def event_writes_def
    by (simp add: fill_defs env_writes_def meta_writes_def items own frame
        keys_own [of obs_CommitSHA, OF own] keys_other [of obs_CommitSHA] split: Payload.splits)
qed

lemma branch_ParseEvent:
  "obs_BranchName (ParseEvent lib e p) = fold cell_write (branch_writes e) (obs_BranchName p)"
proof -
  have own: "obs_BranchName (setBranchName v pr p) = cell_write (v, pr) (obs_BranchName p)" for v pr p
    by (rule branch_field.put_obs)
  have "obs_BranchName (status_item lib workspaceStatusPriority i p) =
      fold cell_write (map (map_prod (\<lambda>v. v) id) (item_writes [i] [''GIT_BRANCH''])) (obs_BranchName p)" for i p
    by (simp add: status_item_def item_writes_def Let_def own frame)
  note items = item_writes_fold [where obs = obs_BranchName and val = "\<lambda>v. v", OF this]
  show ?thesis
    unfolding ParseEvent_def branch_writes_def ref_writes_def
    by (simp add: fill_defs env_writes_def meta_writes_def items own frame
        keys_own [of obs_BranchName, OF own] keys_other [of obs_BranchName] split: Payload.splits)
qed

lemma obs_ParseEvents:
  "obs_User (ParseEvents lib es p) = fold cell_write (concat (map user_writes es)) (obs_User p)"
  "obs_RepoURL (ParseEvents lib es p) =
     fold cell_write (concat (map (\<lambda>e. map (map_prod (repo_value lib) id) (repo_writes e)) es))
       (obs_RepoURL p)"
  "obs_CommitSHA (ParseEvents lib es p) =
     fold cell_write (concat (map commit_writes es)) (obs_CommitSHA p)"
  "obs_BranchName (ParseEvents lib es p) =
     fold cell_write (concat (map branch_writes es)) (obs_BranchName p)"
  unfolding ParseEvents_def
  by (intro fold_cell_writes user_ParseEvent repo_ParseEvent commit_ParseEvent branch_ParseEvent)+

section \<open>Frames of the other fields\<close>

text \<open>
  The part of a parser that only \<open>Started\<close>, \<open>Finished\<close> and \<open>BuildMetrics\<close> events write, and
  the part that nothing writes.
\<close>

definition outcome :: "EventParser \<Rightarrow> gotime option \<times> bool \<times> string \<times> int" where
  "outcome p = (startTime p, Success (parser_record p), BazelExitCode (parser_record p),
     DurationUsec (parser_record p))"

definition identity :: "EventParser \<Rightarrow> string \<times> gotime \<times> gotime" where
  "identity p = (InvocationID (parser_record p), CreatedAt (parser_record p),
     UpdatedAt (parser_record p))"

definition tags_of :: "EventParser \<Rightarrow> string list" where
  "tags_of p = Tags (parser_record p)"

lemma outcome_setters [frame]:
  "outcome (setHost v pr p) = outcome p" "outcome (setUser v pr p) = outcome p"
  "outcome (setRole v pr p) = outcome p" "outcome (setRepoURL lib v pr p) = outcome p"
  "outcome (setBranchName v pr p) = outcome p" "outcome (setCommitSHA v pr p) = outcome p"
  "outcome (setCommand v pr p) = outcome p" "outcome (setPattern vs pr p) = outcome p"
  "outcome (setTags v pr p) = outcome p" "outcome (setParentRunID v pr p) = outcome p"
  "outcome (setRunID v pr p) = outcome p"
  by (simp_all add: outcome_def setter_defs Let_def)

lemma identity_setters [frame]:
  "identity (setHost v pr p) = identity p" "identity (setUser v pr p) = identity p"
  "identity (setRole v pr p) = identity p" "identity (setRepoURL lib v pr p) = identity p"
  "identity (setBranchName v pr p) = identity p" "identity (setCommitSHA v pr p) = identity p"
  "identity (setCommand v pr p) = identity p" "identity (setPattern vs pr p) = identity p"
  "identity (setTags v pr p) = identity p" "identity (setParentRunID v pr p) = identity p"
  "identity (setRunID v pr p) = identity p"
  by (simp_all add: identity_def setter_defs Let_def)

lemma tags_setters [frame]:
  "tags_of (setHost v pr p) = tags_of p" "tags_of (setUser v pr p) = tags_of p"
  "tags_of (setRole v pr p) = tags_of p" "tags_of (setRepoURL lib v pr p) = tags_of p"
  "tags_of (setBranchName v pr p) = tags_of p" "tags_of (setCommitSHA v pr p) = tags_of p"
  "tags_of (setCommand v pr p) = tags_of p" "tags_of (setPattern vs pr p) = tags_of p"
  "tags_of (setParentRunID v pr p) = tags_of p" "tags_of (setRunID v pr p) = tags_of p"
  by (simp_all add: tags_of_def setter_defs Let_def)

text \<open>An observation that every setter leaves alone is left alone by the loops over them.\<close>

lemma fill_frame:
  assumes "\<And>v pr p. obs (setHost v pr p) = obs p" "\<And>v pr p. obs (setUser v pr p) = obs p"
    "\<And>v pr p. obs (setRole v pr p) = obs p" "\<And>v pr p. obs (setRepoURL lib v pr p) = obs p"
    "\<And>v pr p. obs (setBranchName v pr p) = obs p" "\<And>v pr p. obs (setCommitSHA v pr p) = obs p"
    "\<And>vs pr p. obs (setPattern vs pr p) = obs p" "\<And>v pr p. obs (setTags v pr p) = obs p"
    "\<And>v pr p. obs (setParentRunID v pr p) = obs p" "\<And>v pr p. obs (setRunID v pr p) = obs p"
  shows "obs (fillFromStructuredCommandLine lib cl p) = obs p"
    and "obs (fillFromWorkspaceStatus lib items p) = obs p"
    and "obs (fillFromBuildMetadata lib md p) = obs p"
    and "obs (fold child_pattern cs p) = obs p"
proof -
  show "obs (fillFromStructuredCommandLine lib cl p) = obs p"
    by (simp add: fill_defs assms keys_other [of obs])
  show "obs (fillFromBuildMetadata lib md p) = obs p"
    by (simp add: fill_defs assms keys_other [of obs])
  have "obs (status_item lib pr i p) = obs p" for pr i p
    by (simp add: status_item_def Let_def assms)
  then show "obs (fillFromWorkspaceStatus lib items p) = obs p"
    unfolding fillFromWorkspaceStatus_def by (rule fold_frame)
  have "obs (child_pattern c p) = obs p" for c p
    by (simp add: child_pattern_def assms split: BuildEventId.splits)
  then show "obs (fold child_pattern cs p) = obs p" by (rule fold_frame)
qed

lemmas outcome_fill = fill_frame [of outcome, OF outcome_setters(1-6,8-11)]
lemmas identity_fill = fill_frame [of identity, OF identity_setters(1-6,8-11)]

lemma identity_ParseEvent [frame]: "identity (ParseEvent lib e p) = identity p"
proof -
  have "identity (p\<lparr>startTime := t\<rparr>) = identity p" for p t by (simp add: identity_def)
  moreover have "identity (parse_finished lib f p) = identity p" for f
    by (simp add: identity_def parse_finished_def Let_def split: option.splits)
  moreover have "identity (p\<lparr>parser_record := (parser_record p)\<lparr>ActionCount := n\<rparr>\<rparr>) = identity p" for n
    by (simp add: identity_def)
  ultimately show ?thesis
    by (simp add: ParseEvent_def parse_started_def Let_def identity_fill identity_setters
        split: Payload.splits)
qed

lemma identity_ParseEvents [frame]: "identity (ParseEvents lib es p) = identity p"
  unfolding ParseEvents_def by (rule fold_frame) (rule identity_ParseEvent)

definition is_started :: "BuildEvent \<Rightarrow> bool" where
  "is_started e = (case Payload e of BuildEvent_Started _ \<Rightarrow> True | _ \<Rightarrow> False)"

definition is_finished :: "BuildEvent \<Rightarrow> bool" where
  "is_finished e = (case Payload e of BuildEvent_Finished _ \<Rightarrow> True | _ \<Rightarrow> False)"

text \<open>Non-empty metadata entry of an event, if it has one.\<close>

definition metadata_entry :: "string \<Rightarrow> BuildEvent \<Rightarrow> string" where
  "metadata_entry key e =
     (case Payload e of BuildEvent_BuildMetadata md \<Rightarrow> map_get (map_of md) key | _ \<Rightarrow> [])"

text \<open>The tags that one event reports.\<close>

definition event_tags :: "BuildEvent \<Rightarrow> string list" where
  "event_tags e =
     (case Payload e of
        BuildEvent_WorkspaceStatus items \<Rightarrow>
          concat [splitAndTrimAndDedupeTags (ItemValue i). i \<leftarrow> items,
                    ItemKey i = ''TAGS'' \<and> ItemValue i \<noteq> []]
      | BuildEvent_BuildMetadata md \<Rightarrow>
          (if meta_tag_values md \<noteq> [] then splitAndTrimAndDedupeTags (Join (meta_tag_values md) '','')
           else [])
      | _ \<Rightarrow> [])"

lemma outcome_ParseEvent_other:
  "\<not> is_started e \<Longrightarrow> \<not> is_finished e \<Longrightarrow> outcome (ParseEvent lib e p) = outcome p"
proof -
  have "outcome (p\<lparr>parser_record := (parser_record p)\<lparr>ActionCount := n\<rparr>\<rparr>) = outcome p" for n
    by (simp add: outcome_def)
  then show "\<not> is_started e \<Longrightarrow> \<not> is_finished e \<Longrightarrow> ?thesis"
    by (simp add: is_started_def is_finished_def ParseEvent_def outcome_fill split: Payload.splits)
qed

lemma outcome_started:
  "Payload e = BuildEvent_Started st \<Longrightarrow>
   outcome (ParseEvent lib e p) =
     (Some (timeWithFallback lib (StartTime st) (StartTimeMillis st)), snd (outcome p))"
proof -
  have "outcome (p\<lparr>startTime := t\<rparr>) = (t, snd (outcome p))" for t by (simp add: outcome_def)
  then show "Payload e = BuildEvent_Started st \<Longrightarrow> ?thesis"
    by (simp add: ParseEvent_def parse_started_def Let_def outcome_fill outcome_setters)
qed

lemma outcome_finished:
  assumes "Payload e = BuildEvent_Finished f"
  shows "fst (outcome (ParseEvent lib e p)) = fst (outcome p)"
    and "fst (outcome p) = Some t \<Longrightarrow> snd (outcome (ParseEvent lib e p)) =
      (GetCode (FinishedExitCode f) = 0, GetName (FinishedExitCode f),
       Microseconds (time_Sub (timeWithFallback lib (FinishTime f) (FinishTimeMillis f)) t))"
  using assms by (auto simp: ParseEvent_def parse_finished_def outcome_def Let_def split: option.splits)

lemma startTime_kept:
  "(\<And>e. e \<in> set es \<Longrightarrow> \<not> is_started e) \<Longrightarrow>
   fst (outcome (fold (ParseEvent lib) es p)) = fst (outcome p)"
proof (induction es arbitrary: p)
  case (Cons e es)
  have "fst (outcome (ParseEvent lib e p)) = fst (outcome p)"
  proof (cases "is_finished e")
    case True
    then obtain f where "Payload e = BuildEvent_Finished f"
      by (auto simp: is_finished_def split: Payload.splits)
    then show ?thesis by (rule outcome_finished(1))
  next
    case False
    with Cons.prems show ?thesis by (simp add: outcome_ParseEvent_other)
  qed
  with Cons.IH [of "ParseEvent lib e p"] Cons.prems show ?case by simp
qed simp

lemma result_kept:
  "(\<And>e. e \<in> set es \<Longrightarrow> \<not> is_finished e) \<Longrightarrow>
   snd (outcome (fold (ParseEvent lib) es p)) = snd (outcome p)"
proof (induction es arbitrary: p)
  case (Cons e es)
  have "snd (outcome (ParseEvent lib e p)) = snd (outcome p)"
  proof (cases "is_started e")
    case True
    then obtain st where "Payload e = BuildEvent_Started st"
      by (auto simp: is_started_def split: Payload.splits)
    then show ?thesis by (simp add: outcome_started)
  next
    case False
    with Cons.prems show ?thesis by (simp add: outcome_ParseEvent_other)
  qed
  with Cons.IH [of "ParseEvent lib e p"] Cons.prems show ?case by simp
qed simp

lemma set_tags_setTags:
  "set (tags_of (setTags v pr p)) = set (tags_of p) \<union> set (splitAndTrimAndDedupeTags v)"
  by (auto simp: tags_of_def setTags_def Let_def)

lemma set_tags_status:
  "set (tags_of (fillFromWorkspaceStatus lib items p)) = set (tags_of p) \<union>
     set (concat [splitAndTrimAndDedupeTags (ItemValue i). i \<leftarrow> items,
       ItemKey i = ''TAGS'' \<and> ItemValue i \<noteq> []])"
proof (induction items arbitrary: p)
  case (Cons i items)
  have "set (tags_of (status_item lib workspaceStatusPriority i p)) = set (tags_of p) \<union>
      (if ItemKey i = ''TAGS'' \<and> ItemValue i \<noteq> []
       then set (splitAndTrimAndDedupeTags (ItemValue i)) else {})"
    by (simp add: status_item_def Let_def frame set_tags_setTags)
  with Cons.IH show ?case by (auto simp: fillFromWorkspaceStatus_def)
qed (simp add: fillFromWorkspaceStatus_def)

lemma set_tags_ParseEvent:
  "set (tags_of (ParseEvent lib e p)) = set (tags_of p) \<union> set (event_tags e)"
proof -
  have "tags_of (parse_finished lib f p) = tags_of p" for f
    by (simp add: tags_of_def parse_finished_def Let_def split: option.splits)
  moreover have "tags_of (child_pattern c p) = tags_of p" for c p
    by (simp add: child_pattern_def frame split: BuildEventId.splits)
  then have "tags_of (fold child_pattern cs p) = tags_of p" for cs p by (rule fold_frame)
  moreover have "tags_of (p\<lparr>startTime := t\<rparr>) = tags_of p" for p t by (simp add: tags_of_def)
  moreover have "tags_of (p\<lparr>parser_record := (parser_record p)\<lparr>ActionCount := n\<rparr>\<rparr>) = tags_of p" for n
    by (simp add: tags_of_def)
  ultimately show ?thesis
    by (simp add: ParseEvent_def event_tags_def parse_started_def fill_defs frame set_tags_setTags
        set_tags_status keys_other [of tags_of] split: Payload.splits)
qed

lemmas prio_defs = envPriority_def workspaceStatusPriority_def buildMetadataPriority_def

lemma repo_writes_prio: "w \<in> set (repo_writes e) \<Longrightarrow> snd w \<le> 4"
  by (auto simp: repo_writes_def event_writes_def env_writes_def item_writes_def meta_writes_def
      key_writes_def prio_defs split: Payload.splits if_splits)

lemma repo_writes_low:
  "metadata_entry ''REPO_URL'' e = [] \<Longrightarrow> w \<in> set (repo_writes e) \<Longrightarrow> snd w < 4"
  by (auto simp: repo_writes_def event_writes_def env_writes_def item_writes_def meta_writes_def
      key_writes_def metadata_entry_def prio_defs split: Payload.splits if_splits)

lemma repo_writes_meta:
  "metadata_entry ''REPO_URL'' e = v \<Longrightarrow> v \<noteq> [] \<Longrightarrow> repo_writes e = [(v, 4)]"
  by (auto simp: repo_writes_def event_writes_def meta_writes_def key_writes_def metadata_entry_def
      prio_defs split: Payload.splits)

section \<open>Sample inputs\<close>

definition sample_lib :: golib where
  "sample_lib =
     \<lparr>AsTime = (\<lambda>t. case t of None \<Rightarrow> 0 | Some t \<Rightarrow> ts_Seconds t * 1000000000 + ts_Nanos t),
      AsDuration = (\<lambda>d. case d of None \<Rightarrow> 0 | Some d \<Rightarrow> du_Seconds d * 1000000000 + du_Nanos d),
      ParseAddr6 = (\<lambda>s. s = ''::1'')\<rparr>"

definition sample_event :: "Payload \<Rightarrow> BuildEvent" where
  "sample_event pl = \<lparr>EventId = None, Children = [], Payload = pl\<rparr>"

definition sample_started :: BuildStarted where
  "sample_started = \<lparr>StartTime = None, StartTimeMillis = 5, StartedCommand = ''test''\<rparr>"

definition sample_finished :: BuildFinished where
  "sample_finished =
     \<lparr>FinishedExitCode = Some \<lparr>ExitCode_Name = ''TESTS_FAILED'', ExitCode_Code = 3\<rparr>,
      FinishTime = None, FinishTimeMillis = 12, FinishedFailureDetail = None\<rparr>"

section \<open>Properties of the parser\<close>

text \<open>
  C15: which event decides a summary field.  Over a whole stream, the user, repository, commit and
  branch of the record are the outcome of all writes that the events make, where a write replaces
  the value unless a higher priority set it; environment variables write with priority 2, the
  workspace status with 3, the build metadata with 4.
\<close>

theorem parser_field_precedence:
  "obs_User (ParseEvents lib es (NewEventParser r)) =
     fold cell_write (concat (map user_writes es)) (User r, 0) \<and>
   obs_RepoURL (ParseEvents lib es (NewEventParser r)) =
     fold cell_write (concat (map (\<lambda>e. map (map_prod (repo_value lib) id) (repo_writes e)) es))
       (RepoURL r, 0) \<and>
   obs_CommitSHA (ParseEvents lib es (NewEventParser r)) =
     fold cell_write (concat (map commit_writes es)) (CommitSHA r, 0) \<and>
   obs_BranchName (ParseEvents lib es (NewEventParser r)) =
     fold cell_write (concat (map branch_writes es)) (BranchName r, 0)"
proof -
  have "obs_User (NewEventParser r) = (User r, 0)" "obs_RepoURL (NewEventParser r) = (RepoURL r, 0)"
    "obs_CommitSHA (NewEventParser r) = (CommitSHA r, 0)"
    "obs_BranchName (NewEventParser r) = (BranchName r, 0)"
    by (simp_all add: obs_defs NewEventParser_def)
  then show ?thesis by (simp only: obs_ParseEvents simp_thms)
qed

text \<open>
  A repository URL in the build metadata takes priority over the workspace status and the
  environment, even over those that come later in the stream: the last metadata event with a
  non-empty \<open>REPO_URL\<close> decides the record's repository.
\<close>

theorem metadata_repo_wins:
  assumes "metadata_entry ''REPO_URL'' e = v" and "v \<noteq> []"
    and "list_all (\<lambda>e. metadata_entry ''REPO_URL'' e = []) post"
  shows "RepoURL (parser_record (ParseEvents lib (pre @ e # post) (NewEventParser r))) =
    repo_value lib v"
proof -
  let ?w = "\<lambda>e. map (map_prod (repo_value lib) id) (repo_writes e)"
  have "obs_RepoURL (ParseEvents lib (pre @ e # post) (NewEventParser r)) =
      fold cell_write (concat (map ?w pre) @ (repo_value lib v, 4) # concat (map ?w post))
        (obs_RepoURL (NewEventParser r))"
    using assms(1,2) by (simp add: obs_ParseEvents repo_writes_meta)
  also have "\<dots> = (repo_value lib v, 4)"
  proof (rule cell_writes_last_max)
    show "w \<in> set (concat (map ?w pre)) \<Longrightarrow> snd w \<le> 4" for w
      by (auto dest: repo_writes_prio)
    show "w \<in> set (concat (map ?w post)) \<Longrightarrow> snd w < 4" for w
      using assms(3) by (fastforce simp: list_all_iff dest: repo_writes_low)
    show "snd (obs_RepoURL (NewEventParser r)) \<le> 4"
      by (simp add: obs_RepoURL_def NewEventParser_def)
  qed
  finally show ?thesis by (simp add: obs_RepoURL_def)
qed

theorem metadata_repo_wins_witness:
  "RepoURL (parser_record (ParseEvents sample_lib
     ([sample_event (BuildEvent_WorkspaceStatus [\<lparr>ItemKey = ''REPO_URL'', ItemValue = ''a/b''\<rparr>])] @
      sample_event (BuildEvent_BuildMetadata [(''REPO_URL'', ''git@github.com:foo/bar.git'')]) #
      [sample_event (BuildEvent_WorkspaceStatus [\<lparr>ItemKey = ''REPO_URL'', ItemValue = ''c/d''\<rparr>])])
     (NewEventParser (new_Record ''i1'' 0)))) = ''https://github.com/foo/bar''"
proof -
  have "repo_value sample_lib ''git@github.com:foo/bar.git'' = ''https://github.com/foo/bar''"
    by code_simp
  then show ?thesis
    by (subst metadata_repo_wins [of _ "''git@github.com:foo/bar.git''"])
      (simp_all add: metadata_entry_def sample_event_def map_get_def)
qed

text \<open>
  C16: the outcome of the build.  When a \<open>Started\<close> event is followed by a \<open>Finished\<close> event, with
  no other \<open>Started\<close> in between and no \<open>Finished\<close> after, the record says that the build succeeded
  exactly if the exit code is 0, names the exit code, and its duration is the time between the two
  events in whole microseconds, whatever other events the stream holds.
\<close>

theorem build_outcome:
  assumes "Payload s = BuildEvent_Started st" and "Payload f = BuildEvent_Finished fin"
    and "list_all (\<lambda>e. \<not> is_started e) mid" and "list_all (\<lambda>e. \<not> is_finished e) post"
  shows "let r = parser_record (ParseEvents lib (pre @ s # mid @ f # post) p)
    in Success r = (GetCode (FinishedExitCode fin) = 0) \<and>
       BazelExitCode r = GetName (FinishedExitCode fin) \<and>
       DurationUsec r = Microseconds (time_Sub
         (timeWithFallback lib (FinishTime fin) (FinishTimeMillis fin))
         (timeWithFallback lib (StartTime st) (StartTimeMillis st)))"
proof -
  define q where "q = fold (ParseEvent lib) mid (ParseEvent lib s (fold (ParseEvent lib) pre p))"
  have "fst (outcome q) = Some (timeWithFallback lib (StartTime st) (StartTimeMillis st))"
    using assms(1,3) by (simp add: q_def startTime_kept outcome_started list_all_iff)
  from outcome_finished(2) [OF assms(2) this]
  have "snd (outcome (fold (ParseEvent lib) post (ParseEvent lib f q))) =
      (GetCode (FinishedExitCode fin) = 0, GetName (FinishedExitCode fin), Microseconds (time_Sub
      (timeWithFallback lib (FinishTime fin) (FinishTimeMillis fin))
      (timeWithFallback lib (StartTime st) (StartTimeMillis st))))"
    using assms(4) by (simp add: result_kept list_all_iff)
  then show ?thesis by (simp add: ParseEvents_def q_def outcome_def Let_def)
qed

theorem build_outcome_witness:
  "let r = parser_record (ParseEvents sample_lib ([] @ sample_event (BuildEvent_Started sample_started) #
       [sample_event BuildEvent_Fetch] @ sample_event (BuildEvent_Finished sample_finished) # [])
       (NewEventParser (new_Record ''i1'' 0)))
   in Success r = False \<and> BazelExitCode r = ''TESTS_FAILED'' \<and> DurationUsec r = 7000"
proof -
  have pl: "Payload (sample_event x) = x" for x by (simp add: sample_event_def)
  have mid: "list_all (\<lambda>e. \<not> is_started e) [sample_event BuildEvent_Fetch]"
    by (simp add: is_started_def pl)
  have post: "list_all (\<lambda>e. \<not> is_finished e) []" by simp
  have vals: "(GetCode (FinishedExitCode sample_finished) = 0) = False"
    "GetName (FinishedExitCode sample_finished) = ''TESTS_FAILED''"
    "Microseconds (time_Sub
       (timeWithFallback sample_lib (FinishTime sample_finished) (FinishTimeMillis sample_finished))
       (timeWithFallback sample_lib (StartTime sample_started) (StartTimeMillis sample_started))) = 7000"
    by code_simp+
  show ?thesis
    using build_outcome [OF pl [of "BuildEvent_Started sample_started"]
        pl [of "BuildEvent_Finished sample_finished"] mid post, of sample_lib "[]"
        "NewEventParser (new_Record ''i1'' 0)"]
    unfolding vals .
qed


text \<open>
  parsing never changes which invocation a record describes: its ID and its timestamps stay
  what the server put there.
\<close>

theorem parser_keeps_identity:
  "InvocationID (parser_record (ParseEvents lib es p)) = InvocationID (parser_record p) \<and>
   CreatedAt (parser_record (ParseEvents lib es p)) = CreatedAt (parser_record p) \<and>
   UpdatedAt (parser_record (ParseEvents lib es p)) = UpdatedAt (parser_record p)"
  using identity_ParseEvents [of lib es p] by (simp add: identity_def)

end
