(* ===== verification/Targets.thy ===== *)
theory Targets
  imports BuildEvents InvocationRecord
begin

text \<open>
  The per-target summary of an invocation, \<open>src/index/targets.go\<close>: the resolution of the graph of
  named file sets, and the pass over the events that accumulates one \<open>Target\<close> per label.  The
  lemmas relate the graph walk to reachability and the accumulation to one fold per label.
\<close>

section \<open>Data\<close>

record LogFile =
  lf_Name :: string
  lf_URI :: string

record TestAttempt =
  ta_Status :: string
  ta_StartTime :: gotime
  ta_DurationUsec :: int
  ta_CachedLocally :: bool

record Target =
  t_Label :: string
  t_Kind :: string
  t_IsTest :: bool
  t_Success :: bool
  t_TestStatus :: string
  t_DurationUsec :: int
  t_FailureMessage :: string
  t_LogFiles :: "LogFile list"
  t_Attempts :: "TestAttempt list"
  t_OutputFiles :: "LogFile list"

definition new_Target :: "string \<Rightarrow> Target" where
  "new_Target label =
     \<lparr>t_Label = label, t_Kind = [], t_IsTest = False, t_Success = False, t_TestStatus = [],
      t_DurationUsec = 0, t_FailureMessage = [], t_LogFiles = [], t_Attempts = [],
      t_OutputFiles = []\<rparr>"

section \<open>Named sets of files\<close>

text \<open>The map from set IDs to sets: the newest entry for a key comes first.\<close>

type_synonym named_sets = "(string \<times> NamedSetOfFiles) list"

definition add_named_set :: "BuildEvent \<Rightarrow> named_sets \<Rightarrow> named_sets" where
  "add_named_set event sets =
     (case Payload event of
        BuildEvent_NamedSetOfFiles nsf \<Rightarrow>
          (case GetNamedSet (EventId event) of Some i \<Rightarrow> (i, nsf) # sets | None \<Rightarrow> sets)
      | _ \<Rightarrow> sets)"

definition parseNamedSets :: "BuildEvent list \<Rightarrow> named_sets" where
  "parseNamedSets events = fold add_named_set events []"

text \<open>The files of one set or one test action that have a URI.\<close>

definition log_files :: "File list \<Rightarrow> LogFile list" where
  "log_files fs = [\<lparr>lf_Name = FileName f, lf_URI = GetUri f\<rparr>. f \<leftarrow> fs, GetUri f \<noteq> []]"

text \<open>
  \<open>resolveFileSets\<close>: the second component of the result is the map \<open>seen\<close>, which the source
  shares between the recursive calls and mutates.
\<close>

function resolveFileSets ::
  "named_sets \<Rightarrow> string list \<Rightarrow> string list \<Rightarrow> LogFile list \<times> string list" where
  "resolveFileSets sets [] seen = ([], seen)"
| "resolveFileSets sets (key # ids) seen =
     (if key \<in> set seen then resolveFileSets sets ids seen
      else case map_of sets key of
        None \<Rightarrow> resolveFileSets sets ids (key # seen)
      | Some s \<Rightarrow>
          (let (fs, seen1) = resolveFileSets sets (SetFileSets s) (key # seen);
               (gs, seen2) = resolveFileSets sets ids seen1
           in (log_files (SetFiles s) @ fs @ gs, seen2)))"
  by pat_completeness auto

text \<open>The walk only ever adds to \<open>seen\<close>; with that, what it has not seen shrinks.\<close>

lemma resolveFileSets_seen_dom:
  "resolveFileSets_dom (sets, ids, seen) \<Longrightarrow> set seen \<subseteq> set (snd (resolveFileSets sets ids seen))"
  by (induction sets ids seen rule: resolveFileSets.pinduct)
    (force simp: resolveFileSets.psimps split: option.splits prod.splits)+

termination resolveFileSets
proof (relation "measures [\<lambda>(sets, ids, seen). card (set (map fst sets) - set seen),
    \<lambda>(sets, ids, seen). length ids]", goal_cases)
  case (3 sets key ids seen)
  then have "set (map fst sets) - set (key # seen) = set (map fst sets) - set seen"
    by (auto simp: map_of_eq_None_iff)
  then show ?case by simp
next
  case (4 sets key ids seen s)
  then have "key \<in> set (map fst sets)" by (force dest: map_of_SomeD)
  with 4 have "card (set (map fst sets) - set (key # seen)) < card (set (map fst sets) - set seen)"
    by (intro psubset_card_mono) auto
  then show ?case by simp
next
  case (5 sets key ids seen s x fs seen1)
  then have "set (key # seen) \<subseteq> set seen1"
    using resolveFileSets_seen_dom [of sets "SetFileSets s" "key # seen"] by (metis snd_conv)
  moreover have "key \<in> set (map fst sets)" using 5 by (force dest: map_of_SomeD)
  ultimately have "card (set (map fst sets) - set seen1) < card (set (map fst sets) - set seen)"
    using 5(1) by (intro psubset_card_mono) auto
  then show ?case by simp
qed auto

section \<open>Accumulation per target\<close>

text \<open>The map \<open>byLabel\<close> and the list \<open>order\<close> of \<open>ParseTargets\<close>.\<close>

record target_acc =
  byLabel :: "string \<rightharpoonup> Target"
  order :: "string list"

text \<open>
  The closure \<open>get\<close> followed by the assignments through the pointer it returns: \<open>f\<close> is what
  the caller does to the target.
\<close>

definition get_update :: "string \<Rightarrow> (Target \<Rightarrow> Target) \<Rightarrow> target_acc \<Rightarrow> target_acc" where
  "get_update label f acc =
     (case byLabel acc label of
        Some t \<Rightarrow> acc\<lparr>byLabel := (byLabel acc)(label \<mapsto> f t)\<rparr>
      | None \<Rightarrow>
          acc\<lparr>byLabel := (byLabel acc)(label \<mapsto> f (new_Target label)), order := order acc @ [label]\<rparr>)"

definition target_configured :: "TargetConfigured \<Rightarrow> Target \<Rightarrow> Target" where
  "target_configured c t =
     t\<lparr>t_Kind := TargetKind c, t_IsTest := (TestSize c \<noteq> TestSize_UNKNOWN)\<rparr>"

definition target_completed :: "named_sets \<Rightarrow> TargetComplete \<Rightarrow> Target \<Rightarrow> Target" where
  "target_completed namedSets c t =
     (let t1 = t\<lparr>t_Success := CompleteSuccess c\<rparr>;
          t2 = (case CompleteFailureDetail c of
                  None \<Rightarrow> t1
                | Some fd \<Rightarrow> t1\<lparr>t_FailureMessage := GetMessage (Some fd)\<rparr>)
      in fold (\<lambda>og t. t\<lparr>t_OutputFiles := t_OutputFiles t @
                fst (resolveFileSets namedSets (GroupFileSets og) [])\<rparr>)
           (CompleteOutputGroup c) t2)"

definition target_summary :: "golib \<Rightarrow> TestSummary \<Rightarrow> Target \<Rightarrow> Target" where
  "target_summary lib ts t =
     t\<lparr>t_IsTest := True, t_TestStatus := TestStatus_String (OverallStatus ts),
       t_Success := (OverallStatus ts = TestStatus_PASSED),
       t_DurationUsec := Microseconds (AsDuration lib (TotalRunDuration ts))\<rparr>"

definition test_attempt :: "golib \<Rightarrow> TestResult \<Rightarrow> TestAttempt" where
  "test_attempt lib tr =
     \<lparr>ta_Status = TestStatus_String (ResultStatus tr),
      ta_StartTime = AsTime lib (TestAttemptStart tr),
      ta_DurationUsec = Microseconds (AsDuration lib (TestAttemptDuration tr)),
      ta_CachedLocally = ResultCachedLocally tr\<rparr>"

definition target_result :: "golib \<Rightarrow> TestResult \<Rightarrow> Target \<Rightarrow> Target" where
  "target_result lib tr t =
     t\<lparr>t_IsTest := True, t_LogFiles := t_LogFiles t @ log_files (TestActionOutput tr),
       t_Attempts := t_Attempts t @ [test_attempt lib tr]\<rparr>"

text \<open>The body of the loop: the label an event concerns and what it does to that target.\<close>

definition target_step :: "golib \<Rightarrow> named_sets \<Rightarrow> BuildEvent \<Rightarrow> target_acc \<Rightarrow> target_acc" where
  "target_step lib namedSets event acc =
     (case Payload event of
        BuildEvent_Configured c \<Rightarrow>
          (case GetTargetConfigured (EventId event) of
             Some tc \<Rightarrow>
               if tid_Aspect tc = [] then get_update (tid_Label tc) (target_configured c) acc else acc
           | None \<Rightarrow> acc)
      | BuildEvent_Completed c \<Rightarrow>
          (case GetTargetCompleted (EventId event) of
             Some tc \<Rightarrow>
               if tid_Aspect tc = [] then get_update (tid_Label tc) (target_completed namedSets c) acc
               else acc
           | None \<Rightarrow> acc)
      | BuildEvent_TestSummary ts \<Rightarrow>
          (case GetTestSummary (EventId event) of
             Some l \<Rightarrow> get_update l (target_summary lib ts) acc
           | None \<Rightarrow> acc)
      | BuildEvent_TestResult tr \<Rightarrow>
          (case GetTestResult (EventId event) of
             Some l \<Rightarrow> get_update l (target_result lib tr) acc
           | None \<Rightarrow> acc)
      | _ \<Rightarrow> acc)"

definition run_targets :: "golib \<Rightarrow> named_sets \<Rightarrow> BuildEvent list \<Rightarrow> target_acc" where
  "run_targets lib namedSets events =
     fold (target_step lib namedSets) events \<lparr>byLabel = Map.empty, order = []\<rparr>"

definition ParseTargets :: "golib \<Rightarrow> BuildEvent list \<Rightarrow> Target list" where
  "ParseTargets lib events =
     (let acc = run_targets lib (parseNamedSets events) events
      in map (\<lambda>label. the (byLabel acc label)) (order acc))"

section \<open>The walk over the named sets\<close>

text \<open>The edges of the graph, and what one set contributes.\<close>

definition set_edges :: "named_sets \<Rightarrow> (string \<times> string) set" where
  "set_edges sets = {(a, b). \<exists>s. map_of sets a = Some s \<and> b \<in> set (SetFileSets s)}"

definition set_log_files :: "named_sets \<Rightarrow> string \<Rightarrow> LogFile list" where
  "set_log_files sets k = (case map_of sets k of None \<Rightarrow> [] | Some s \<Rightarrow> log_files (SetFiles s))"

lemma resolve_visits:
  "\<exists>ks. snd (resolveFileSets sets ids seen) = rev ks @ seen \<and> distinct ks \<and> set ks \<inter> set seen = {} \<and>
     fst (resolveFileSets sets ids seen) = concat (map (set_log_files sets) ks)"
proof (induction sets ids seen rule: resolveFileSets.induct)
  case (2 sets key ids seen)
  show ?case
  proof (cases "key \<in> set seen")
    case True
    with 2(1) show ?thesis by simp
  next
    case new: False
    show ?thesis
    proof (cases "map_of sets key")
      case None
      with 2(2) [OF new] obtain ks where
        "snd (resolveFileSets sets ids (key # seen)) = rev ks @ key # seen" "distinct ks"
        "set ks \<inter> set (key # seen) = {}"
        "fst (resolveFileSets sets ids (key # seen)) = concat (map (set_log_files sets) ks)"
        by blast
      moreover from None have "set_log_files sets key = []" by (simp add: set_log_files_def)
      ultimately show ?thesis
        using None new by (intro exI [of _ "key # ks"]) auto
    next
      case (Some s)
      obtain fs seen1 where r1: "resolveFileSets sets (SetFileSets s) (key # seen) = (fs, seen1)"
        by fastforce
      obtain gs seen2 where r2: "resolveFileSets sets ids seen1 = (gs, seen2)" by fastforce
      from 2(3) [OF new Some] r1 obtain ks where ks: "seen1 = rev ks @ key # seen" "distinct ks"
        "set ks \<inter> set (key # seen) = {}" "fs = concat (map (set_log_files sets) ks)"
        by auto
      from 2(4) [OF new Some refl] r1 r2 obtain ms where ms: "seen2 = rev ms @ seen1" "distinct ms"
        "set ms \<inter> set seen1 = {}" "gs = concat (map (set_log_files sets) ms)"
        by auto
      from Some have "set_log_files sets key = log_files (SetFiles s)" by (simp add: set_log_files_def)
      with new Some r1 r2 ks ms show ?thesis
        by (intro exI [of _ "key # ks @ ms"]) auto
    qed
  qed
qed simp

lemma resolve_seen_mono: "set seen \<subseteq> set (snd (resolveFileSets sets ids seen))"
  using resolve_visits [of sets ids seen] by auto

lemma resolve_sound:
  "set (snd (resolveFileSets sets ids seen)) \<subseteq> set seen \<union> (set_edges sets)\<^sup>* `` set ids"
proof (induction sets ids seen rule: resolveFileSets.induct)
  case (2 sets key ids seen)
  show ?case
  proof (cases "key \<in> set seen \<or> map_of sets key = None")
    case True
    with 2(1,2) show ?thesis by (auto split: option.splits)
  next
    case False
    then obtain s where s: "map_of sets key = Some s" and new: "key \<notin> set seen" by auto
    obtain fs seen1 where r1: "resolveFileSets sets (SetFileSets s) (key # seen) = (fs, seen1)"
      by fastforce
    have "(set_edges sets)\<^sup>* `` set (SetFileSets s) \<subseteq> (set_edges sets)\<^sup>* `` {key}"
      using s by (auto simp: set_edges_def intro: converse_rtrancl_into_rtrancl)
    with 2(3) [OF new s] r1 have "set seen1 \<subseteq> set seen \<union> (set_edges sets)\<^sup>* `` set (key # ids)"
      by auto
    with 2(4) [OF new s refl, of fs seen1] r1 s new show ?thesis
      by (auto split: prod.splits)
  qed
qed simp

lemma resolve_covers: "set ids \<subseteq> set (snd (resolveFileSets sets ids seen))"
proof (induction sets ids seen rule: resolveFileSets.induct)
  case (2 sets key ids seen)
  show ?case
  proof (cases "key \<in> set seen")
    case True
    with 2(1) resolve_seen_mono [of seen sets ids] show ?thesis by auto
  next
    case new: False
    show ?thesis
    proof (cases "map_of sets key")
      case None
      with 2(2) new resolve_seen_mono [of "key # seen" sets ids] show ?thesis by auto
    next
      case (Some s)
      obtain fs seen1 where r1: "resolveFileSets sets (SetFileSets s) (key # seen) = (fs, seen1)"
        by fastforce
      have "key \<in> set seen1"
        using resolve_seen_mono [of "key # seen" sets "SetFileSets s"] r1 by auto
      with 2(4) [OF new Some refl, of fs seen1] r1 Some new resolve_seen_mono [of seen1 sets ids]
      show ?thesis by (auto split: prod.splits)
    qed
  qed
qed simp

lemma resolve_closed:
  "k \<in> set (snd (resolveFileSets sets ids seen)) \<Longrightarrow> k \<notin> set seen \<Longrightarrow> (k, j) \<in> set_edges sets \<Longrightarrow>
   j \<in> set (snd (resolveFileSets sets ids seen))"
proof (induction sets ids seen rule: resolveFileSets.induct)
  case (2 sets key ids seen)
  show ?case
  proof (cases "key \<in> set seen")
    case True
    with 2(1) 2(5-7) show ?thesis by auto
  next
    case new: False
    show ?thesis
    proof (cases "map_of sets key")
      case None
      then have "k \<noteq> key" using 2(7) by (auto simp: set_edges_def)
      with None new 2(2) 2(5-7) show ?thesis by auto
    next
      case (Some s)
      obtain fs seen1 where r1: "resolveFileSets sets (SetFileSets s) (key # seen) = (fs, seen1)"
        by fastforce
      obtain gs seen2 where r2: "resolveFileSets sets ids seen1 = (gs, seen2)" by fastforce
      have sub: "set (SetFileSets s) \<subseteq> set seen1" "set seen1 \<subseteq> set seen2"
        using resolve_covers [of "SetFileSets s" sets "key # seen"] r1
          resolve_seen_mono [of seen1 sets ids] r2 by auto
      have seen2: "snd (resolveFileSets sets (key # ids) seen) = seen2"
        using new Some r1 r2 by simp
      consider "k = key" | "k \<in> set seen1" "k \<noteq> key" | "k \<notin> set seen1" by blast
      then have "j \<in> set seen2"
      proof cases
        case 1
        with Some 2(7) sub show ?thesis by (auto simp: set_edges_def)
      next
        case 2
        with "2.IH"(3) [OF new Some] r1 "2.prems" sub show ?thesis by auto
      next
        case 3
        with "2.IH"(4) [OF new Some refl, of fs seen1] r1 r2 "2.prems" seen2 show ?thesis by auto
      qed
      with seen2 show ?thesis by simp
    qed
  qed
qed simp

lemma resolve_reachable:
  "set (snd (resolveFileSets sets ids [])) = (set_edges sets)\<^sup>* `` set ids"
proof
  show "set (snd (resolveFileSets sets ids [])) \<subseteq> (set_edges sets)\<^sup>* `` set ids"
    using resolve_sound [of sets ids "[]"] by simp
  have "b \<in> set (snd (resolveFileSets sets ids []))"
    if "(a, b) \<in> (set_edges sets)\<^sup>*" and "a \<in> set ids" for a b
    using that(1)
  proof (induction rule: rtrancl_induct)
    case base
    with that(2) resolve_covers show ?case by blast
  next
    case (step x y)
    then show ?case using resolve_closed [of x sets ids "[]" y] by simp
  qed
  then show "(set_edges sets)\<^sup>* `` set ids \<subseteq> set (snd (resolveFileSets sets ids []))" by blast
qed

text \<open>
  C18: resolving an output group terminates on any graph of named sets, cyclic ones included, and
  collects each set that is reachable from the group's references exactly once: the result is the
  concatenation of the files of those sets, in some order without repetition.
\<close>

theorem resolveFileSets_reachable_once:
  "\<exists>ks. distinct ks \<and> set ks = (set_edges sets)\<^sup>* `` set ids \<and>
     fst (resolveFileSets sets ids []) = concat (map (set_log_files sets) ks)"
proof -
  obtain ks where "snd (resolveFileSets sets ids []) = rev ks @ []" "distinct ks"
    "fst (resolveFileSets sets ids []) = concat (map (set_log_files sets) ks)"
    using resolve_visits [of sets ids "[]"] by blast
  then show ?thesis
    using resolve_reachable [of sets ids] by (intro exI [of _ ks]) simp
qed

section \<open>One fold per label\<close>

text \<open>The label that an event reports on, and what the event does to that target.\<close>

definition event_label :: "BuildEvent \<Rightarrow> string option" where
  "event_label e =
     (case Payload e of
        BuildEvent_Configured _ \<Rightarrow>
          (case GetTargetConfigured (EventId e) of
             Some tc \<Rightarrow> if tid_Aspect tc = [] then Some (tid_Label tc) else None | None \<Rightarrow> None)
      | BuildEvent_Completed _ \<Rightarrow>
          (case GetTargetCompleted (EventId e) of
             Some tc \<Rightarrow> if tid_Aspect tc = [] then Some (tid_Label tc) else None | None \<Rightarrow> None)
      | BuildEvent_TestSummary _ \<Rightarrow> GetTestSummary (EventId e)
      | BuildEvent_TestResult _ \<Rightarrow> GetTestResult (EventId e)
      | _ \<Rightarrow> None)"

definition event_action :: "golib \<Rightarrow> named_sets \<Rightarrow> BuildEvent \<Rightarrow> Target \<Rightarrow> Target" where
  "event_action lib ns e t =
     (case Payload e of
        BuildEvent_Configured c \<Rightarrow> target_configured c t
      | BuildEvent_Completed c \<Rightarrow> target_completed ns c t
      | BuildEvent_TestSummary ts \<Rightarrow> target_summary lib ts t
      | BuildEvent_TestResult tr \<Rightarrow> target_result lib tr t
      | _ \<Rightarrow> t)"

definition labels_of :: "BuildEvent list \<Rightarrow> string list" where
  "labels_of events = nub (List.map_filter event_label events)"

definition target_of :: "golib \<Rightarrow> named_sets \<Rightarrow> BuildEvent list \<Rightarrow> string \<Rightarrow> Target" where
  "target_of lib ns events l =
     fold (event_action lib ns) (filter (\<lambda>e. event_label e = Some l) events) (new_Target l)"

lemma event_action_simps:
  "Payload e = BuildEvent_Configured c \<Longrightarrow> event_action lib ns e = target_configured c"
  "Payload e = BuildEvent_Completed d \<Longrightarrow> event_action lib ns e = target_completed ns d"
  "Payload e = BuildEvent_TestSummary ts \<Longrightarrow> event_action lib ns e = target_summary lib ts"
  "Payload e = BuildEvent_TestResult tr \<Longrightarrow> event_action lib ns e = target_result lib tr"
  by (simp_all add: event_action_def fun_eq_iff)

lemma target_step_label:
  "target_step lib ns e acc =
     (case event_label e of None \<Rightarrow> acc | Some l \<Rightarrow> get_update l (event_action lib ns e) acc)"
  by (cases "Payload e")
    (simp_all add: target_step_def event_label_def event_action_simps split: option.splits)

lemma run_targets_snoc:
  "run_targets lib ns (es @ [e]) = target_step lib ns e (run_targets lib ns es)"
  by (simp add: run_targets_def)

lemma target_of_snoc:
  "target_of lib ns (es @ [e]) l =
     (if event_label e = Some l then event_action lib ns e (target_of lib ns es l)
      else target_of lib ns es l)"
  by (simp add: target_of_def)

lemma map_filter_snoc:
  "List.map_filter f (xs @ [x]) =
     List.map_filter f xs @ (case f x of None \<Rightarrow> [] | Some y \<Rightarrow> [y])"
  by (induction xs) (auto simp: List.map_filter_def split: option.splits)

lemma labels_of_snoc:
  "labels_of (es @ [e]) =
     (case event_label e of
        None \<Rightarrow> labels_of es
      | Some l \<Rightarrow> if l \<in> set (labels_of es) then labels_of es else labels_of es @ [l])"
  by (simp add: labels_of_def map_filter_snoc nub_snoc split: option.splits)

lemma target_of_unseen: "l \<notin> set (labels_of es) \<Longrightarrow> target_of lib ns es l = new_Target l"
  by (induction es rule: rev_induct)
    (auto simp: target_of_def labels_of_snoc split: option.splits if_splits)

lemma run_targets_spec:
  "order (run_targets lib ns es) = labels_of es \<and>
   byLabel (run_targets lib ns es) =
     (\<lambda>l. if l \<in> set (labels_of es) then Some (target_of lib ns es l) else None)"
proof (induction es rule: rev_induct)
  case Nil
  then show ?case by (simp add: run_targets_def labels_of_def nub_def List.map_filter_def)
next
  case (snoc e es)
  let ?acc = "run_targets lib ns es"
  show ?case
  proof (cases "event_label e")
    case None
    with snoc show ?thesis
      by (simp add: run_targets_snoc target_step_label labels_of_snoc target_of_snoc fun_eq_iff)
  next
    case (Some l)
    show ?thesis
    proof (cases "l \<in> set (labels_of es)")
      case True
      with snoc Some show ?thesis
        by (auto simp: run_targets_snoc target_step_label labels_of_snoc target_of_snoc
            get_update_def fun_eq_iff)
    next
      case False
      with snoc Some show ?thesis
        by (auto simp: run_targets_snoc target_step_label labels_of_snoc target_of_snoc
            get_update_def target_of_unseen fun_eq_iff)
    qed
  qed
qed

lemma distinct_labels_of: "distinct (labels_of es)"
  by (simp add: labels_of_def)

text \<open>
  C19: what the Targets view shows.  There is one target per label that the events report on, in the
  order in which the labels first appear, and each target is the result of folding only the events
  about that label, in stream order, over an empty target; events about other targets and about
  aspects never leak into it.
\<close>

theorem ParseTargets_per_label:
  "ParseTargets lib es = map (target_of lib (parseNamedSets es) es) (labels_of es)"
  by (simp add: ParseTargets_def run_targets_spec Let_def cong: map_cong)

section \<open>Test attempts and log files\<close>

lemma fold_outputs_frame [frame]:
  fixes t :: Target
  shows "t_Label (fold (\<lambda>og t. t\<lparr>t_OutputFiles := t_OutputFiles t @ f og\<rparr>) ogs t) = t_Label t"
    and "t_Attempts (fold (\<lambda>og t. t\<lparr>t_OutputFiles := t_OutputFiles t @ f og\<rparr>) ogs t) = t_Attempts t"
    and "t_LogFiles (fold (\<lambda>og t. t\<lparr>t_OutputFiles := t_OutputFiles t @ f og\<rparr>) ogs t) = t_LogFiles t"
    and "t_OutputFiles (fold (\<lambda>og t. t\<lparr>t_OutputFiles := t_OutputFiles t @ f og\<rparr>) ogs t) =
      t_OutputFiles t @ concat (map f ogs)"
  by (induction ogs arbitrary: t) auto

lemma completed_frame [frame]:
  "t_Label (target_completed ns c t) = t_Label t"
  "t_Attempts (target_completed ns c t) = t_Attempts t"
  "t_LogFiles (target_completed ns c t) = t_LogFiles t"
  "t_OutputFiles (target_completed ns c t) = t_OutputFiles t @
     concat (map (\<lambda>og. fst (resolveFileSets ns (GroupFileSets og) [])) (CompleteOutputGroup c))"
  by (simp_all add: target_completed_def Let_def frame split: option.splits)

lemma t_Label_action [frame]: "t_Label (event_action lib ns e t) = t_Label t"
  by (simp add: event_action_def target_configured_def target_summary_def target_result_def frame
      split: Payload.splits)

lemma t_Label_target_of [simp]: "t_Label (target_of lib ns es l) = l"
  by (induction es rule: rev_induct) (simp_all add: target_of_def new_Target_def frame)

text \<open>The test results that the events report for a label.\<close>

definition results_for :: "string \<Rightarrow> BuildEvent list \<Rightarrow> TestResult list" where
  "results_for l es =
     concat (map (\<lambda>e. case Payload e of
       BuildEvent_TestResult tr \<Rightarrow> if GetTestResult (EventId e) = Some l then [tr] else []
     | _ \<Rightarrow> []) es)"

lemma target_of_results:
  "t_Attempts (target_of lib ns es l) = map (test_attempt lib) (results_for l es) \<and>
   t_LogFiles (target_of lib ns es l) =
     concat (map (\<lambda>tr. log_files (TestActionOutput tr)) (results_for l es))"
proof (induction es rule: rev_induct)
  case Nil
  then show ?case by (simp add: target_of_def new_Target_def results_for_def)
next
  case (snoc e es)
  then show ?case
    by (cases "Payload e")
      (auto simp: target_of_snoc results_for_def event_action_def event_label_def
        target_configured_def target_summary_def target_result_def completed_frame)
qed

text \<open>
  C20: every test run is visible.  A target's attempts are exactly the test results reported for its
  label, one each and in stream order, and its log files are the files with a URI of those results,
  in the same order; no other event adds, drops or reorders them.
\<close>

theorem ParseTargets_attempts:
  "map (\<lambda>t. (t_Label t, t_Attempts t, t_LogFiles t)) (ParseTargets lib es) =
     map (\<lambda>l. (l, map (test_attempt lib) (results_for l es),
       concat (map (\<lambda>tr. log_files (TestActionOutput tr)) (results_for l es)))) (labels_of es)"
  by (simp add: ParseTargets_def run_targets_spec Let_def target_of_results cong: map_cong)

section \<open>Reported files\<close>

text \<open>The files that the events of an invocation report: test outputs and named sets of files.\<close>

definition event_files :: "BuildEvent \<Rightarrow> File list" where
  "event_files e =
     (case Payload e of
        BuildEvent_TestResult tr \<Rightarrow> TestActionOutput tr
      | BuildEvent_NamedSetOfFiles s \<Rightarrow> SetFiles s
      | _ \<Rightarrow> [])"

definition reported_uris :: "BuildEvent list \<Rightarrow> string set" where
  "reported_uris events = {GetUri f | f e. e \<in> set events \<and> f \<in> set (event_files e)}"

definition file_uris :: "LogFile list \<Rightarrow> string set" where
  "file_uris fs = lf_URI ` set fs"

lemma file_uris_simps [simp]:
  "file_uris [] = {}" "file_uris (fs @ gs) = file_uris fs \<union> file_uris gs"
  by (auto simp: file_uris_def)

lemma file_uris_concat: "file_uris (concat (map f xs)) = (\<Union>x \<in> set xs. file_uris (f x))"
  by (auto simp: file_uris_def)

lemma file_uris_log_files: "file_uris (log_files fs) \<subseteq> GetUri ` set fs"
  by (auto simp: file_uris_def log_files_def)

lemma resolve_uris:
  "file_uris (fst (resolveFileSets sets ids seen)) \<subseteq> (\<Union>s \<in> snd ` set sets. GetUri ` set (SetFiles s))"
proof (induction sets ids seen rule: resolveFileSets.induct)
  case (2 sets key ids seen)
  show ?case
  proof (cases "key \<in> set seen")
    case True
    with 2(1) show ?thesis by simp
  next
    case new: False
    show ?thesis
    proof (cases "map_of sets key")
      case None
      with 2(2) new show ?thesis by simp
    next
      case (Some s)
      obtain fs seen1 where f: "resolveFileSets sets (SetFileSets s) (key # seen) = (fs, seen1)" by force
      obtain gs seen2 where g: "resolveFileSets sets ids seen1 = (gs, seen2)" by force
      have "s \<in> snd ` set sets" using Some by (force dest: map_of_SomeD)
      then have "file_uris (log_files (SetFiles s)) \<subseteq> (\<Union>s \<in> snd ` set sets. GetUri ` set (SetFiles s))"
        using file_uris_log_files by blast
      with 2(3,4) [OF new Some] new Some f g show ?thesis by simp
    qed
  qed
qed simp

lemma named_sets_reported:
  "s \<in> snd ` set (parseNamedSets es) \<Longrightarrow> GetUri ` set (SetFiles s) \<subseteq> reported_uris es"
proof -
  have "\<exists>e \<in> set es. Payload e = BuildEvent_NamedSetOfFiles s"
    if "s \<in> snd ` set (parseNamedSets es)" for s es
    using that unfolding parseNamedSets_def
    by (induction es rule: rev_induct)
      (auto simp: add_named_set_def split: Payload.splits option.splits)
  then show "s \<in> snd ` set (parseNamedSets es) \<Longrightarrow> GetUri ` set (SetFiles s) \<subseteq> reported_uris es"
    by (fastforce simp: reported_uris_def event_files_def)
qed

definition target_uris :: "Target \<Rightarrow> string set" where
  "target_uris t = file_uris (t_LogFiles t) \<union> file_uris (t_OutputFiles t)"

lemma get_update_uris:
  assumes "\<And>l t. byLabel acc l = Some t \<Longrightarrow> target_uris t \<subseteq> U"
    and "\<And>t. target_uris t \<subseteq> U \<Longrightarrow> target_uris (f t) \<subseteq> U"
    and "byLabel (get_update k f acc) l = Some t"
  shows "target_uris t \<subseteq> U"
proof -
  have "target_uris (new_Target k) \<subseteq> U" by (simp add: target_uris_def new_Target_def)
  moreover have "t = f (new_Target k) \<or> (\<exists>u. byLabel acc k = Some u \<and> t = f u) \<or> byLabel acc l = Some t"
    using assms(3) by (auto simp: get_update_def split: option.splits if_splits)
  ultimately show ?thesis using assms(1,2) by blast
qed

lemma target_step_uris:
  assumes "\<And>l t. byLabel acc l = Some t \<Longrightarrow> target_uris t \<subseteq> reported_uris es" "e \<in> set es"
    and "byLabel (target_step lib (parseNamedSets es) e acc) l = Some t"
  shows "target_uris t \<subseteq> reported_uris es"
proof -
  have sets: "file_uris (fst (resolveFileSets (parseNamedSets es) ids [])) \<subseteq> reported_uris es" for ids
    using resolve_uris named_sets_reported by blast
  have comp: "target_uris (target_completed (parseNamedSets es) c t) \<subseteq> reported_uris es"
    if "target_uris t \<subseteq> reported_uris es" for c t
    using that sets by (auto simp: target_uris_def completed_frame file_uris_concat)
  have res: "target_uris (target_result lib tr t) \<subseteq> reported_uris es"
    if "target_uris t \<subseteq> reported_uris es" "Payload e = BuildEvent_TestResult tr" for tr t
  proof -
    have "GetUri ` set (TestActionOutput tr) \<subseteq> reported_uris es"
      using that(2) assms(2) by (fastforce simp: reported_uris_def event_files_def)
    with that(1) file_uris_log_files [of "TestActionOutput tr"] show ?thesis
      by (auto simp: target_uris_def target_result_def)
  qed
  have same: "target_uris (target_configured c t) = target_uris t"
    "target_uris (target_summary lib ts t) = target_uris t" for c ts t
    by (simp_all add: target_uris_def target_configured_def target_summary_def)
  have keep: "target_uris t \<subseteq> reported_uris es"
    if "byLabel (get_update k f acc) l = Some t"
      "\<And>t. target_uris t \<subseteq> reported_uris es \<Longrightarrow> target_uris (f t) \<subseteq> reported_uris es" for k f
    using assms(1) that(2,1) by (rule get_update_uris)
  consider "byLabel acc l = Some t"
    | k c where "byLabel (get_update k (target_completed (parseNamedSets es) c) acc) l = Some t"
    | k c where "byLabel (get_update k (target_configured c) acc) l = Some t"
    | k ts where "byLabel (get_update k (target_summary lib ts) acc) l = Some t"
    | k tr where "byLabel (get_update k (target_result lib tr) acc) l = Some t"
        "Payload e = BuildEvent_TestResult tr"
    using assms(3) by (cases "Payload e") (auto simp: target_step_def split: option.splits if_splits)
  then show ?thesis
  proof cases
    case 1
    then show ?thesis by (rule assms(1))
  next
    case 2
    then show ?thesis by (rule keep) (rule comp)
  next
    case 3
    then show ?thesis by (rule keep) (simp add: same)
  next
    case 4
    then show ?thesis by (rule keep) (simp add: same)
  next
    case 5
    from 5(1) show ?thesis by (rule keep) (rule res [OF _ 5(2)])
  qed
qed

lemma ParseTargets_uris:
  assumes "t \<in> set (ParseTargets lib es)"
  shows "target_uris t \<subseteq> reported_uris es"
proof -
  have inv: "byLabel (fold (target_step lib (parseNamedSets es)) es'
      \<lparr>byLabel = Map.empty, order = []\<rparr>) l = Some t \<Longrightarrow> target_uris t \<subseteq> reported_uris es"
    if "set es' \<subseteq> set es" for es' l t
    using that
  proof (induction es' arbitrary: l t rule: rev_induct)
    case (snoc e es')
    then show ?case
      using target_step_uris [of "fold (target_step lib (parseNamedSets es)) es'
        \<lparr>byLabel = Map.empty, order = []\<rparr>" es e lib l t] by simp
  qed simp
  obtain l where l: "t = the (byLabel (run_targets lib (parseNamedSets es) es) l)"
    "l \<in> set (labels_of es)"
    using assms run_targets_spec [of lib "parseNamedSets es" es]
    by (auto simp: ParseTargets_def Let_def)
  then have "byLabel (run_targets lib (parseNamedSets es) es) l = Some t"
    using run_targets_spec [of lib "parseNamedSets es" es] by (cases "byLabel (run_targets lib (parseNamedSets es) es) l") auto
  with inv [of es] show ?thesis by (simp add: run_targets_def)
qed

end
