(* ===== verification/Detail.thy ===== *)
theory Detail
  imports EventParser
begin

text \<open>
  The details of an invocation that are derived from its stored events on every read,
  \<open>src/index/detail.go\<close>: effective flags, build error and build info.
\<close>

section \<open>Flags\<close>

record Flag =
  fl_CombinedForm :: string
  fl_Source :: string

text \<open>The structured command line of an event, if it is the canonical one.\<close>

definition canonical_command_line :: "BuildEvent \<Rightarrow> CommandLine option" where
  "canonical_command_line e =
     (case Payload e of
        BuildEvent_StructuredCommandLine cl \<Rightarrow>
          if CommandLineLabel cl \<noteq> structuredCommandLineLabelCanonical then None else Some cl
      | _ \<Rightarrow> None)"

fun add_flags :: "OptionMsg list \<Rightarrow> Flag list \<Rightarrow> Flag list" where
  "add_flags [] flags = flags"
| "add_flags (opt # opts) flags =
     (if OptionName opt = envVarOptionName then add_flags opts flags
      else add_flags opts (flags @ [\<lparr>fl_CombinedForm = CombinedForm opt, fl_Source = OptionSource opt\<rparr>]))"

fun flags_from :: "BuildEvent list \<Rightarrow> Flag list \<Rightarrow> Flag list" where
  "flags_from [] flags = flags"
| "flags_from (e # es) flags =
     (case canonical_command_line e of
        None \<Rightarrow> flags_from es flags
      | Some cl \<Rightarrow> flags_from es (add_flags (option_lists cl) flags))"

definition ParseFlags :: "BuildEvent list \<Rightarrow> Flag list" where
  "ParseFlags events = flags_from events []"

section \<open>Build error\<close>

fun build_error_from :: "BuildEvent list \<Rightarrow> string \<Rightarrow> string" where
  "build_error_from [] lastAborted = lastAborted"
| "build_error_from (e # es) lastAborted =
     (case Payload e of
        BuildEvent_Aborted d \<Rightarrow> build_error_from es (if d \<noteq> [] then d else lastAborted)
      | BuildEvent_Finished f \<Rightarrow>
          if GetMessage (FinishedFailureDetail f) \<noteq> [] then GetMessage (FinishedFailureDetail f)
          else build_error_from es lastAborted
      | _ \<Rightarrow> build_error_from es lastAborted)"

definition ParseBuildError :: "BuildEvent list \<Rightarrow> string" where
  "ParseBuildError events = build_error_from events []"

section \<open>Build info\<close>

record BuildInfo =
  bi_CPU :: string
  bi_RemoteExecutionEnabled :: bool
  bi_CachingEnabled :: bool
  bi_PackagesLoaded :: int
  bi_FetchCount :: nat

fun first_option :: "OptionMsg list \<Rightarrow> string \<Rightarrow> string" where
  "first_option [] name = []"
| "first_option (opt # opts) name =
     (if OptionName opt = name then OptionValue opt else first_option opts name)"

definition optionValue :: "CommandLine \<Rightarrow> string \<Rightarrow> string" where
  "optionValue cl name = first_option (option_lists cl) name"

definition build_info_step :: "BuildEvent \<Rightarrow> BuildInfo \<Rightarrow> BuildInfo" where
  "build_info_step e info =
     (case Payload e of
        BuildEvent_Configuration cpu \<Rightarrow> if cpu \<noteq> [] then info\<lparr>bi_CPU := cpu\<rparr> else info
      | BuildEvent_BuildMetrics m \<Rightarrow> info\<lparr>bi_PackagesLoaded := GetPackagesLoaded m\<rparr>
      | BuildEvent_Fetch \<Rightarrow> info\<lparr>bi_FetchCount := bi_FetchCount info + 1\<rparr>
      | BuildEvent_StructuredCommandLine cl \<Rightarrow>
          if CommandLineLabel cl \<noteq> structuredCommandLineLabelCanonical then info
          else
            let i1 = (if optionValue cl ''remote_executor'' \<noteq> []
                      then info\<lparr>bi_RemoteExecutionEnabled := True\<rparr> else info)
            in if optionValue cl ''remote_cache'' \<noteq> [] then i1\<lparr>bi_CachingEnabled := True\<rparr> else i1
      | _ \<Rightarrow> info)"

definition ParseBuildInfo :: "BuildEvent list \<Rightarrow> BuildInfo" where
  "ParseBuildInfo events =
     fold build_info_step events
       \<lparr>bi_CPU = [], bi_RemoteExecutionEnabled = False, bi_CachingEnabled = False,
        bi_PackagesLoaded = 0, bi_FetchCount = 0\<rparr>"

section \<open>Properties\<close>

text \<open>The failure messages of the finished events and the descriptions of the aborted ones.\<close>

definition failure_messages :: "BuildEvent list \<Rightarrow> string list" where
  "failure_messages es =
     concat (map (\<lambda>e. case Payload e of
       BuildEvent_Finished f \<Rightarrow>
         if GetMessage (FinishedFailureDetail f) \<noteq> [] then [GetMessage (FinishedFailureDetail f)] else []
     | _ \<Rightarrow> []) es)"

definition abort_descriptions :: "BuildEvent list \<Rightarrow> string list" where
  "abort_descriptions es =
     concat (map (\<lambda>e. case Payload e of
       BuildEvent_Aborted d \<Rightarrow> if d \<noteq> [] then [d] else [] | _ \<Rightarrow> []) es)"

lemma build_error_from_spec:
  "build_error_from es last0 =
     (case failure_messages es of
        m # _ \<Rightarrow> m
      | [] \<Rightarrow> if abort_descriptions es = [] then last0 else last (abort_descriptions es))"
proof (induction es arbitrary: last0)
  case Nil
  then show ?case by (simp add: failure_messages_def abort_descriptions_def)
next
  case (Cons e es)
  have msgs: "failure_messages (e # es) = failure_messages [e] @ failure_messages es"
    and aborts: "abort_descriptions (e # es) = abort_descriptions [e] @ abort_descriptions es"
    by (simp_all add: failure_messages_def abort_descriptions_def)
  have one: "failure_messages [e] = (case Payload e of BuildEvent_Finished f \<Rightarrow>
      if GetMessage (FinishedFailureDetail f) \<noteq> [] then [GetMessage (FinishedFailureDetail f)] else []
    | _ \<Rightarrow> [])"
    "abort_descriptions [e] = (case Payload e of BuildEvent_Aborted d \<Rightarrow> if d \<noteq> [] then [d] else [] | _ \<Rightarrow> [])"
    by (simp_all add: failure_messages_def abort_descriptions_def)
  show ?case
    by (cases "Payload e"; cases "failure_messages es") (simp_all add: Cons.IH msgs aborts one)
qed


lemma add_flags_spec:
  "add_flags opts flags = flags @
     [\<lparr>fl_CombinedForm = CombinedForm o1, fl_Source = OptionSource o1\<rparr>.
        o1 \<leftarrow> opts, OptionName o1 \<noteq> ''client_env'']"
  by (induction opts arbitrary: flags) (auto simp: envVarOptionName_def)

text \<open>The options of the canonical command lines of a stream.\<close>

definition canonical_options :: "BuildEvent list \<Rightarrow> OptionMsg list" where
  "canonical_options es =
     concat (map option_lists (List.map_filter canonical_command_line es))"

lemma flags_from_spec:
  "flags_from es flags = add_flags (canonical_options es) flags"
  by (induction es arbitrary: flags)
    (auto simp: canonical_options_def List.map_filter_def add_flags_spec split: option.splits)

text \<open>
  C22: the flags shown are those of the canonical command line, in order, and never a
  \<open>client_env\<close> option: the environment of the user's machine does not reach the flags view.
\<close>

theorem ParseFlags_spec:
  "ParseFlags es =
     map (\<lambda>o1. \<lparr>fl_CombinedForm = CombinedForm o1, fl_Source = OptionSource o1\<rparr>)
       (filter (\<lambda>o1. OptionName o1 \<noteq> ''client_env'') (canonical_options es))"
proof -
  have "[\<lparr>fl_CombinedForm = CombinedForm o1, fl_Source = OptionSource o1\<rparr>.
      o1 \<leftarrow> opts, OptionName o1 \<noteq> ''client_env''] =
    map (\<lambda>o1. \<lparr>fl_CombinedForm = CombinedForm o1, fl_Source = OptionSource o1\<rparr>)
      (filter (\<lambda>o1. OptionName o1 \<noteq> ''client_env'') opts)" for opts
    by (induction opts) auto
  then show ?thesis by (simp add: ParseFlags_def flags_from_spec add_flags_spec)
qed

lemma build_info_fold:
  "bi_FetchCount (fold build_info_step es info) =
     bi_FetchCount info + length (filter (\<lambda>e. Payload e = BuildEvent_Fetch) es)"
  "bi_RemoteExecutionEnabled (fold build_info_step es info) =
     (bi_RemoteExecutionEnabled info \<or>
      list_ex (\<lambda>cl. optionValue cl ''remote_executor'' \<noteq> []) (List.map_filter canonical_command_line es))"
  "bi_CachingEnabled (fold build_info_step es info) =
     (bi_CachingEnabled info \<or>
      list_ex (\<lambda>cl. optionValue cl ''remote_cache'' \<noteq> []) (List.map_filter canonical_command_line es))"
proof (induction es arbitrary: info)
  case (Cons e es)
  { case 1 with Cons show ?case by (cases "Payload e") (auto simp: build_info_step_def Let_def) }
  { case 2 with Cons show ?case
      by (cases "Payload e")
        (auto simp: build_info_step_def Let_def canonical_command_line_def List.map_filter_def) }
  { case 3 with Cons show ?case
      by (cases "Payload e")
        (auto simp: build_info_step_def Let_def canonical_command_line_def List.map_filter_def) }
qed (simp_all add: List.map_filter_def)

text \<open>
  the build info counts each fetch once, and reports remote execution or caching exactly if
  some canonical command line gives the option \<open>remote_executor\<close> or \<open>remote_cache\<close> a non-empty
  value.
\<close>

theorem ParseBuildInfo_spec:
  "bi_FetchCount (ParseBuildInfo es) = length (filter (\<lambda>e. Payload e = BuildEvent_Fetch) es) \<and>
   bi_RemoteExecutionEnabled (ParseBuildInfo es) =
     list_ex (\<lambda>cl. optionValue cl ''remote_executor'' \<noteq> []) (List.map_filter canonical_command_line es) \<and>
   bi_CachingEnabled (ParseBuildInfo es) =
     list_ex (\<lambda>cl. optionValue cl ''remote_cache'' \<noteq> []) (List.map_filter canonical_command_line es)"
  by (simp add: ParseBuildInfo_def build_info_fold)

end
