(* ===== verification/Blobstore.thy ===== *)
theory Blobstore
  imports Prelude
begin

text \<open>
  The object storage interface, \<open>src/blobstore/blobstore.go\<close>: the operations of a backend, the gzip
  layer in front of every backend, and the contract a client may rely on.  The contract is the
  locale \<open>blobstore\<close>; the backends interpret it and \<open>Store\<close> is proved against it.
\<close>

section \<open>gzip\<close>

text \<open>
  A compressor: \<open>gz_emitted cs\<close> is what a \<open>gzip.Writer\<close> has handed to the writer below it after
  \<open>Write\<close> of the chunks \<open>cs\<close>, \<open>gz_stream cs\<close> all it has handed on once \<open>Close\<close> has returned, and
  \<open>gz_reader\<close> is \<open>gzip.NewReader\<close> followed by \<open>io.ReadAll\<close>.  The compressed form is left open.
\<close>

record gzip_codec =
  gz_emitted :: "bytes list \<Rightarrow> bytes"
  gz_stream :: "bytes list \<Rightarrow> bytes"
  gz_reader :: "bytes \<Rightarrow> goerror + bytes"

text \<open>
  What the packages document: output is only ever appended, its trailer (checksum and length) at
  \<open>Close\<close>; a complete stream reads back as what was written, and a truncated stream is reported as
  an error.
\<close>

definition gzip_lawful :: "gzip_codec \<Rightarrow> bool" where
  "gzip_lawful gz \<longleftrightarrow>
     gz_emitted gz [] = [] \<and>
     (\<forall>cs c. prefix (gz_emitted gz cs) (gz_emitted gz (cs @ [c]))) \<and>
     (\<forall>cs. strict_prefix (gz_emitted gz cs) (gz_stream gz cs)) \<and>
     (\<forall>cs. gz_reader gz (gz_stream gz cs) = Inr (concat cs)) \<and>
     (\<forall>cs b. strict_prefix b (gz_stream gz cs) \<longrightarrow> (\<exists>e. gz_reader gz b = Inl e))"

text \<open>
  A \<open>gzip.Writer\<close>: the chunks written so far and the sticky error.  \<open>sink\<close> is \<open>Write\<close> of the writer
  below; \<open>None\<close> is a call that never returns.
\<close>

record gzip_writer =
  gzw_chunks :: "bytes list"
  gzw_err :: "goerror option"

definition gzip_NewWriter :: gzip_writer where
  "gzip_NewWriter = \<lparr>gzw_chunks = [], gzw_err = None\<rparr>"

definition flush_to ::
  "(bytes \<Rightarrow> 's \<Rightarrow> (goerror option \<times> 's) option) \<Rightarrow> bytes \<Rightarrow> 's \<Rightarrow> (goerror option \<times> 's) option"
where
  "flush_to sink out s = (if out = [] then Some (None, s) else sink out s)"

definition gzw_Write ::
  "gzip_codec \<Rightarrow> (bytes \<Rightarrow> 's \<Rightarrow> (goerror option \<times> 's) option) \<Rightarrow> gzip_writer \<Rightarrow> bytes \<Rightarrow> 's \<Rightarrow>
   ((int \<times> goerror option) \<times> gzip_writer \<times> 's) option"
where
  "gzw_Write gz sink w p s =
     (case gzw_err w of
        Some e \<Rightarrow> Some ((0, Some e), w, s)
      | None \<Rightarrow>
          (let cs = gzw_chunks w;
               out = drop (length (gz_emitted gz cs)) (gz_emitted gz (cs @ [p]))
           in case flush_to sink out s of
                None \<Rightarrow> None
              | Some (None, s') \<Rightarrow> Some ((int (length p), None), w\<lparr>gzw_chunks := cs @ [p]\<rparr>, s')
              | Some (Some e, s') \<Rightarrow> Some ((0, Some e), w\<lparr>gzw_err := Some e\<rparr>, s')))"

definition gzw_Close ::
  "gzip_codec \<Rightarrow> (bytes \<Rightarrow> 's \<Rightarrow> (goerror option \<times> 's) option) \<Rightarrow> gzip_writer \<Rightarrow> 's \<Rightarrow>
   (goerror option \<times> 's) option"
where
  "gzw_Close gz sink w s =
     (case gzw_err w of
        Some e \<Rightarrow> Some (Some e, s)
      | None \<Rightarrow>
          (let cs = gzw_chunks w
           in flush_to sink (drop (length (gz_emitted gz cs)) (gz_stream gz cs)) s))"

text \<open>\<open>Compress\<close> writes into a \<open>bytes.Buffer\<close>, which accepts everything.\<close>

definition buffer_Write :: "bytes \<Rightarrow> bytes \<Rightarrow> (goerror option \<times> bytes) option" where
  "buffer_Write p buf = Some (None, buf @ p)"

definition Compress :: "gzip_codec \<Rightarrow> bytes \<Rightarrow> goerror + bytes" where
  "Compress gz data =
     (case gzw_Write gz buffer_Write gzip_NewWriter data [] of
        None \<Rightarrow> Inl (OSErr ''blocked'')
      | Some ((n, Some e), w, buf) \<Rightarrow> Inl e
      | Some ((n, None), w, buf) \<Rightarrow>
          (case gzw_Close gz buffer_Write w buf of
             None \<Rightarrow> Inl (OSErr ''blocked'')
           | Some (Some e, buf') \<Rightarrow> Inl e
           | Some (None, buf') \<Rightarrow> Inr buf'))"

definition Decompress :: "gzip_codec \<Rightarrow> goerror + bytes \<Rightarrow> goerror + bytes" where
  "Decompress gz r = (case r of Inl e \<Rightarrow> Inl e | Inr data \<Rightarrow> gz_reader gz data)"

section \<open>The interface\<close>

text \<open>
  The methods of \<open>Blobstore\<close> and of the \<open>io.WriteCloser\<close> that \<open>Writer\<close> returns, over the state
  \<open>'st\<close> of the backend and its writers \<open>'w\<close>.  \<open>Write\<close> gives the writer back updated.  Only the
  streaming calls may block for ever.
\<close>

record ('st, 'w) Blobstore =
  op_BlobExists :: "string \<Rightarrow> 'st \<Rightarrow> (goerror + bool) \<times> 'st"
  op_ReadBlob :: "string \<Rightarrow> 'st \<Rightarrow> (goerror + bytes) \<times> 'st"
  op_WriteBlob :: "string \<Rightarrow> bytes \<Rightarrow> 'st \<Rightarrow> (goerror + int) \<times> 'st"
  op_DeleteBlob :: "string \<Rightarrow> 'st \<Rightarrow> goerror option \<times> 'st"
  op_Writer :: "string \<Rightarrow> 'st \<Rightarrow> (goerror + 'w) \<times> 'st"
  op_Write :: "'w \<Rightarrow> bytes \<Rightarrow> 'st \<Rightarrow> ((int \<times> goerror option) \<times> 'w \<times> 'st) option"
  op_Close :: "'w \<Rightarrow> 'st \<Rightarrow> (goerror option \<times> 'st) option"

section \<open>The contract\<close>

text \<open>
  What a client knows of a backend's state: an invariant, the names it keeps apart, the blobs that
  are committed, the names that are free, and the open writers with the chunks they took.  A
  writer whose \<open>Write\<close> failed is broken.
\<close>

record ('st, 'w) blob_view =
  v_inv :: "'st \<Rightarrow> bool"
  v_ok :: "string \<Rightarrow> bool"
  v_holds :: "'st \<Rightarrow> string \<Rightarrow> bytes \<Rightarrow> bool"
  v_absent :: "'st \<Rightarrow> string \<Rightarrow> bool"
  v_writing :: "'st \<Rightarrow> 'w \<Rightarrow> string \<Rightarrow> bytes list \<Rightarrow> bool"
  v_broken :: "'st \<Rightarrow> 'w \<Rightarrow> string \<Rightarrow> bool"

text \<open>An operation on the blob \<open>n\<close> keeps the invariant and all that is known of other blobs.\<close>

definition same_at :: "('st, 'w) blob_view \<Rightarrow> string \<Rightarrow> 'st \<Rightarrow> 'st \<Rightarrow> bool" where
  "same_at V m st st' \<longleftrightarrow>
     (\<forall>d. v_holds V st m d \<longrightarrow> v_holds V st' m d) \<and>
     (v_absent V st m \<longrightarrow> v_absent V st' m) \<and>
     (\<forall>w cs. v_writing V st w m cs \<longrightarrow> v_writing V st' w m cs) \<and>
     (\<forall>w. v_broken V st w m \<longrightarrow> v_broken V st' w m)"

definition kept :: "('st, 'w) blob_view \<Rightarrow> string \<Rightarrow> 'st \<Rightarrow> 'st \<Rightarrow> bool" where
  "kept V n st st' \<longleftrightarrow> v_inv V st' \<and> (\<forall>m. v_ok V m \<and> m \<noteq> n \<longrightarrow> same_at V m st st')"

locale blobstore =
  fixes bs :: "('st, 'w) Blobstore" and V :: "('st, 'w) blob_view"
  assumes exists_law:
      "v_inv V st \<Longrightarrow> v_ok V n \<Longrightarrow> op_BlobExists bs n st = (re, st') \<Longrightarrow>
       kept V n st st' \<and> same_at V n st st' \<and>
       (\<forall>d. v_holds V st n d \<longrightarrow> re \<noteq> Inr False) \<and> (v_absent V st n \<longrightarrow> re \<noteq> Inr True)"
    and read_law:
      "v_inv V st \<Longrightarrow> v_ok V n \<Longrightarrow> op_ReadBlob bs n st = (rr, st') \<Longrightarrow>
       kept V n st st' \<and>
       (\<forall>d. v_holds V st n d \<longrightarrow> v_holds V st' n d \<and> (\<forall>d'. rr = Inr d' \<longrightarrow> d' = d))"
    and write_law:
      "v_inv V st \<Longrightarrow> v_ok V n \<Longrightarrow> op_WriteBlob bs n data st = (rw, st') \<Longrightarrow>
       kept V n st st' \<and> (\<forall>k. rw = Inr k \<longrightarrow> v_holds V st' n data)"
    and delete_law:
      "v_inv V st \<Longrightarrow> v_ok V n \<Longrightarrow> op_DeleteBlob bs n st = (rd, st') \<Longrightarrow>
       kept V n st st' \<and> (rd = None \<longrightarrow> v_absent V st' n)"
    and writer_law:
      "v_inv V st \<Longrightarrow> v_ok V n \<Longrightarrow> op_Writer bs n st = (ro, st') \<Longrightarrow>
       kept V n st st' \<and> (\<forall>w. ro = Inr w \<longrightarrow> v_writing V st' w n [])"
    and stream_law:
      "v_inv V st \<Longrightarrow> v_ok V n \<Longrightarrow> v_writing V st w n cs \<Longrightarrow>
       op_Write bs w p st = Some ((k, err), w', st') \<Longrightarrow>
       kept V n st st' \<and>
       (if err = None then v_writing V st' w' n (cs @ [p]) else v_broken V st' w' n)"
    and stream_broken_law:
      "v_inv V st \<Longrightarrow> v_ok V n \<Longrightarrow> v_broken V st w n \<Longrightarrow>
       op_Write bs w p st = Some ((k, err), w', st') \<Longrightarrow>
       kept V n st st' \<and> err \<noteq> None \<and> v_broken V st' w' n"
    and close_law:
      "v_inv V st \<Longrightarrow> v_ok V n \<Longrightarrow> v_writing V st w n cs \<Longrightarrow>
       op_Close bs w st = Some (err, st') \<Longrightarrow>
       kept V n st st' \<and> (err = None \<longrightarrow> v_holds V st' n (concat cs))"
    and close_broken_law:
      "v_inv V st \<Longrightarrow> v_ok V n \<Longrightarrow> v_broken V st w n \<Longrightarrow>
       op_Close bs w st = Some (err, st') \<Longrightarrow> kept V n st st' \<and> err \<noteq> None"

text \<open>
  A backend in a state where nothing goes wrong: \<open>live\<close> is the condition under which every call
  returns without an error, and it stays.
\<close>

locale reliable_blobstore = blobstore bs V
  for bs :: "('st, 'w) Blobstore" and V :: "('st, 'w) blob_view" +
  fixes live :: "'st \<Rightarrow> bool"
  assumes live_exists:
      "v_inv V st \<Longrightarrow> live st \<Longrightarrow> v_ok V n \<Longrightarrow>
       \<exists>b st'. op_BlobExists bs n st = (Inr b, st') \<and> live st'"
    and live_read:
      "v_inv V st \<Longrightarrow> live st \<Longrightarrow> v_ok V n \<Longrightarrow> v_holds V st n d \<Longrightarrow>
       \<exists>st'. op_ReadBlob bs n st = (Inr d, st') \<and> live st'"
    and live_writer:
      "v_inv V st \<Longrightarrow> live st \<Longrightarrow> v_ok V n \<Longrightarrow>
       \<exists>w st'. op_Writer bs n st = (Inr w, st') \<and> live st'"
    and live_stream:
      "v_inv V st \<Longrightarrow> live st \<Longrightarrow> v_ok V n \<Longrightarrow> v_writing V st w n cs \<Longrightarrow>
       \<exists>k w' st'. op_Write bs w p st = Some ((k, None), w', st') \<and> live st'"
    and live_close:
      "v_inv V st \<Longrightarrow> live st \<Longrightarrow> v_ok V n \<Longrightarrow> v_writing V st w n cs \<Longrightarrow>
       \<exists>st'. op_Close bs w st = Some (None, st') \<and> live st'"

section \<open>Lemmas\<close>

lemma same_at_refl [simp, intro]: "same_at V m st st"
  by (simp add: same_at_def)

lemma same_at_trans: "same_at V m st st' \<Longrightarrow> same_at V m st' st'' \<Longrightarrow> same_at V m st st''"
  by (auto simp: same_at_def)

lemma kept_inv: "kept V n st st' \<Longrightarrow> v_inv V st'"
  by (simp add: kept_def)

lemma kept_other: "kept V n st st' \<Longrightarrow> v_ok V m \<Longrightarrow> m \<noteq> n \<Longrightarrow> same_at V m st st'"
  by (simp add: kept_def)

lemma kept_refl: "v_inv V st \<Longrightarrow> kept V n st st"
  by (simp add: kept_def)

lemma kept_trans: "kept V n st st' \<Longrightarrow> kept V n st' st'' \<Longrightarrow> kept V n st st''"
  by (auto simp: kept_def intro: same_at_trans)

lemma prefix_drop_append: "prefix a b \<Longrightarrow> a @ drop (length a) b = b"
  by (auto simp: prefix_def)

lemma emitted_prefix:
  assumes "gzip_lawful gz"
  shows "gz_emitted gz cs @ drop (length (gz_emitted gz cs)) (gz_emitted gz (cs @ [c])) =
      gz_emitted gz (cs @ [c])"
    and "gz_emitted gz cs @ drop (length (gz_emitted gz cs)) (gz_stream gz cs) = gz_stream gz cs"
  using assms by (auto simp: gzip_lawful_def strict_prefix_def intro!: prefix_drop_append)

lemma emitted_unreadable: "gzip_lawful gz \<Longrightarrow> gz_reader gz (gz_emitted gz cs) \<noteq> Inr d"
  by (auto simp: gzip_lawful_def) (metis Inl_Inr_False)

lemma gzip_lawful_simps:
  assumes "gzip_lawful gz"
  shows "gz_emitted gz [] = []" "gz_reader gz (gz_stream gz cs) = Inr (concat cs)"
    and "strict_prefix b (gz_stream gz cs) \<Longrightarrow> gz_reader gz b \<noteq> Inr d"
  using assms by (auto simp: gzip_lawful_def) (metis Inl_Inr_False)

text \<open>Compressing gives the stream of one chunk, and what was compressed decompresses again.\<close>

lemma Compress_stream: "gzip_lawful gz \<Longrightarrow> Compress gz data = Inr (gz_stream gz [data])"
  using emitted_prefix(2) [of gz "[data]"]
  by (auto simp: Compress_def gzw_Write_def gzw_Close_def gzip_NewWriter_def flush_to_def
      buffer_Write_def Let_def gzip_lawful_def)

section \<open>A codec that meets the documented behaviour\<close>

text \<open>
  Every byte is marked by a byte 1, the end of the stream by a byte 0.  It shows that the
  assumptions on the compressor can be met, and gives the examples something to run.
\<close>

fun sample_read :: "bytes \<Rightarrow> goerror + bytes" where
  "sample_read (m # b # r) =
     (if m = CHR 0x01 then (case sample_read r of Inl e \<Rightarrow> Inl e | Inr d \<Rightarrow> Inr (b # d))
      else Inl (Errorf ''gzip: invalid header'' []))"
| "sample_read [m] = (if m = CHR 0x00 then Inr [] else Inl (Errorf ''unexpected EOF'' []))"
| "sample_read [] = Inl (Errorf ''unexpected EOF'' [])"

definition sample_marked :: "bytes \<Rightarrow> bytes" where
  "sample_marked d = concat (map (\<lambda>b. [CHR 0x01, b]) d)"

definition sample_gzip :: gzip_codec where
  "sample_gzip =
     \<lparr>gz_emitted = (\<lambda>cs. sample_marked (concat cs)),
      gz_stream = (\<lambda>cs. sample_marked (concat cs) @ [CHR 0x00]), gz_reader = sample_read\<rparr>"

lemma sample_read_marked: "sample_read (sample_marked d @ [CHR 0x00]) = Inr d"
  by (induction d) (auto simp: sample_marked_def)

lemma sample_read_truncated:
  "strict_prefix b (sample_marked d @ [CHR 0x00]) \<Longrightarrow> \<exists>e. sample_read b = Inl e"
proof (induction d arbitrary: b)
  case Nil
  then have "b = []" by (cases b) (auto simp: sample_marked_def strict_prefix_def)
  then show ?case by simp
next
  case (Cons x d)
  then have p: "strict_prefix b (CHR 0x01 # x # sample_marked d @ [CHR 0x00])"
    by (simp add: sample_marked_def)
  show ?case
  proof (cases b rule: sample_read.cases)
    case (1 m y r)
    with p have "m = CHR 0x01" "strict_prefix r (sample_marked d @ [CHR 0x00])"
      by (auto simp: strict_prefix_def)
    with Cons.IH [of r] 1 show ?thesis by auto
  qed (use p in \<open>auto simp: strict_prefix_def\<close>)
qed

lemma sample_gzip_lawful: "gzip_lawful sample_gzip"
  using sample_read_marked sample_read_truncated
  by (auto simp: gzip_lawful_def sample_gzip_def sample_marked_def strict_prefix_def)

end
