(* ===== verification/OsFs.thy ===== *)
theory OsFs
  imports Prelude
begin

text \<open>
  The parts of Go's \<open>os\<close> and \<open>path/filepath\<close> packages that the sources call: lexical path
  cleaning, and a file system of directories and regular files with the calls that open, write,
  close, read, stat, remove and list files.  A file is an inode, so that a handle keeps writing to
  its file after the name is gone.  Every system call may fail: the file system carries the list
  of faults its next calls meet, and a failing write still writes the bytes the fault allows.
\<close>

section \<open>Paths\<close>

text \<open>\<open>filepath.Clean\<close> on Unix: the elements that are left after resolving \<open>.\<close> and \<open>..\<close>.\<close>

definition dot :: string where "dot = ''.''"

definition dotdot :: string where "dotdot = ''..''"

definition slash :: char where "slash = CHR ''/''"

definition path_elems :: "string \<Rightarrow> string list" where
  "path_elems s = filter (\<lambda>e. e \<noteq> [] \<and> e \<noteq> dot) (Split s slash)"

definition rooted :: "string \<Rightarrow> bool" where
  "rooted s \<longleftrightarrow> s \<noteq> [] \<and> hd s = slash"

definition clean_step :: "bool \<Rightarrow> string \<Rightarrow> string list \<Rightarrow> string list" where
  "clean_step isroot e stack =
     (if e = dotdot then
        (if stack \<noteq> [] \<and> last stack \<noteq> dotdot then butlast stack
         else if isroot then stack else stack @ [e])
      else stack @ [e])"

definition clean_elems :: "string \<Rightarrow> string list" where
  "clean_elems s = fold (clean_step (rooted s)) (path_elems s) []"

definition render_path :: "bool \<Rightarrow> string list \<Rightarrow> string" where
  "render_path isroot es =
     (if isroot then slash # Join es [slash] else if es = [] then dot else Join es [slash])"

definition Clean :: "string \<Rightarrow> string" where
  "Clean s = render_path (rooted s) (clean_elems s)"

text \<open>\<open>filepath.Join\<close> of two elements: a leading empty element is ignored.\<close>

definition filepath_Join :: "string \<Rightarrow> string \<Rightarrow> string" where
  "filepath_Join a b =
     (if a = [] then (if b = [] then [] else Clean b) else Clean (a @ slash # b))"

text \<open>The directory that holds a cleaned path.\<close>

definition parent_dir :: "string \<Rightarrow> string" where
  "parent_dir p = render_path (rooted p) (butlast (path_elems p))"

section \<open>The file system\<close>

type_synonym fault = "goerror \<times> nat"

record osfile =
  f_data :: bytes
  f_mtime :: gotime

record osfs =
  os_names :: "(string \<times> nat) list"
  os_inodes :: "nat \<Rightarrow> osfile"
  os_next :: nat
  os_dirs :: "string list"
  os_clock :: gotime
  os_faults :: "fault option list"

definition inode_of :: "osfs \<Rightarrow> string \<Rightarrow> nat option" where
  "inode_of fs p = map_of (os_names fs) p"

definition file_at :: "osfs \<Rightarrow> string \<Rightarrow> bytes option" where
  "file_at fs p = map_option (\<lambda>i. f_data (os_inodes fs i)) (inode_of fs p)"

text \<open>Each system call takes the next fault.\<close>

definition next_fault :: "osfs \<Rightarrow> fault option" where
  "next_fault fs = (case os_faults fs of [] \<Rightarrow> None | f # _ \<Rightarrow> f)"

definition tick :: "osfs \<Rightarrow> osfs" where
  "tick fs = fs\<lparr>os_faults := tl (os_faults fs)\<rparr>"

definition set_file :: "nat \<Rightarrow> bytes \<Rightarrow> osfs \<Rightarrow> osfs" where
  "set_file i d fs =
     fs\<lparr>os_inodes := (os_inodes fs)(i := \<lparr>f_data = d, f_mtime = os_clock fs\<rparr>)\<rparr>"

text \<open>\<open>open\<close> with \<open>O_CREATE|O_WRONLY|O_TRUNC\<close>.\<close>

definition sys_open_trunc :: "string \<Rightarrow> osfs \<Rightarrow> (goerror + nat) \<times> osfs" where
  "sys_open_trunc p fs =
     (case next_fault fs of
        Some (e, _) \<Rightarrow> (Inl e, tick fs)
      | None \<Rightarrow>
          if p \<in> set (os_dirs fs) then (Inl (OSErr ''is a directory''), tick fs)
          else if parent_dir p \<notin> set (os_dirs fs)
          then (Inl (NotExistErr ''no such file or directory''), tick fs)
          else (case inode_of fs p of
            Some i \<Rightarrow> (Inr i, set_file i [] (tick fs))
          | None \<Rightarrow>
              (Inr (os_next fs),
               (set_file (os_next fs) [] (tick fs))
                 \<lparr>os_names := (p, os_next fs) # os_names fs, os_next := Suc (os_next fs)\<rparr>)))"

text \<open>Writing at an offset; a gap is filled with zero bytes.\<close>

definition write_at :: "nat \<Rightarrow> bytes \<Rightarrow> bytes \<Rightarrow> bytes" where
  "write_at off d old =
     take off old @ replicate (off - length old) (CHR 0x00) @ d @ drop (off + length d) old"

definition sys_write :: "nat \<Rightarrow> nat \<Rightarrow> bytes \<Rightarrow> osfs \<Rightarrow> (nat \<times> goerror option) \<times> osfs" where
  "sys_write i off d fs =
     (case next_fault fs of
        Some (e, k) \<Rightarrow>
          ((min k (length d), Some e),
           set_file i (write_at off (take k d) (f_data (os_inodes fs i))) (tick fs))
      | None \<Rightarrow>
          ((length d, None), set_file i (write_at off d (f_data (os_inodes fs i))) (tick fs)))"

definition sys_close :: "osfs \<Rightarrow> goerror option \<times> osfs" where
  "sys_close fs = (map_option fst (next_fault fs), tick fs)"

text \<open>\<open>os.WriteFile\<close>: open, write, and close whether or not the write failed.\<close>

definition os_WriteFile :: "string \<Rightarrow> bytes \<Rightarrow> osfs \<Rightarrow> goerror option \<times> osfs" where
  "os_WriteFile p d fs =
     (case sys_open_trunc p fs of
        (Inl e, fs1) \<Rightarrow> (Some e, fs1)
      | (Inr i, fs1) \<Rightarrow>
          (let ((n, err), fs2) = sys_write i 0 d fs1;
               (cerr, fs3) = sys_close fs2
           in (case err of Some e \<Rightarrow> Some e | None \<Rightarrow> cerr, fs3)))"

definition os_ReadFile :: "string \<Rightarrow> osfs \<Rightarrow> (goerror + bytes) \<times> osfs" where
  "os_ReadFile p fs =
     (case next_fault fs of
        Some (e, _) \<Rightarrow> (Inl e, tick fs)
      | None \<Rightarrow>
          (case file_at fs p of
             Some d \<Rightarrow> (Inr d, tick fs)
           | None \<Rightarrow>
               if p \<in> set (os_dirs fs) then (Inl (OSErr ''is a directory''), tick fs)
               else (Inl (NotExistErr ''no such file or directory''), tick fs)))"

text \<open>\<open>os.Remove\<close> removes a file or an empty directory.\<close>

definition os_Remove :: "string \<Rightarrow> osfs \<Rightarrow> goerror option \<times> osfs" where
  "os_Remove p fs =
     (case next_fault fs of
        Some (e, _) \<Rightarrow> (Some e, tick fs)
      | None \<Rightarrow>
          if inode_of fs p \<noteq> None
          then (None, (tick fs)\<lparr>os_names := filter (\<lambda>(q, i). q \<noteq> p) (os_names fs)\<rparr>)
          else if p \<in> set (os_dirs fs) then
            (if (\<exists>q \<in> set (map fst (os_names fs) @ os_dirs fs). q \<noteq> p \<and> parent_dir q = p)
             then (Some (OSErr ''directory not empty''), tick fs)
             else (None, (tick fs)\<lparr>os_dirs := removeAll p (os_dirs fs)\<rparr>))
          else (Some (NotExistErr ''no such file or directory''), tick fs))"

definition os_Stat :: "string \<Rightarrow> osfs \<Rightarrow> goerror option \<times> osfs" where
  "os_Stat p fs =
     (case next_fault fs of
        Some (e, _) \<Rightarrow> (Some e, tick fs)
      | None \<Rightarrow>
          if inode_of fs p \<noteq> None \<or> p \<in> set (os_dirs fs) then (None, tick fs)
          else (Some (NotExistErr ''no such file or directory''), tick fs))"

text \<open>
  \<open>os.MkdirAll\<close>: creates the missing directories along the path, and fails when one of them is
  the name of a file.
\<close>

definition dirs_to :: "string \<Rightarrow> string list" where
  "dirs_to p =
     map (\<lambda>k. render_path (rooted p) (take k (path_elems p))) [0..<Suc (length (path_elems p))]"

definition os_MkdirAll :: "string \<Rightarrow> osfs \<Rightarrow> goerror option \<times> osfs" where
  "os_MkdirAll p fs =
     (case next_fault fs of
        Some (e, _) \<Rightarrow> (Some e, tick fs)
      | None \<Rightarrow>
          if p = [] then (Some (NotExistErr ''no such file or directory''), tick fs)
          else if (\<exists>q \<in> set (dirs_to (Clean p)). inode_of fs q \<noteq> None)
          then (Some (OSErr ''not a directory''), tick fs)
          else (None, (tick fs)\<lparr>os_dirs :=
                 os_dirs fs @ filter (\<lambda>q. q \<notin> set (os_dirs fs)) (dirs_to (Clean p))\<rparr>))"

text \<open>
  \<open>os.ReadDir\<close> lists a directory sorted by name, and \<open>DirEntry.Info\<close> stats an entry of it: the
  result is its size and modification time.
\<close>

definition path_base :: "string \<Rightarrow> string" where
  "path_base p = (if path_elems p = [] then p else last (path_elems p))"

definition files_in :: "osfs \<Rightarrow> string \<Rightarrow> string list" where
  "files_in fs d = filter (\<lambda>p. path_elems p \<noteq> [] \<and> parent_dir p = Clean d) (map fst (os_names fs))"

definition dirs_in :: "osfs \<Rightarrow> string \<Rightarrow> string list" where
  "dirs_in fs d = filter (\<lambda>p. path_elems p \<noteq> [] \<and> parent_dir p = Clean d) (os_dirs fs)"

record dirent =
  de_Name :: string
  de_IsDir :: bool

definition os_ReadDir :: "string \<Rightarrow> osfs \<Rightarrow> (goerror + dirent list) \<times> osfs" where
  "os_ReadDir d fs =
     (case next_fault fs of
        Some (e, _) \<Rightarrow> (Inl e, tick fs)
      | None \<Rightarrow>
          if Clean d \<notin> set (os_dirs fs)
          then (Inl (NotExistErr ''no such file or directory''), tick fs)
          else (Inr (sort_key de_Name
                 (map (\<lambda>p. \<lparr>de_Name = path_base p, de_IsDir = False\<rparr>) (files_in fs d) @
                  map (\<lambda>p. \<lparr>de_Name = path_base p, de_IsDir = True\<rparr>) (dirs_in fs d))), tick fs))"

definition os_Info :: "string \<Rightarrow> osfs \<Rightarrow> (goerror + int \<times> gotime) \<times> osfs" where
  "os_Info p fs =
     (case next_fault fs of
        Some (e, _) \<Rightarrow> (Inl e, tick fs)
      | None \<Rightarrow>
          (case inode_of fs p of
             Some i \<Rightarrow>
               (Inr (int (length (f_data (os_inodes fs i))), f_mtime (os_inodes fs i)), tick fs)
           | None \<Rightarrow>
               if p \<in> set (os_dirs fs) then (Inr (0, 0), tick fs)
               else (Inl (NotExistErr ''no such file or directory''), tick fs)))"

section \<open>Lemmas on paths\<close>

lemma Split_append_sep: "Split (a @ sep # b) sep = Split a sep @ Split b sep"
  by (induction a) (auto split: list.splits)

lemma sublist_of_Split: "w \<in> set (Split s sep) \<Longrightarrow> sublist w s"
proof (induction s arbitrary: w)
  case (Cons c s)
  obtain v vs where v: "Split s sep = v # vs" by (cases "Split s sep") auto
  obtain us where us: "s = v @ us"
    using Join_Split [of s sep] v by (cases vs) auto
  have "sublist v s" using Cons.IH v by simp
  with Cons v us show ?case
    by (auto split: if_splits simp: sublist_Cons_right intro: prefixI)
qed simp

definition path_elem :: "string \<Rightarrow> bool" where
  "path_elem e \<longleftrightarrow> e \<noteq> [] \<and> e \<noteq> dot \<and> slash \<notin> set e"

lemma path_elem_elems: "e \<in> set (path_elems s) \<Longrightarrow> path_elem e"
  by (auto simp: path_elems_def path_elem_def dest: Split_no_sep)

lemma path_elems_append: "path_elems (a @ slash # b) = path_elems a @ path_elems b"
  by (simp add: path_elems_def Split_append_sep)

lemma path_elems_simple: "path_elem e \<Longrightarrow> path_elems e = [e]"
  by (simp add: path_elems_def path_elem_def Split_id)

lemma path_elems_Nil [simp]: "path_elems [] = []"
  by (simp add: path_elems_def)

lemma path_elems_dot: "path_elems dot = []"
  by (simp add: path_elems_def dot_def slash_def)

lemma path_elems_Join: "\<forall>e \<in> set es. path_elem e \<Longrightarrow> path_elems (Join es [slash]) = es"
proof (induction es)
  case (Cons e es)
  then show ?case
    by (cases "es = []") (auto simp: Join_Cons path_elems_append path_elems_simple)
qed simp

lemma path_elems_render [simp]:
  "\<forall>e \<in> set es. path_elem e \<Longrightarrow> path_elems (render_path r es) = es"
  using path_elems_append [of "[]" "Join es [slash]"] path_elems_Join [of es] path_elems_dot
  by (simp add: render_path_def)

lemma rooted_Join: "\<forall>e \<in> set es. path_elem e \<Longrightarrow> \<not> rooted (Join es [slash])"
  by (cases es rule: list.exhaust; cases "tl es")
    (auto simp: rooted_def path_elem_def hd_append dest: hd_in_set)

lemma rooted_render [simp]: "\<forall>e \<in> set es. path_elem e \<Longrightarrow> rooted (render_path r es) = r"
  using rooted_Join [of es] by (auto simp: render_path_def rooted_def dot_def slash_def)

lemma set_clean_steps: "set (fold (clean_step r) es st) \<subseteq> set es \<union> set st"
proof (induction es arbitrary: st)
  case (Cons e es)
  have "set (clean_step r e st) \<subseteq> insert e (set st)"
    by (auto simp: clean_step_def dest: in_set_butlastD)
  then show ?case using Cons [of "clean_step r e st"] by auto
qed simp

lemma path_elem_clean: "e \<in> set (clean_elems s) \<Longrightarrow> path_elem e"
  using set_clean_steps [of "rooted s" "path_elems s" "[]"] path_elem_elems
  by (auto simp: clean_elems_def)

lemma path_elems_Clean [simp]: "path_elems (Clean s) = clean_elems s"
  by (simp add: Clean_def path_elem_clean)

lemma rooted_Clean [simp]: "rooted (Clean s) = rooted s"
  by (simp add: Clean_def path_elem_clean)

lemma clean_steps_no_dotdot: "dotdot \<notin> set es \<Longrightarrow> fold (clean_step r) es st = st @ es"
  by (induction es arbitrary: st) (auto simp: clean_step_def)

lemma clean_elems_append:
  assumes "a \<noteq> []" and "dotdot \<notin> set (path_elems b)"
  shows "clean_elems (a @ slash # b) = clean_elems a @ path_elems b"
  using assms by (simp add: clean_elems_def path_elems_append rooted_def clean_steps_no_dotdot)

lemma rooted_append: "a \<noteq> [] \<Longrightarrow> rooted (a @ b) = rooted a"
  by (simp add: rooted_def)

lemma no_dotdot_elems: "\<not> Contains s dotdot \<Longrightarrow> dotdot \<notin> set (path_elems s)"
  by (auto simp: path_elems_def Contains_def dest: sublist_of_Split)

lemma render_path_inj:
  "\<forall>e \<in> set es. path_elem e \<Longrightarrow> \<forall>e \<in> set es'. path_elem e \<Longrightarrow>
   render_path r es = render_path r es' \<longleftrightarrow> es = es'"
  by (metis path_elems_render)

section \<open>Lemmas on the file system\<close>

text \<open>
  Every name is a cleaned path with an inode of its own, allocated below \<open>os_next\<close>, no name is a
  directory, and no fault claims that a file is missing.
\<close>

definition normal_path :: "string \<Rightarrow> bool" where
  "normal_path p \<longleftrightarrow> p = render_path (rooted p) (path_elems p) \<and> path_elems p \<noteq> [] \<and>
     last (path_elems p) \<noteq> dotdot"

definition fs_ok :: "osfs \<Rightarrow> bool" where
  "fs_ok fs \<longleftrightarrow> distinct (map fst (os_names fs)) \<and> distinct (map snd (os_names fs)) \<and>
     (\<forall>(p, i) \<in> set (os_names fs). i < os_next fs \<and> p \<notin> set (os_dirs fs) \<and> normal_path p) \<and>
     (\<forall>f \<in> set (os_faults fs). \<forall>e k. f = Some (e, k) \<longrightarrow> \<not> IsNotExist e)"

lemma tick_simps [simp]:
  "os_names (tick fs) = os_names fs" "os_inodes (tick fs) = os_inodes fs"
  "os_next (tick fs) = os_next fs" "os_dirs (tick fs) = os_dirs fs"
  "inode_of (tick fs) p = inode_of fs p" "file_at (tick fs) p = file_at fs p"
  by (simp_all add: tick_def inode_of_def file_at_def)

lemma fs_ok_tick [simp]: "fs_ok fs \<Longrightarrow> fs_ok (tick fs)"
  by (cases "os_faults fs") (auto simp: fs_ok_def tick_def)

lemma next_fault_ok: "fs_ok fs \<Longrightarrow> next_fault fs = Some (e, k) \<Longrightarrow> \<not> IsNotExist e"
  by (auto simp: fs_ok_def next_fault_def split: list.splits)

lemma set_file_simps [simp]:
  "os_names (set_file i d fs) = os_names fs" "os_next (set_file i d fs) = os_next fs"
  "os_dirs (set_file i d fs) = os_dirs fs" "inode_of (set_file i d fs) p = inode_of fs p"
  "fs_ok (set_file i d fs) = fs_ok fs"
  "f_data (os_inodes (set_file i d fs) j) = (if j = i then d else f_data (os_inodes fs j))"
  by (simp_all add: set_file_def inode_of_def fs_ok_def)

lemma inode_of_less: "fs_ok fs \<Longrightarrow> inode_of fs p = Some i \<Longrightarrow> i < os_next fs"
  by (fastforce simp: fs_ok_def inode_of_def dest: map_of_SomeD)

lemma inode_of_inj:
  assumes "fs_ok fs" "inode_of fs p = Some i" "inode_of fs q = Some i"
  shows "p = q"
proof -
  from assms have "(p, i) \<in> set (os_names fs)" "(q, i) \<in> set (os_names fs)"
    by (auto simp: inode_of_def dest: map_of_SomeD)
  moreover from assms(1) have "inj_on snd (set (os_names fs))"
    by (simp add: fs_ok_def distinct_map)
  ultimately show ?thesis using inj_onD [of snd "set (os_names fs)" "(p, i)" "(q, i)"] by simp
qed

lemma write_at_end [simp]: "write_at (length old) d old = old @ d"
  by (simp add: write_at_def)

lemma write_at_0_Nil [simp]: "write_at 0 d [] = d"
  by (simp add: write_at_def)

text \<open>A call that touches at most the name \<open>p\<close>.\<close>

definition only_at :: "string \<Rightarrow> osfs \<Rightarrow> osfs \<Rightarrow> bool" where
  "only_at p fs fs' \<longleftrightarrow> fs_ok fs' \<and> os_next fs \<le> os_next fs' \<and>
     (\<forall>i. inode_of fs' p = Some i \<longrightarrow> inode_of fs p = Some i \<or> os_next fs \<le> i) \<and>
     (\<forall>q. q \<noteq> p \<longrightarrow> inode_of fs' q = inode_of fs q \<and>
        (q \<in> set (os_dirs fs') \<longleftrightarrow> q \<in> set (os_dirs fs)) \<and>
        (\<forall>i. inode_of fs q = Some i \<longrightarrow> f_data (os_inodes fs' i) = f_data (os_inodes fs i)))"

lemma only_at_refl: "fs_ok fs \<Longrightarrow> only_at p fs fs"
  by (simp add: only_at_def)

lemma only_at_trans: "only_at p fs fs' \<Longrightarrow> only_at p fs' fs'' \<Longrightarrow> only_at p fs fs''"
proof -
  assume a: "only_at p fs fs'" "only_at p fs' fs''"
  then have "inode_of fs p = Some i \<or> os_next fs \<le> i" if "inode_of fs'' p = Some i" for i
    using that unfolding only_at_def by (metis le_trans)
  with a show ?thesis by (auto simp: only_at_def)
qed

lemma only_at_file: "only_at p fs fs' \<Longrightarrow> q \<noteq> p \<Longrightarrow> file_at fs' q = file_at fs q"
  by (cases "inode_of fs q") (auto simp: only_at_def file_at_def)

lemma only_at_tick: "fs_ok fs \<Longrightarrow> only_at p fs (tick fs)"
  by (simp add: only_at_def)

lemma only_at_set_file:
  "fs_ok fs \<Longrightarrow> inode_of fs p = Some i \<Longrightarrow> only_at p fs (set_file i d (tick fs))"
  by (auto simp: only_at_def dest: inode_of_inj)

lemma sys_open_trunc_at:
  assumes "fs_ok fs" "normal_path p" "sys_open_trunc p fs = (r, fs')"
  shows "only_at p fs fs'"
    and "r = Inr i \<Longrightarrow> inode_of fs' p = Some i \<and> f_data (os_inodes fs' i) = []"
proof -
  let ?new = "(set_file (os_next fs) [] (tick fs))
    \<lparr>os_names := (p, os_next fs) # os_names fs, os_next := Suc (os_next fs)\<rparr>"
  have ok: "fs_ok ?new" if "inode_of fs p = None" "p \<notin> set (os_dirs fs)"
    using fs_ok_tick [OF assms(1)] that assms(2)
    by (fastforce simp: fs_ok_def inode_of_def map_of_eq_None_iff set_file_def)
  have new: "only_at p fs ?new" if "inode_of fs p = None" "p \<notin> set (os_dirs fs)"
    using ok [OF that] inode_of_less [OF assms(1)]
    by (fastforce simp: only_at_def inode_of_def set_file_def)
  show "only_at p fs fs'"
    using assms new
    by (auto simp: sys_open_trunc_def intro: only_at_tick only_at_set_file
        split: option.splits if_splits)
  show "r = Inr i \<Longrightarrow> inode_of fs' p = Some i \<and> f_data (os_inodes fs' i) = []"
    using assms
    by (auto simp: sys_open_trunc_def inode_of_def set_file_def split: option.splits if_splits)
qed

lemma sys_write_at:
  assumes "fs_ok fs" "inode_of fs p = Some i" "sys_write i off d fs = ((n, err), fs')"
  shows "only_at p fs fs'" "inode_of fs' p = Some i"
    and "f_data (os_inodes fs' i) = write_at off (take n d) (f_data (os_inodes fs i))"
    and "err = None \<Longrightarrow> n = length d"
  using assms
  by (auto simp: sys_write_def only_at_set_file min_def split: option.splits)

lemma sys_close_at: "fs_ok fs \<Longrightarrow> sys_close fs = (r, fs') \<Longrightarrow> only_at p fs fs' \<and> fs' = tick fs"
  by (auto simp: sys_close_def only_at_tick)

lemma os_WriteFile_at:
  assumes "fs_ok fs" "normal_path p" "os_WriteFile p d fs = (r, fs')"
  shows "only_at p fs fs'" and "r = None \<Longrightarrow> file_at fs' p = Some d"
proof -
  obtain ro fs1 where o: "sys_open_trunc p fs = (ro, fs1)" by force
  note at1 = sys_open_trunc_at [OF assms(1,2) o]
  have "only_at p fs fs' \<and> (r = None \<longrightarrow> file_at fs' p = Some d)"
  proof (cases ro)
    case (Inl e)
    with assms(3) o at1 show ?thesis by (auto simp: os_WriteFile_def)
  next
    case (Inr i)
    obtain n err fs2 where w: "sys_write i 0 d fs1 = ((n, err), fs2)" by (metis surj_pair)
    obtain cerr fs3 where c: "sys_close fs2 = (cerr, fs3)" by force
    have i: "fs_ok fs1" "inode_of fs1 p = Some i" "f_data (os_inodes fs1 i) = []"
      using at1 Inr by (auto simp: only_at_def)
    note at2 = sys_write_at [OF i(1,2) w]
    then have "fs_ok fs2" by (simp add: only_at_def)
    note at3 = sys_close_at [OF this c, of p]
    have "fs' = fs3" "r = None \<Longrightarrow> err = None"
      using assms(3) o Inr w c by (auto simp: os_WriteFile_def split: option.splits)
    with at1(1) at2 at3 i(3) show ?thesis
      by (auto simp: file_at_def intro: only_at_trans)
  qed
  then show "only_at p fs fs'" "r = None \<Longrightarrow> file_at fs' p = Some d" by auto
qed

lemma map_of_drop_key:
  "map_of (filter (\<lambda>(q, i). q \<noteq> p) xs) q = (if q = p then None else map_of xs q)"
  by (induction xs) auto

lemma os_Remove_at:
  assumes "fs_ok fs" "os_Remove p fs = (r, fs')"
  shows "only_at p fs fs'"
    and "r = None \<or> (\<exists>e. r = Some e \<and> IsNotExist e) \<Longrightarrow>
      inode_of fs' p = None \<and> p \<notin> set (os_dirs fs')"
proof -
  let ?new = "(tick fs)\<lparr>os_names := filter (\<lambda>(q, i). q \<noteq> p) (os_names fs)\<rparr>"
  have n: "inode_of ?new q = (if q = p then None else inode_of fs q)" for q
    by (simp add: inode_of_def map_of_drop_key)
  have ok: "fs_ok ?new"
    using fs_ok_tick [OF assms(1)] by (auto simp: fs_ok_def distinct_map_filter)
  have dirs: "fs_ok ((tick fs)\<lparr>os_dirs := removeAll p (os_dirs fs)\<rparr>)"
    using fs_ok_tick [OF assms(1)] by (auto simp: fs_ok_def)
  have isfile: "inode_of fs p = Some i \<Longrightarrow> p \<notin> set (os_dirs fs)" for i
    using assms(1) by (auto simp: fs_ok_def inode_of_def dest!: map_of_SomeD)
  show "only_at p fs fs'"
    using assms n ok dirs
    by (auto simp: os_Remove_def only_at_def inode_of_def split: option.splits if_splits)
  show "r = None \<or> (\<exists>e. r = Some e \<and> IsNotExist e) \<Longrightarrow>
      inode_of fs' p = None \<and> p \<notin> set (os_dirs fs')"
    using assms(2) n next_fault_ok [OF assms(1)] isfile
    by (auto simp: os_Remove_def inode_of_def split: option.splits if_splits)
qed

text \<open>Writing to a file without a name.\<close>

definition orphan :: "osfs \<Rightarrow> nat \<Rightarrow> bool" where
  "orphan fs i \<longleftrightarrow> i < os_next fs \<and> (\<forall>q. inode_of fs q \<noteq> Some i)"

lemma orphan_write:
  assumes "fs_ok fs" "orphan fs i" "sys_write i off d fs = (r, fs')"
  shows "only_at p fs fs' \<and> orphan fs' i \<and> inode_of fs' = inode_of fs"
  using assms
  by (auto simp: sys_write_def only_at_def orphan_def split: option.splits)

text \<open>A file in a directory is found under the directory's path and its own name.\<close>

lemma normal_path_in_dir:
  assumes "normal_path p" "parent_dir p = Clean d" "d \<noteq> []"
  shows "filepath_Join d (path_base p) = p"
proof -
  let ?es = "path_elems p"
  have es: "?es \<noteq> []" "last ?es \<noteq> dotdot" "p = render_path (rooted p) ?es"
    using assms(1) by (auto simp: normal_path_def)
  have bl: "\<forall>e \<in> set (butlast ?es). path_elem e" "path_elem (last ?es)"
    using path_elem_elems [of _ p] es(1) last_in_set [of ?es] by (auto dest: in_set_butlastD)
  have "butlast ?es = clean_elems d" "rooted p = rooted d"
    using arg_cong [OF assms(2), of path_elems] arg_cong [OF assms(2), of rooted] bl(1)
    by (simp_all add: parent_dir_def)
  moreover have "path_elems (path_base p) = [last ?es]"
    using bl(2) es(1) by (simp add: path_base_def path_elems_simple)
  ultimately show ?thesis
    using es assms(3) clean_elems_append [of d "path_base p"]
    by (simp add: filepath_Join_def Clean_def rooted_append) (metis append_butlast_last_id)
qed

end
