(* ===== verification/Disk.thy ===== *)
theory Disk
  imports Blobstore OsFs
begin

text \<open>
  The local disk backend, \<open>src/blobstore/disk/disk.go\<close> and \<open>src/blobstore/disk/writer.go\<close>, over
  the file system of \<open>OsFs\<close>.  It never leaves its root directory, and it meets the contract
  \<open>blobstore\<close>.
\<close>

section \<open>Operations\<close>

text \<open>The receiver \<open>BlobStore\<close> is its \<open>rootDir\<close>.\<close>

definition disk_New :: "string \<Rightarrow> osfs \<Rightarrow> (goerror + string) \<times> osfs" where
  "disk_New rootDir fs =
     (case os_MkdirAll rootDir fs of
        (Some e, fs') \<Rightarrow> (Inl (WrapErr ''create root dir'' [] e), fs')
      | (None, fs') \<Rightarrow> (Inr rootDir, fs'))"

definition blobPath :: "string \<Rightarrow> string \<Rightarrow> goerror + string" where
  "blobPath rootDir blobName =
     (if Contains blobName ''..''
      then Inl (Errorf ''blobName (%s) must not contain ../'' [blobName])
      else Inr (filepath_Join rootDir blobName))"

definition disk_WriteBlob ::
  "gzip_codec \<Rightarrow> string \<Rightarrow> string \<Rightarrow> bytes \<Rightarrow> osfs \<Rightarrow> (goerror + int) \<times> osfs"
where
  "disk_WriteBlob gz rootDir blobName data fs =
     (case blobPath rootDir blobName of
        Inl e \<Rightarrow> (Inl e, fs)
      | Inr path \<Rightarrow>
          (case Compress gz data of
             Inl e \<Rightarrow> (Inl e, fs)
           | Inr compressed \<Rightarrow>
               (case os_WriteFile path compressed fs of
                  (Some e, fs') \<Rightarrow> (Inl e, fs')
                | (None, fs') \<Rightarrow> (Inr (int (length compressed)), fs'))))"

definition disk_ReadBlob ::
  "gzip_codec \<Rightarrow> string \<Rightarrow> string \<Rightarrow> osfs \<Rightarrow> (goerror + bytes) \<times> osfs"
where
  "disk_ReadBlob gz rootDir blobName fs =
     (case blobPath rootDir blobName of
        Inl e \<Rightarrow> (Inl e, fs)
      | Inr path \<Rightarrow> (case os_ReadFile path fs of (b, fs') \<Rightarrow> (Decompress gz b, fs')))"

definition disk_DeleteBlob :: "string \<Rightarrow> string \<Rightarrow> osfs \<Rightarrow> goerror option \<times> osfs" where
  "disk_DeleteBlob rootDir blobName fs =
     (case blobPath rootDir blobName of
        Inl e \<Rightarrow> (Some e, fs)
      | Inr path \<Rightarrow>
          (case os_Remove path fs of
             (Some e, fs') \<Rightarrow> (if IsNotExist e then (None, fs') else (Some e, fs'))
           | (None, fs') \<Rightarrow> (None, fs')))"

definition disk_BlobExists :: "string \<Rightarrow> string \<Rightarrow> osfs \<Rightarrow> (goerror + bool) \<times> osfs" where
  "disk_BlobExists rootDir blobName fs =
     (case blobPath rootDir blobName of
        Inl e \<Rightarrow> (Inl e, fs)
      | Inr path \<Rightarrow>
          (case os_Stat path fs of
             (Some e, fs') \<Rightarrow> (if IsNotExist e then (Inr False, fs') else (Inl e, fs'))
           | (None, fs') \<Rightarrow> (Inr True, fs')))"

text \<open>
  \<open>compressFileWriter\<close>: the gzip writer and the open file, an inode with the offset of the next
  write.  \<open>file_sink\<close> is \<open>os.File.Write\<close>.
\<close>

record compressFileWriter =
  cfw_gz :: gzip_writer
  cfw_ino :: nat
  cfw_off :: nat

definition disk_Writer ::
  "string \<Rightarrow> string \<Rightarrow> osfs \<Rightarrow> (goerror + compressFileWriter) \<times> osfs"
where
  "disk_Writer rootDir blobName fs =
     (case blobPath rootDir blobName of
        Inl e \<Rightarrow> (Inl e, fs)
      | Inr path \<Rightarrow>
          (case sys_open_trunc path fs of
             (Inl e, fs') \<Rightarrow> (Inl e, fs')
           | (Inr i, fs') \<Rightarrow>
               (Inr \<lparr>cfw_gz = gzip_NewWriter, cfw_ino = i, cfw_off = 0\<rparr>, fs')))"

definition file_sink ::
  "nat \<Rightarrow> bytes \<Rightarrow> nat \<times> osfs \<Rightarrow> (goerror option \<times> nat \<times> osfs) option"
where
  "file_sink i p s =
     (case s of (off, fs) \<Rightarrow>
        (case sys_write i off p fs of ((n, err), fs') \<Rightarrow> Some (err, off + n, fs')))"

definition cfw_Write ::
  "gzip_codec \<Rightarrow> compressFileWriter \<Rightarrow> bytes \<Rightarrow> osfs \<Rightarrow>
   ((int \<times> goerror option) \<times> compressFileWriter \<times> osfs) option"
where
  "cfw_Write gz w p fs =
     map_option (\<lambda>(r, g, off, fs'). (r, w\<lparr>cfw_gz := g, cfw_off := off\<rparr>, fs'))
       (gzw_Write gz (file_sink (cfw_ino w)) (cfw_gz w) p (cfw_off w, fs))"

definition cfw_Close ::
  "gzip_codec \<Rightarrow> compressFileWriter \<Rightarrow> osfs \<Rightarrow> (goerror option \<times> osfs) option"
where
  "cfw_Close gz w fs =
     (case gzw_Close gz (file_sink (cfw_ino w)) (cfw_gz w) (cfw_off w, fs) of
        None \<Rightarrow> None
      | Some (Some e, off, fs1) \<Rightarrow> (case sys_close fs1 of (_, fs2) \<Rightarrow> Some (Some e, fs2))
      | Some (None, off, fs1) \<Rightarrow> Some (sys_close fs1))"

definition disk_ops :: "gzip_codec \<Rightarrow> string \<Rightarrow> (osfs, compressFileWriter) Blobstore" where
  "disk_ops gz rootDir =
     \<lparr>op_BlobExists = disk_BlobExists rootDir, op_ReadBlob = disk_ReadBlob gz rootDir,
      op_WriteBlob = disk_WriteBlob gz rootDir, op_DeleteBlob = disk_DeleteBlob rootDir,
      op_Writer = disk_Writer rootDir, op_Write = cfw_Write gz, op_Close = cfw_Close gz\<rparr>"

section \<open>Paths\<close>

text \<open>The names that map to files of their own directly below the root.\<close>

definition simple_name :: "string \<Rightarrow> bool" where
  "simple_name n \<longleftrightarrow> path_elem n \<and> \<not> Contains n ''..''"

lemma blobPath_elems:
  assumes "rootDir \<noteq> []" "blobPath rootDir n = Inr p"
  shows "path_elems p = clean_elems rootDir @ path_elems n" "rooted p = rooted rootDir"
  using assms no_dotdot_elems [of n]
  by (auto simp: blobPath_def filepath_Join_def clean_elems_append rooted_append dotdot_def
      split: if_splits)

text \<open>
  C14: A path that the disk backend hands to the operating system lies in its root directory: it has
  the elements of the cleaned root followed by those of the blob name, and no element of the name is
  \<open>..\<close>.
\<close>
theorem blobPath_contained:
  assumes "rootDir \<noteq> []" "blobPath rootDir n = Inr p"
  shows "prefix (path_elems (Clean rootDir)) (path_elems p) \<and> rooted p = rooted rootDir \<and>
    dotdot \<notin> set (drop (length (path_elems (Clean rootDir))) (path_elems p))"
  using blobPath_elems [OF assms] assms(2) no_dotdot_elems [of n]
  by (auto simp: blobPath_def dotdot_def split: if_splits)

theorem blobPath_contained_witness:
  "blobPath ''data/./events'' ''a/b.jsonl'' = Inr ''data/events/a/b.jsonl'' \<and>
   prefix (path_elems (Clean ''data/./events'')) (path_elems ''data/events/a/b.jsonl'')"
proof -
  have "blobPath ''data/./events'' ''a/b.jsonl'' = Inr ''data/events/a/b.jsonl''" by code_simp
  with blobPath_contained [OF _ this] show ?thesis by simp
qed

text \<open>A simple name has a path of its own.\<close>

abbreviation blob_file :: "string \<Rightarrow> string \<Rightarrow> string" where
  "blob_file rootDir n \<equiv> filepath_Join rootDir n"

lemma blobPath_simple [simp]: "simple_name n \<Longrightarrow> blobPath rootDir n = Inr (blob_file rootDir n)"
  by (simp add: simple_name_def blobPath_def)

lemma blob_file_inj:
  assumes "rootDir \<noteq> []" "simple_name m" "simple_name n"
  shows "blob_file rootDir m = blob_file rootDir n \<longleftrightarrow> m = n"
proof -
  have "path_elems (blob_file rootDir k) = clean_elems rootDir @ [k]" if "simple_name k" for k
    using blobPath_elems(1) [OF assms(1), of k] that
    by (simp add: simple_name_def path_elems_simple)
  with assms show ?thesis by (metis append1_eq_conv)
qed

lemma normal_blob_file:
  assumes "rootDir \<noteq> []" "simple_name n"
  shows "normal_path (blob_file rootDir n)"
proof -
  have e: "path_elems (blob_file rootDir n) = clean_elems rootDir @ [n]"
    using blobPath_elems(1) [OF assms(1), of n] assms(2)
    by (simp add: simple_name_def path_elems_simple)
  have "n \<noteq> dotdot" using assms(2) by (auto simp: simple_name_def Contains_def dotdot_def)
  moreover have "render_path (rooted (Clean s)) (path_elems (Clean s)) = Clean s" for s
    unfolding path_elems_Clean rooted_Clean by (simp add: Clean_def)
  moreover have "blob_file rootDir n = Clean (rootDir @ slash # n)"
    using assms(1) by (simp add: filepath_Join_def)
  ultimately show ?thesis using e unfolding normal_path_def by (metis last_snoc snoc_eq_iff_butlast)
qed

section \<open>The contract\<close>

definition disk_view :: "gzip_codec \<Rightarrow> string \<Rightarrow> (osfs, compressFileWriter) blob_view" where
  "disk_view gz rootDir =
     \<lparr>v_inv = (\<lambda>fs. fs_ok fs \<and> gzip_lawful gz \<and> rootDir \<noteq> []),
      v_ok = simple_name,
      v_holds = (\<lambda>fs n d. \<exists>b. file_at fs (blob_file rootDir n) = Some b \<and> gz_reader gz b = Inr d),
      v_absent = (\<lambda>fs n. inode_of fs (blob_file rootDir n) = None \<and>
                    blob_file rootDir n \<notin> set (os_dirs fs)),
      v_writing = (\<lambda>fs w n cs. inode_of fs (blob_file rootDir n) = Some (cfw_ino w) \<and>
                     cfw_gz w = \<lparr>gzw_chunks = cs, gzw_err = None\<rparr> \<and>
                     f_data (os_inodes fs (cfw_ino w)) = gz_emitted gz cs \<and>
                     cfw_off w = length (gz_emitted gz cs)),
      v_broken = (\<lambda>fs w n. gzw_err (cfw_gz w) \<noteq> None)\<rparr>"


lemma kept_disk:
  assumes "v_inv (disk_view gz rootDir) fs" "simple_name n"
    and "only_at (blob_file rootDir n) fs fs'"
  shows "kept (disk_view gz rootDir) n fs fs'"
proof -
  have "same_at (disk_view gz rootDir) m fs fs'" if "simple_name m" "m \<noteq> n" for m
  proof -
    have "blob_file rootDir m \<noteq> blob_file rootDir n"
      using that assms blob_file_inj [of rootDir m n] by (simp add: disk_view_def)
    with assms(3) show ?thesis
      by (auto simp: same_at_def disk_view_def only_at_def file_at_def)
  qed
  with assms show ?thesis by (simp add: kept_def disk_view_def only_at_def)
qed

text \<open>Reading and looking change nothing but the list of faults.\<close>

lemma disk_ReadBlob_result:
  "simple_name n \<Longrightarrow> disk_ReadBlob gz rootDir n fs = (r, fs') \<Longrightarrow>
   fs' = tick fs \<and>
   (\<forall>d. r = Inr d \<longrightarrow> (\<exists>b. file_at fs (blob_file rootDir n) = Some b \<and> gz_reader gz b = Inr d))"
  by (auto simp: disk_ReadBlob_def os_ReadFile_def Decompress_def
      split: option.splits if_splits sum.splits prod.splits)

lemma disk_BlobExists_result:
  assumes "fs_ok fs" "simple_name n" "disk_BlobExists rootDir n fs = (r, fs')"
  shows "fs' = tick fs \<and>
    (\<forall>b. r = Inr b \<longrightarrow> b = (inode_of fs (blob_file rootDir n) \<noteq> None \<or>
        blob_file rootDir n \<in> set (os_dirs fs)))"
  using assms next_fault_ok [OF assms(1)]
  by (auto simp: disk_BlobExists_def os_Stat_def split: option.splits if_splits prod.splits)

lemma same_at_tick: "same_at (disk_view gz rootDir) n fs (tick fs)"
  by (simp add: same_at_def disk_view_def)

text \<open>What a gzip writer over a file does to it.\<close>

lemma file_sink_flush:
  assumes "fs_ok fs" "inode_of fs p = Some i"
    and "flush_to (file_sink i) out (length (f_data (os_inodes fs i)), fs) = Some (err, off', fs')"
  shows "only_at p fs fs' \<and> inode_of fs' p = Some i \<and>
    (\<exists>k. f_data (os_inodes fs' i) = f_data (os_inodes fs i) @ take k out \<and>
       (err = None \<longrightarrow> take k out = out)) \<and>
    (err = None \<longrightarrow> off' = length (f_data (os_inodes fs i)) + length out)"
proof (cases "out = []")
  case True
  with assms show ?thesis by (auto simp: flush_to_def only_at_refl)
next
  case False
  let ?d = "f_data (os_inodes fs i)"
  obtain n e fs2 where w: "sys_write i (length ?d) out fs = ((n, e), fs2)" by (metis surj_pair)
  with assms(3) False have "fs' = fs2" "err = e" "off' = length ?d + n"
    by (auto simp: flush_to_def file_sink_def)
  with sys_write_at [OF assms(1,2) w] show ?thesis by force
qed

lemma cfw_Write_at:
  assumes "v_inv (disk_view gz rootDir) fs" "v_writing (disk_view gz rootDir) fs w n cs"
    and "cfw_Write gz w p fs = Some ((k, err), w', fs')"
  shows "only_at (blob_file rootDir n) fs fs' \<and>
    (if err = None then v_writing (disk_view gz rootDir) fs' w' n (cs @ [p])
     else gzw_err (cfw_gz w') \<noteq> None)"
proof -
  let ?out = "drop (length (gz_emitted gz cs)) (gz_emitted gz (cs @ [p]))"
  have w: "cfw_gz w = \<lparr>gzw_chunks = cs, gzw_err = None\<rparr>" "cfw_off w = length (gz_emitted gz cs)"
    "inode_of fs (blob_file rootDir n) = Some (cfw_ino w)" "fs_ok fs" "gzip_lawful gz"
    and d: "f_data (os_inodes fs (cfw_ino w)) = gz_emitted gz cs"
    using assms(1,2) by (auto simp: disk_view_def)
  obtain e off where
    f: "flush_to (file_sink (cfw_ino w)) ?out (length (gz_emitted gz cs), fs) = Some (e, off, fs')"
    and r: "err = e"
      "w' = w\<lparr>cfw_gz := \<lparr>gzw_chunks = if e = None then cs @ [p] else cs, gzw_err = e\<rparr>, cfw_off := off\<rparr>"
    using assms(3) w by (auto simp: cfw_Write_def gzw_Write_def Let_def split: option.splits)
  note emitted = emitted_prefix(1) [OF w(5), of cs p]
  have "length (gz_emitted gz cs) + length ?out = length (gz_emitted gz (cs @ [p]))"
    using arg_cong [OF emitted, of length] by simp
  with file_sink_flush [OF w(4,3) f [folded d]] d r emitted show ?thesis
    by (auto simp: disk_view_def)
qed

lemma cfw_Close_at:
  assumes "v_inv (disk_view gz rootDir) fs" "v_writing (disk_view gz rootDir) fs w n cs"
    and "cfw_Close gz w fs = Some (err, fs')"
  shows "only_at (blob_file rootDir n) fs fs' \<and>
    inode_of fs' (blob_file rootDir n) = Some (cfw_ino w) \<and>
    prefix (f_data (os_inodes fs' (cfw_ino w))) (gz_stream gz cs) \<and>
    (err = None \<longrightarrow> f_data (os_inodes fs' (cfw_ino w)) = gz_stream gz cs)"
proof -
  let ?out = "drop (length (gz_emitted gz cs)) (gz_stream gz cs)"
  have w: "cfw_gz w = \<lparr>gzw_chunks = cs, gzw_err = None\<rparr>" "cfw_off w = length (gz_emitted gz cs)"
    "inode_of fs (blob_file rootDir n) = Some (cfw_ino w)" "fs_ok fs" "gzip_lawful gz"
    and d: "f_data (os_inodes fs (cfw_ino w)) = gz_emitted gz cs"
    using assms(1,2) by (auto simp: disk_view_def)
  obtain e off fs1 where
    f: "flush_to (file_sink (cfw_ino w)) ?out (length (gz_emitted gz cs), fs) = Some (e, off, fs1)"
    and r: "fs' = tick fs1" "err = None \<Longrightarrow> e = None"
    using assms(3) w
    by (auto simp: cfw_Close_def gzw_Close_def sys_close_def Let_def split: option.splits)
  note at1 = file_sink_flush [OF w(4,3) f [folded d]]
  then have "fs_ok fs1" by (simp add: only_at_def)
  then have "only_at (blob_file rootDir n) fs fs'"
    using at1 r only_at_tick only_at_trans by blast
  moreover obtain k where "f_data (os_inodes fs1 (cfw_ino w)) = gz_emitted gz cs @ take k ?out"
    "e = None \<longrightarrow> take k ?out = ?out"
    using at1 d by auto
  moreover have "prefix (gz_emitted gz cs @ take k ?out) (gz_stream gz cs)"
    using emitted_prefix(2) [OF w(5), of cs]
    by (metis append_take_drop_id append.assoc prefixI)
  ultimately show ?thesis
    using at1 r emitted_prefix(2) [OF w(5), of cs] by auto
qed

lemma disk_ops_simps [simp]:
  "op_BlobExists (disk_ops gz rootDir) = disk_BlobExists rootDir"
  "op_ReadBlob (disk_ops gz rootDir) = disk_ReadBlob gz rootDir"
  "op_WriteBlob (disk_ops gz rootDir) = disk_WriteBlob gz rootDir"
  "op_DeleteBlob (disk_ops gz rootDir) = disk_DeleteBlob rootDir"
  "op_Writer (disk_ops gz rootDir) = disk_Writer rootDir"
  "op_Write (disk_ops gz rootDir) = cfw_Write gz" "op_Close (disk_ops gz rootDir) = cfw_Close gz"
  by (simp_all add: disk_ops_def)

lemma disk_inv [simp]:
  "v_inv (disk_view gz rootDir) fs \<longleftrightarrow> fs_ok fs \<and> gzip_lawful gz \<and> rootDir \<noteq> []"
  "v_ok (disk_view gz rootDir) = simple_name"
  "v_broken (disk_view gz rootDir) fs w n \<longleftrightarrow> gzw_err (cfw_gz w) \<noteq> None"
  by (simp_all add: disk_view_def)

lemma disk_view_sel:
  "v_holds (disk_view gz rootDir) fs n d \<longleftrightarrow>
     (\<exists>b. file_at fs (blob_file rootDir n) = Some b \<and> gz_reader gz b = Inr d)"
  "v_absent (disk_view gz rootDir) fs n \<longleftrightarrow>
     inode_of fs (blob_file rootDir n) = None \<and> blob_file rootDir n \<notin> set (os_dirs fs)"
  "v_writing (disk_view gz rootDir) fs w n cs \<longleftrightarrow>
     inode_of fs (blob_file rootDir n) = Some (cfw_ino w) \<and>
     cfw_gz w = \<lparr>gzw_chunks = cs, gzw_err = None\<rparr> \<and>
     f_data (os_inodes fs (cfw_ino w)) = gz_emitted gz cs \<and> cfw_off w = length (gz_emitted gz cs)"
  by (simp_all add: disk_view_def)

lemma disk_WriteBlob_at:
  assumes "fs_ok fs" "gzip_lawful gz" "simple_name n" "rootDir \<noteq> []"
    and "disk_WriteBlob gz rootDir n data fs = (r, fs')"
  shows "only_at (blob_file rootDir n) fs fs' \<and>
    (\<forall>k. r = Inr k \<longrightarrow> file_at fs' (blob_file rootDir n) = Some (gz_stream gz [data]))"
  using assms os_WriteFile_at [OF assms(1) normal_blob_file, of rootDir n "gz_stream gz [data]"]
  by (auto simp: disk_WriteBlob_def Compress_stream split: prod.splits option.splits)

lemma disk_DeleteBlob_at:
  assumes "fs_ok fs" "simple_name n" "disk_DeleteBlob rootDir n fs = (r, fs')"
  shows "only_at (blob_file rootDir n) fs fs' \<and>
    (r = None \<longrightarrow> inode_of fs' (blob_file rootDir n) = None \<and>
       blob_file rootDir n \<notin> set (os_dirs fs'))"
  using assms os_Remove_at [OF assms(1), of "blob_file rootDir n"]
  by (auto simp: disk_DeleteBlob_def split: prod.splits option.splits if_splits)

lemma disk_Writer_at:
  assumes "fs_ok fs" "simple_name n" "rootDir \<noteq> []" "disk_Writer rootDir n fs = (r, fs')"
  shows "only_at (blob_file rootDir n) fs fs' \<and>
    (\<forall>w. r = Inr w \<longrightarrow> cfw_gz w = gzip_NewWriter \<and> cfw_off w = 0 \<and>
       inode_of fs' (blob_file rootDir n) = Some (cfw_ino w) \<and>
       f_data (os_inodes fs' (cfw_ino w)) = [])"
  using assms sys_open_trunc_at [OF assms(1) normal_blob_file [OF assms(3,2)]]
  by (auto simp: disk_Writer_def split: prod.splits sum.splits)

lemma cfw_broken:
  assumes "gzw_err (cfw_gz w) = Some e"
  shows "cfw_Write gz w p fs = Some ((0, Some e), w, fs)"
    and "cfw_Close gz w fs = Some (Some e, tick fs)"
  using assms by (simp_all add: cfw_Write_def cfw_Close_def gzw_Write_def gzw_Close_def sys_close_def)

interpretation disk: blobstore "disk_ops gz rootDir" "disk_view gz rootDir" for gz rootDir
proof
  fix fs n re fs'
  assume a: "v_inv (disk_view gz rootDir) fs" "v_ok (disk_view gz rootDir) n"
    "op_BlobExists (disk_ops gz rootDir) n fs = (re, fs')"
  with disk_BlobExists_result [of fs n rootDir re fs'] kept_disk [OF a(1)] only_at_tick
  show "kept (disk_view gz rootDir) n fs fs' \<and> same_at (disk_view gz rootDir) n fs fs' \<and>
    (\<forall>d. v_holds (disk_view gz rootDir) fs n d \<longrightarrow> re \<noteq> Inr False) \<and>
    (v_absent (disk_view gz rootDir) fs n \<longrightarrow> re \<noteq> Inr True)"
    by (auto simp: same_at_tick disk_view_sel file_at_def)
next
  fix fs n rr fs'
  assume a: "v_inv (disk_view gz rootDir) fs" "v_ok (disk_view gz rootDir) n"
    "op_ReadBlob (disk_ops gz rootDir) n fs = (rr, fs')"
  with disk_ReadBlob_result [of n gz rootDir fs rr fs'] kept_disk [OF a(1)] only_at_tick
  show "kept (disk_view gz rootDir) n fs fs' \<and>
    (\<forall>d. v_holds (disk_view gz rootDir) fs n d \<longrightarrow>
       v_holds (disk_view gz rootDir) fs' n d \<and> (\<forall>d'. rr = Inr d' \<longrightarrow> d' = d))"
    by (auto simp: disk_view_sel)
next
  fix fs n data rw fs'
  assume a: "v_inv (disk_view gz rootDir) fs" "v_ok (disk_view gz rootDir) n"
    "op_WriteBlob (disk_ops gz rootDir) n data fs = (rw, fs')"
  with disk_WriteBlob_at [of fs gz n rootDir data rw fs'] kept_disk [OF a(1)]
  show "kept (disk_view gz rootDir) n fs fs' \<and>
    (\<forall>k. rw = Inr k \<longrightarrow> v_holds (disk_view gz rootDir) fs' n data)"
    by (auto simp: disk_view_sel gzip_lawful_simps)
next
  fix fs n rd fs'
  assume a: "v_inv (disk_view gz rootDir) fs" "v_ok (disk_view gz rootDir) n"
    "op_DeleteBlob (disk_ops gz rootDir) n fs = (rd, fs')"
  with disk_DeleteBlob_at [of fs n rootDir rd fs'] kept_disk [OF a(1)]
  show "kept (disk_view gz rootDir) n fs fs' \<and>
    (rd = None \<longrightarrow> v_absent (disk_view gz rootDir) fs' n)"
    by (auto simp: disk_view_sel)
next
  fix fs n ro fs'
  assume a: "v_inv (disk_view gz rootDir) fs" "v_ok (disk_view gz rootDir) n"
    "op_Writer (disk_ops gz rootDir) n fs = (ro, fs')"
  then have at: "only_at (blob_file rootDir n) fs fs' \<and>
    (\<forall>w. ro = Inr w \<longrightarrow> cfw_gz w = gzip_NewWriter \<and> cfw_off w = 0 \<and>
       inode_of fs' (blob_file rootDir n) = Some (cfw_ino w) \<and>
       f_data (os_inodes fs' (cfw_ino w)) = [])"
    by (intro disk_Writer_at) auto
  with kept_disk [OF a(1), of n fs'] a
  show "kept (disk_view gz rootDir) n fs fs' \<and>
    (\<forall>w. ro = Inr w \<longrightarrow> v_writing (disk_view gz rootDir) fs' w n [])"
    by (cases ro) (simp_all add: disk_view_sel gzip_NewWriter_def gzip_lawful_simps(1))
next
  fix fs n w cs p k err w' fs'
  assume a: "v_inv (disk_view gz rootDir) fs" "v_ok (disk_view gz rootDir) n"
    "v_writing (disk_view gz rootDir) fs w n cs"
    "op_Write (disk_ops gz rootDir) w p fs = Some ((k, err), w', fs')"
  with cfw_Write_at [OF a(1,3)] kept_disk [OF a(1)]
  show "kept (disk_view gz rootDir) n fs fs' \<and>
    (if err = None then v_writing (disk_view gz rootDir) fs' w' n (cs @ [p])
     else v_broken (disk_view gz rootDir) fs' w' n)"
    by auto
next
  fix fs n w p k err w' fs'
  assume a: "v_inv (disk_view gz rootDir) fs" "v_broken (disk_view gz rootDir) fs w n"
    "op_Write (disk_ops gz rootDir) w p fs = Some ((k, err), w', fs')"
  with cfw_broken(1) [of w _ gz p fs]
  show "kept (disk_view gz rootDir) n fs fs' \<and> err \<noteq> None \<and> v_broken (disk_view gz rootDir) fs' w' n"
    by (auto simp: kept_refl)
next
  fix fs n w cs err fs'
  assume a: "v_inv (disk_view gz rootDir) fs" "v_ok (disk_view gz rootDir) n"
    "v_writing (disk_view gz rootDir) fs w n cs"
    "op_Close (disk_ops gz rootDir) w fs = Some (err, fs')"
  with cfw_Close_at [OF a(1,3)] kept_disk [OF a(1)]
  show "kept (disk_view gz rootDir) n fs fs' \<and>
    (err = None \<longrightarrow> v_holds (disk_view gz rootDir) fs' n (concat cs))"
    by (auto simp: disk_view_sel file_at_def gzip_lawful_simps)
next
  fix fs n w err fs'
  assume a: "v_inv (disk_view gz rootDir) fs" "v_ok (disk_view gz rootDir) n"
    "v_broken (disk_view gz rootDir) fs w n"
    "op_Close (disk_ops gz rootDir) w fs = Some (err, fs')"
  with cfw_broken(2) [of w _ gz fs] kept_disk [OF a(1)] only_at_tick
  show "kept (disk_view gz rootDir) n fs fs' \<and> err \<noteq> None"
    by auto
qed

text \<open>
  Nothing goes wrong when no fault is due, the root directory exists and no blob name is taken by a
  directory.
\<close>

definition disk_live :: "string \<Rightarrow> osfs \<Rightarrow> bool" where
  "disk_live rootDir fs \<longleftrightarrow>
     os_faults fs = [] \<and> Clean rootDir \<in> set (os_dirs fs) \<and>
     (\<forall>n. simple_name n \<longrightarrow> blob_file rootDir n \<notin> set (os_dirs fs))"

lemma parent_blob_file:
  assumes "rootDir \<noteq> []" "simple_name n"
  shows "parent_dir (blob_file rootDir n) = Clean rootDir"
proof -
  have "path_elems (blob_file rootDir n) = clean_elems rootDir @ [n]"
    "rooted (blob_file rootDir n) = rooted rootDir"
    using blobPath_elems [OF assms(1), of n] assms(2)
    by (simp_all add: simple_name_def path_elems_simple)
  then show ?thesis by (simp add: parent_dir_def Clean_def)
qed

lemma disk_live_tick: "disk_live rootDir fs \<Longrightarrow> disk_live rootDir (tick fs)"
  by (simp add: disk_live_def tick_def)

lemma disk_live_set_file: "disk_live rootDir fs \<Longrightarrow> disk_live rootDir (set_file i d fs)"
  by (simp add: disk_live_def set_file_def)

lemma disk_live_no_fault: "disk_live rootDir fs \<Longrightarrow> next_fault fs = None"
  by (simp add: disk_live_def next_fault_def)

lemma disk_live_Writer:
  assumes "disk_live rootDir fs" "rootDir \<noteq> []" "simple_name n"
  shows "\<exists>w fs'. disk_Writer rootDir n fs = (Inr w, fs') \<and> disk_live rootDir fs'"
  using assms parent_blob_file [OF assms(2,3)]
  by (cases "inode_of fs (blob_file rootDir n)")
    (auto simp: disk_Writer_def sys_open_trunc_def disk_live_def next_fault_def set_file_def tick_def)

lemma disk_live_WriteBlob:
  assumes "disk_live rootDir fs" "rootDir \<noteq> []" "simple_name n" "gzip_lawful gz"
  shows "\<exists>k fs'. disk_WriteBlob gz rootDir n data fs = (Inr k, fs') \<and> disk_live rootDir fs'"
proof -
  have "\<exists>i fs1. sys_open_trunc (blob_file rootDir n) fs = (Inr i, fs1) \<and> disk_live rootDir fs1"
    using assms parent_blob_file [OF assms(2,3)]
    by (cases "inode_of fs (blob_file rootDir n)")
      (auto simp: sys_open_trunc_def disk_live_def next_fault_def set_file_def tick_def)
  then obtain i fs1 where o: "sys_open_trunc (blob_file rootDir n) fs = (Inr i, fs1)"
    "disk_live rootDir fs1" by blast
  have l: "disk_live rootDir (set_file i d (tick fs1))" for d
    using o(2) by (simp add: disk_live_set_file disk_live_tick)
  have "next_fault fs1 = None" "next_fault (set_file i d (tick fs1)) = None" for d
    using disk_live_no_fault [OF o(2)] disk_live_no_fault [OF l] by simp_all
  with o l assms(3,4) show ?thesis
    by (simp add: disk_WriteBlob_def Compress_stream os_WriteFile_def sys_write_def sys_close_def
        disk_live_tick)
qed

lemma disk_live_DeleteBlob:
  assumes "disk_live rootDir fs" "simple_name n"
  shows "\<exists>fs'. disk_DeleteBlob rootDir n fs = (None, fs') \<and> disk_live rootDir fs'"
  using assms disk_live_no_fault [OF assms(1)]
  by (auto simp: disk_DeleteBlob_def os_Remove_def disk_live_def tick_def)

lemma disk_live_flush:
  assumes "disk_live rootDir fs"
  shows "\<exists>off' fs'. flush_to (file_sink i) out (off, fs) = Some (None, off', fs') \<and> disk_live rootDir fs'"
  using assms disk_live_no_fault [OF assms]
  by (auto simp: flush_to_def file_sink_def sys_write_def intro: disk_live_set_file disk_live_tick)

interpretation live_disk: reliable_blobstore "disk_ops gz rootDir" "disk_view gz rootDir" "disk_live rootDir"
  for gz rootDir
proof
  fix fs n
  assume a: "v_inv (disk_view gz rootDir) fs" "disk_live rootDir fs" "v_ok (disk_view gz rootDir) n"
  then show "\<exists>b st'. op_BlobExists (disk_ops gz rootDir) n fs = (Inr b, st') \<and> disk_live rootDir st'"
    using disk_live_no_fault [OF a(2)] disk_live_tick [OF a(2)]
    by (auto simp: disk_BlobExists_def os_Stat_def)
  show "\<exists>w st'. op_Writer (disk_ops gz rootDir) n fs = (Inr w, st') \<and> disk_live rootDir st'"
    using a disk_live_Writer by simp
  fix d
  assume "v_holds (disk_view gz rootDir) fs n d"
  then show "\<exists>st'. op_ReadBlob (disk_ops gz rootDir) n fs = (Inr d, st') \<and> disk_live rootDir st'"
    using a disk_live_no_fault [OF a(2)] disk_live_tick [OF a(2)]
    by (auto simp: disk_ReadBlob_def os_ReadFile_def Decompress_def disk_view_sel)
next
  fix fs n w cs p
  assume a: "v_inv (disk_view gz rootDir) fs" "disk_live rootDir fs"
    "v_writing (disk_view gz rootDir) fs w n cs"
  then have w: "cfw_gz w = \<lparr>gzw_chunks = cs, gzw_err = None\<rparr>" by (simp add: disk_view_sel)
  obtain off1 fs1 where "flush_to (file_sink (cfw_ino w))
      (drop (length (gz_emitted gz cs)) (gz_emitted gz (cs @ [p]))) (cfw_off w, fs) =
      Some (None, off1, fs1)" "disk_live rootDir fs1"
    using disk_live_flush [OF a(2)] by blast
  with w show "\<exists>k w' st'. op_Write (disk_ops gz rootDir) w p fs = Some ((k, None), w', st') \<and>
      disk_live rootDir st'"
    by (auto simp: cfw_Write_def gzw_Write_def)
  obtain off2 fs2 where "flush_to (file_sink (cfw_ino w))
      (drop (length (gz_emitted gz cs)) (gz_stream gz cs)) (cfw_off w, fs) =
      Some (None, off2, fs2)" "disk_live rootDir fs2"
    using disk_live_flush [OF a(2)] by blast
  with w show "\<exists>st'. op_Close (disk_ops gz rootDir) w fs = Some (None, st') \<and> disk_live rootDir st'"
    by (auto simp: cfw_Close_def gzw_Close_def sys_close_def disk_live_no_fault disk_live_tick)
qed

section \<open>Properties\<close>

text \<open>
  Without faults of the operating system, a blob that the disk backend writes exists and reads
  back as it was written, in a root directory that exists; and what was readable under another name
  still is.
\<close>
theorem disk_write_then_read:
  assumes "gzip_lawful gz" "fs_ok fs" "os_faults fs = []" "rootDir \<noteq> []" "simple_name n"
    and "parent_dir (blob_file rootDir n) \<in> set (os_dirs fs)"
    and "blob_file rootDir n \<notin> set (os_dirs fs)"
  shows "\<exists>k fs'. disk_WriteBlob gz rootDir n data fs = (Inr k, fs') \<and>
    fst (disk_ReadBlob gz rootDir n fs') = Inr data \<and>
    fst (disk_BlobExists rootDir n fs') = Inr True \<and>
    (\<forall>m d. simple_name m \<and> m \<noteq> n \<and> fst (disk_ReadBlob gz rootDir m fs) = Inr d \<longrightarrow>
       fst (disk_ReadBlob gz rootDir m fs') = Inr d)"
proof -
  obtain r fs' where w: "disk_WriteBlob gz rootDir n data fs = (r, fs')" by force
  have nf: "next_fault fs = None" "os_faults (tick fs) = []" using assms(3)
    by (simp_all add: next_fault_def tick_def)
  obtain i fs1 where o: "sys_open_trunc (blob_file rootDir n) fs = (Inr i, fs1)" "os_faults fs1 = []"
    using assms(6,7) nf
    by (cases "inode_of fs (blob_file rootDir n)") (auto simp: sys_open_trunc_def set_file_def)
  from w o have k: "r = Inr (int (length (gz_stream gz [data])))" "os_faults fs' = []"
    using assms(1,5)
    by (auto simp: disk_WriteBlob_def Compress_stream os_WriteFile_def sys_write_def sys_close_def
        next_fault_def set_file_def tick_def)
  note at = disk_WriteBlob_at [OF assms(2,1,5,4) w]
  have f: "file_at fs' (blob_file rootDir n) = Some (gz_stream gz [data])" using at k by simp
  have nf': "next_fault fs' = None" using k by (simp add: next_fault_def)
  have "fst (disk_ReadBlob gz rootDir n fs') = Inr data"
    using assms(1,5) f nf' by (simp add: disk_ReadBlob_def os_ReadFile_def Decompress_def gzip_lawful_simps)
  moreover have "fst (disk_BlobExists rootDir n fs') = Inr True"
    using assms(5) f nf' by (auto simp: disk_BlobExists_def os_Stat_def file_at_def)
  moreover have "fst (disk_ReadBlob gz rootDir m fs') = Inr d"
    if m: "simple_name m" "m \<noteq> n" "fst (disk_ReadBlob gz rootDir m fs) = Inr d" for m d
  proof -
    have "blob_file rootDir m \<noteq> blob_file rootDir n" using m assms blob_file_inj by simp
    then have "file_at fs' (blob_file rootDir m) = file_at fs (blob_file rootDir m)"
      using at only_at_file by blast
    with m nf nf' show ?thesis
      by (auto simp: disk_ReadBlob_def os_ReadFile_def Decompress_def split: option.splits if_splits)
  qed
  ultimately show ?thesis using w k by blast
qed

text \<open>The file system that \<open>New\<close> leaves is ready for the store.\<close>

lemma blob_file_not_dir_to:
  assumes "rootDir \<noteq> []" "simple_name n"
  shows "blob_file rootDir n \<notin> set (dirs_to (Clean rootDir))"
proof
  assume "blob_file rootDir n \<in> set (dirs_to (Clean rootDir))"
  then obtain k where k: "blob_file rootDir n = render_path (rooted rootDir) (take k (clean_elems rootDir))"
    by (auto simp: dirs_to_def simp del: upt_Suc)
  have "\<forall>e \<in> set (take k (clean_elems rootDir)). path_elem e"
    by (auto dest: in_set_takeD path_elem_clean)
  with k have "path_elems (blob_file rootDir n) = take k (clean_elems rootDir)" by simp
  moreover have "path_elems (blob_file rootDir n) = clean_elems rootDir @ [n]"
    using blobPath_elems(1) [OF assms(1), of n] assms(2)
    by (simp add: simple_name_def path_elems_simple)
  ultimately have "length (clean_elems rootDir @ [n]) = length (take k (clean_elems rootDir))" by simp
  then show False by simp
qed

lemma disk_New_ready:
  assumes "disk_New rootDir fs = (Inr d, fs')" "fs_ok fs"
  shows "d = rootDir \<and> rootDir \<noteq> [] \<and> fs_ok fs' \<and>
    (os_faults fs = [] \<longrightarrow> (\<forall>n. simple_name n \<longrightarrow> blob_file rootDir n \<notin> set (os_dirs fs)) \<longrightarrow>
       disk_live rootDir fs')"
proof -
  let ?new = "filter (\<lambda>q. q \<notin> set (os_dirs fs)) (dirs_to (Clean rootDir))"
  have n: "rootDir \<noteq> []" "d = rootDir" "fs' = (tick fs)\<lparr>os_dirs := os_dirs fs @ ?new\<rparr>"
    "\<forall>q \<in> set (dirs_to (Clean rootDir)). inode_of fs q = None"
    using assms(1) by (auto simp: disk_New_def os_MkdirAll_def split: option.splits if_splits)
  have "p \<notin> set (dirs_to (Clean rootDir))" if "(p, i) \<in> set (os_names fs)" for p i
    using n(4) that by (force simp: inode_of_def map_of_eq_None_iff)
  moreover have "fs_ok (tick fs)" using assms(2) by simp
  ultimately have "fs_ok fs'" using n(3) by (auto simp: fs_ok_def)
  moreover have "Clean rootDir \<in> set (dirs_to (Clean rootDir))"
    by (simp add: dirs_to_def Clean_def path_elem_clean)
  ultimately show ?thesis
    using n blob_file_not_dir_to [OF n(1)] by (auto simp: disk_live_def tick_def)
qed

definition sample_fs :: osfs where
  "sample_fs =
     \<lparr>os_names = [], os_inodes = (\<lambda>_. \<lparr>f_data = [], f_mtime = 0\<rparr>), os_next = 0,
      os_dirs = [''.'', ''data'', ''data/events''], os_clock = 0, os_faults = []\<rparr>"

lemma sample_fs_ok: "fs_ok sample_fs"
  by (simp add: fs_ok_def sample_fs_def)

lemma sample_fs_live: "disk_live ''data/events'' sample_fs"
proof -
  have "Clean ''data/events'' = ''data/events''" by code_simp
  moreover have "blob_file ''data/events'' n \<notin> set (os_dirs sample_fs)" if "simple_name n" for n
  proof -
    have "clean_elems ''data/events'' = [''data'', ''events'']" by code_simp
    then have "path_elems (blob_file ''data/events'' n) = [''data'', ''events'', n]"
      using blobPath_elems(1) [of "''data/events''" n] that
      by (simp add: simple_name_def path_elems_simple)
    moreover have "path_elems ''.'' = []" "path_elems ''data'' = [''data'']"
      "path_elems ''data/events'' = [''data'', ''events'']" by code_simp+
    ultimately show ?thesis by (auto simp: sample_fs_def)
  qed
  ultimately show ?thesis by (simp add: disk_live_def sample_fs_def)
qed

theorem disk_write_then_read_witness:
  "\<exists>k fs'. disk_WriteBlob sample_gzip ''data/events'' ''a'' ''xyz'' sample_fs = (Inr k, fs') \<and>
     fst (disk_ReadBlob sample_gzip ''data/events'' ''a'' fs') = Inr ''xyz''"
proof -
  have "simple_name ''a''" by code_simp
  moreover have "blob_file ''data/events'' ''a'' = ''data/events/a''"
    "parent_dir ''data/events/a'' = ''data/events''" by code_simp+
  ultimately show ?thesis
    using disk_write_then_read [of sample_gzip sample_fs "''data/events''" "''a''" "''xyz''"]
      sample_gzip_lawful sample_fs_ok by (auto simp: sample_fs_def)
qed

text \<open>
  C25: The disk backend creates the file of a blob when its writer is opened.  Until the writer is
  closed, \<open>BlobExists\<close> already reports the blob and \<open>ReadBlob\<close> of it fails, although the interface
  says that a blob is only committed by \<open>Close\<close>.
\<close>
theorem disk_uncommitted_visible:
  assumes "gzip_lawful gz" "fs_ok fs" "rootDir \<noteq> []" "simple_name n"
    and "disk_Writer rootDir n fs = (Inr w, fs')" "os_faults fs' = []"
  shows "fst (disk_BlobExists rootDir n fs') = Inr True \<and>
    (\<forall>d. fst (disk_ReadBlob gz rootDir n fs') \<noteq> Inr d)"
proof -
  have "file_at fs' (blob_file rootDir n) = Some []" "next_fault fs' = None"
    using disk_Writer_at [OF assms(2,4,3,5)] assms(6) by (auto simp: file_at_def next_fault_def)
  then show ?thesis
    using assms(4) emitted_unreadable [OF assms(1), of "[]"] gzip_lawful_simps(1) [OF assms(1)]
    by (auto simp: disk_BlobExists_def os_Stat_def disk_ReadBlob_def os_ReadFile_def file_at_def
        Decompress_def)
qed

theorem disk_uncommitted_visible_witness:
  "fst (disk_BlobExists ''data/events'' ''a'' (snd (disk_Writer ''data/events'' ''a'' sample_fs))) = Inr True"
proof -
  have "simple_name ''a''" by code_simp
  moreover have "\<exists>w. fst (disk_Writer ''data/events'' ''a'' sample_fs) = Inr w"
    "os_faults (snd (disk_Writer ''data/events'' ''a'' sample_fs)) = []"
  proof -
    have "blobPath ''data/events'' ''a'' = Inr ''data/events/a''"
      "parent_dir ''data/events/a'' = ''data/events''" by code_simp+
    then show "\<exists>w. fst (disk_Writer ''data/events'' ''a'' sample_fs) = Inr w"
      "os_faults (snd (disk_Writer ''data/events'' ''a'' sample_fs)) = []"
      by (simp_all add: disk_Writer_def sys_open_trunc_def sample_fs_def next_fault_def inode_of_def
          set_file_def tick_def)
  qed
  ultimately show ?thesis
    using disk_uncommitted_visible [OF sample_gzip_lawful sample_fs_ok, of "''data/events''" "''a''"]
    by (metis list.distinct(1) prod.collapse)
qed

end
