(* ===== verification/DiskCache.thy ===== *)
theory DiskCache
  imports Disk
begin

text \<open>
  The disk read cache in front of another backend, \<open>src/blobstore/diskcache/diskcache.go\<close>.  Over a
  backend that meets the contract \<open>blobstore\<close> and a local disk that works, the cached store meets
  it too; eviction bounds the size of the cache directory.
\<close>

section \<open>State and operations\<close>

text \<open>
  The state is that of the backing store and of the local file system.  The receiver \<open>BlobStore\<close> is
  \<open>backing\<close>, the cache (a disk store over \<open>dir\<close>), \<open>dir\<close> and \<open>maxBytes\<close>.  \<open>sort.Slice\<close> leaves the
  order of files with equal times open, so the sorting function is a parameter.
\<close>

record 'st cache_state =
  dc_backing :: 'st
  dc_fs :: osfs

record cache_file =
  cf_name :: string
  cf_size :: int
  cf_modTime :: int

record ('st, 'w) DiskCache =
  dc_store :: "('st, 'w) Blobstore"
  dc_gz :: gzip_codec
  dc_sort :: "cache_file list \<Rightarrow> cache_file list"
  dc_dir :: string
  dc_maxBytes :: int

definition diskcache_New ::
  "('st, 'w) Blobstore \<Rightarrow> gzip_codec \<Rightarrow> (cache_file list \<Rightarrow> cache_file list) \<Rightarrow> string \<Rightarrow> int \<Rightarrow>
   osfs \<Rightarrow> (goerror + ('st, 'w) DiskCache) \<times> osfs"
where
  "diskcache_New backing gz sorter dir maxBytes fs =
     (case disk_New dir fs of
        (Inl e, fs') \<Rightarrow> (Inl (WrapErr ''diskcache'' [] e), fs')
      | (Inr cache, fs') \<Rightarrow>
          (Inr \<lparr>dc_store = backing, dc_gz = gz, dc_sort = sorter, dc_dir = dir,
             dc_maxBytes = maxBytes\<rparr>, fs'))"

text \<open>\<open>evict\<close>: the loop that collects the files with their total size, and the one that removes.\<close>

fun list_files ::
  "string \<Rightarrow> dirent list \<Rightarrow> cache_file list \<Rightarrow> int \<Rightarrow> osfs \<Rightarrow> (cache_file list \<times> int) \<times> osfs"
where
  "list_files dir [] files tot fs = ((files, tot), fs)"
| "list_files dir (e # es) files tot fs =
     (if de_IsDir e then list_files dir es files tot fs
      else case os_Info (filepath_Join dir (de_Name e)) fs of
        (Inl err, fs') \<Rightarrow> list_files dir es files tot fs'
      | (Inr (sz, modTime), fs') \<Rightarrow>
          list_files dir es
            (files @ [\<lparr>cf_name = de_Name e, cf_size = sz, cf_modTime = int64 modTime\<rparr>])
            (int64 (tot + sz)) fs')"

fun remove_files :: "string \<Rightarrow> int \<Rightarrow> cache_file list \<Rightarrow> int \<Rightarrow> osfs \<Rightarrow> osfs" where
  "remove_files dir maxBytes [] tot fs = fs"
| "remove_files dir maxBytes (f # files) tot fs =
     (if tot \<le> maxBytes then fs
      else case os_Remove (filepath_Join dir (cf_name f)) fs of
        (Some e, fs') \<Rightarrow> remove_files dir maxBytes files tot fs'
      | (None, fs') \<Rightarrow> remove_files dir maxBytes files (int64 (tot - cf_size f)) fs')"

definition evict :: "(cache_file list \<Rightarrow> cache_file list) \<Rightarrow> string \<Rightarrow> int \<Rightarrow> osfs \<Rightarrow> osfs" where
  "evict sorter dir maxBytes fs =
     (if maxBytes \<le> 0 then fs
      else case os_ReadDir dir fs of
        (Inl e, fs1) \<Rightarrow> fs1
      | (Inr entries, fs1) \<Rightarrow>
          (case list_files dir entries [] 0 fs1 of ((files, tot), fs2) \<Rightarrow>
             (if tot \<le> maxBytes then fs2
              else remove_files dir maxBytes (sorter files) tot fs2)))"

abbreviation dc_evict :: "('st, 'w) DiskCache \<Rightarrow> osfs \<Rightarrow> osfs" where
  "dc_evict b \<equiv> evict (dc_sort b) (dc_dir b) (dc_maxBytes b)"

definition populate :: "('st, 'w) DiskCache \<Rightarrow> string \<Rightarrow> bytes \<Rightarrow> osfs \<Rightarrow> osfs" where
  "populate b blobName data fs =
     (case disk_WriteBlob (dc_gz b) (dc_dir b) blobName data fs of
        (Inl e, fs') \<Rightarrow> fs'
      | (Inr n, fs') \<Rightarrow> dc_evict b fs')"

text \<open>
  \<open>ReadBlob\<close>.  \<open>singleflight\<close> shares the fetch of calls that run at the same time; a call on its own
  runs it.
\<close>

definition cache_ReadBlob ::
  "('st, 'w) DiskCache \<Rightarrow> string \<Rightarrow> 'st cache_state \<Rightarrow> (goerror + bytes) \<times> 'st cache_state"
where
  "cache_ReadBlob b blobName s =
     (case disk_ReadBlob (dc_gz b) (dc_dir b) blobName (dc_fs s) of
        (Inr data, fs) \<Rightarrow> (Inr data, s\<lparr>dc_fs := fs\<rparr>)
      | (Inl _, fs) \<Rightarrow>
          (case op_ReadBlob (dc_store b) blobName (dc_backing s) of
             (Inl e, st) \<Rightarrow> (Inl e, s\<lparr>dc_fs := fs, dc_backing := st\<rparr>)
           | (Inr data, st) \<Rightarrow>
               (Inr data, s\<lparr>dc_fs := populate b blobName data fs, dc_backing := st\<rparr>)))"

definition cache_WriteBlob ::
  "('st, 'w) DiskCache \<Rightarrow> string \<Rightarrow> bytes \<Rightarrow> 'st cache_state \<Rightarrow> (goerror + int) \<times> 'st cache_state"
where
  "cache_WriteBlob b blobName data s =
     (case op_WriteBlob (dc_store b) blobName data (dc_backing s) of
        (Inl e, st) \<Rightarrow> (Inl e, s\<lparr>dc_backing := st\<rparr>)
      | (Inr n, st) \<Rightarrow>
          (Inr n, s\<lparr>dc_backing := st, dc_fs := populate b blobName data (dc_fs s)\<rparr>))"

definition cache_DeleteBlob ::
  "('st, 'w) DiskCache \<Rightarrow> string \<Rightarrow> 'st cache_state \<Rightarrow> goerror option \<times> 'st cache_state"
where
  "cache_DeleteBlob b blobName s =
     (case op_DeleteBlob (dc_store b) blobName (dc_backing s) of
        (Some e, st) \<Rightarrow> (Some e, s\<lparr>dc_backing := st\<rparr>)
      | (None, st) \<Rightarrow>
          (case disk_DeleteBlob (dc_dir b) blobName (dc_fs s) of
             (_, fs) \<Rightarrow> (None, s\<lparr>dc_backing := st, dc_fs := fs\<rparr>)))"

definition cache_BlobExists ::
  "('st, 'w) DiskCache \<Rightarrow> string \<Rightarrow> 'st cache_state \<Rightarrow> (goerror + bool) \<times> 'st cache_state"
where
  "cache_BlobExists b blobName s =
     (case op_BlobExists (dc_store b) blobName (dc_backing s) of
        (r, st) \<Rightarrow> (r, s\<lparr>dc_backing := st\<rparr>))"

record 'w teeWriteCloser =
  tee_backing :: 'w
  tee_cache :: "compressFileWriter option"

definition cache_Writer ::
  "('st, 'w) DiskCache \<Rightarrow> string \<Rightarrow> 'st cache_state \<Rightarrow>
   (goerror + 'w teeWriteCloser) \<times> 'st cache_state"
where
  "cache_Writer b blobName s =
     (case op_Writer (dc_store b) blobName (dc_backing s) of
        (Inl e, st) \<Rightarrow> (Inl e, s\<lparr>dc_backing := st\<rparr>)
      | (Inr backingW, st) \<Rightarrow>
          (case disk_Writer (dc_dir b) blobName (dc_fs s) of
             (Inl e, fs) \<Rightarrow>
               (Inr \<lparr>tee_backing = backingW, tee_cache = None\<rparr>, s\<lparr>dc_backing := st, dc_fs := fs\<rparr>)
           | (Inr cacheW, fs) \<Rightarrow>
               (Inr \<lparr>tee_backing = backingW, tee_cache = Some cacheW\<rparr>,
                s\<lparr>dc_backing := st, dc_fs := fs\<rparr>)))"

definition tee_Write ::
  "('st, 'w) DiskCache \<Rightarrow> 'w teeWriteCloser \<Rightarrow> bytes \<Rightarrow> 'st cache_state \<Rightarrow>
   ((int \<times> goerror option) \<times> 'w teeWriteCloser \<times> 'st cache_state) option"
where
  "tee_Write b t p s =
     (case op_Write (dc_store b) (tee_backing t) p (dc_backing s) of
        None \<Rightarrow> None
      | Some ((n, Some e), w, st) \<Rightarrow>
          Some ((n, Some e), t\<lparr>tee_backing := w\<rparr>, s\<lparr>dc_backing := st\<rparr>)
      | Some ((n, None), w, st) \<Rightarrow>
          (case tee_cache t of
             None \<Rightarrow> Some ((n, None), t\<lparr>tee_backing := w\<rparr>, s\<lparr>dc_backing := st\<rparr>)
           | Some cw \<Rightarrow>
               (case cfw_Write (dc_gz b) cw p (dc_fs s) of
                  None \<Rightarrow> None
                | Some ((m, cerr), cw', fs) \<Rightarrow>
                    Some ((n, None),
                      t\<lparr>tee_backing := w, tee_cache := (if cerr = None then Some cw' else None)\<rparr>,
                      s\<lparr>dc_backing := st, dc_fs := fs\<rparr>))))"

definition tee_Close ::
  "('st, 'w) DiskCache \<Rightarrow> 'w teeWriteCloser \<Rightarrow> 'st cache_state \<Rightarrow>
   (goerror option \<times> 'st cache_state) option"
where
  "tee_Close b t s =
     (case op_Close (dc_store b) (tee_backing t) (dc_backing s) of
        None \<Rightarrow> None
      | Some (err, st) \<Rightarrow>
          (case tee_cache t of
             None \<Rightarrow> Some (err, s\<lparr>dc_backing := st\<rparr>)
           | Some cw \<Rightarrow>
               (case cfw_Close (dc_gz b) cw (dc_fs s) of
                  None \<Rightarrow> None
                | Some (Some cerr, fs) \<Rightarrow> Some (err, s\<lparr>dc_backing := st, dc_fs := fs\<rparr>)
                | Some (None, fs) \<Rightarrow> Some (err, s\<lparr>dc_backing := st, dc_fs := dc_evict b fs\<rparr>))))"

definition cache_ops ::
  "('st, 'w) DiskCache \<Rightarrow> ('st cache_state, 'w teeWriteCloser) Blobstore"
where
  "cache_ops b =
     \<lparr>op_BlobExists = cache_BlobExists b, op_ReadBlob = cache_ReadBlob b,
      op_WriteBlob = cache_WriteBlob b, op_DeleteBlob = cache_DeleteBlob b,
      op_Writer = cache_Writer b, op_Write = tee_Write b, op_Close = tee_Close b\<rparr>"

section \<open>What eviction does to the file system\<close>

text \<open>Names disappear, nothing else.\<close>

definition shrinks :: "osfs \<Rightarrow> osfs \<Rightarrow> bool" where
  "shrinks fs fs' \<longleftrightarrow> fs_ok fs' \<and> os_next fs' = os_next fs \<and> os_dirs fs' = os_dirs fs \<and>
     os_inodes fs' = os_inodes fs \<and> (os_faults fs = [] \<longrightarrow> os_faults fs' = []) \<and>
     (\<forall>q. inode_of fs' q = inode_of fs q \<or> inode_of fs' q = None)"

lemma shrinks_refl: "fs_ok fs \<Longrightarrow> shrinks fs fs"
  by (simp add: shrinks_def)

lemma shrinks_trans: "shrinks fs fs' \<Longrightarrow> shrinks fs' fs'' \<Longrightarrow> shrinks fs fs''"
  unfolding shrinks_def by metis

lemma shrinks_tick: "fs_ok fs \<Longrightarrow> shrinks fs (tick fs)"
  by (simp add: shrinks_def) (simp add: tick_def)

lemma shrinks_live: "shrinks fs fs' \<Longrightarrow> disk_live d fs \<Longrightarrow> disk_live d fs'"
  by (auto simp: shrinks_def disk_live_def)

lemma os_Remove_shrinks:
  assumes "fs_ok fs" "p \<notin> set (os_dirs fs)" "os_Remove p fs = (r, fs')"
  shows "shrinks fs fs'"
proof (cases "next_fault fs = None \<and> inode_of fs p \<noteq> None")
  case True
  let ?new = "(tick fs)\<lparr>os_names := filter (\<lambda>(q, i). q \<noteq> p) (os_names fs)\<rparr>"
  have "fs_ok ?new"
    using fs_ok_tick [OF assms(1)] by (auto simp: fs_ok_def distinct_map_filter)
  moreover have "fs' = ?new" using True assms(3) by (auto simp: os_Remove_def)
  ultimately show ?thesis
    by (auto simp: shrinks_def inode_of_def map_of_drop_key tick_def)
next
  case False
  with assms have "fs' = tick fs" by (auto simp: os_Remove_def split: option.splits)
  with assms(1) show ?thesis by (simp add: shrinks_tick)
qed

lemma os_Info_tick: "os_Info p fs = (r, fs') \<Longrightarrow> fs' = tick fs"
  by (auto simp: os_Info_def split: option.splits if_splits)

lemma list_files_Cons:
  assumes "list_files dir (e # es) files tot fs = ((files', tot'), fs')"
  obtains (skip) fs1 where "fs1 = fs \<or> fs1 = tick fs"
      "list_files dir es files tot fs1 = ((files', tot'), fs')"
    | (take) sz m where "\<not> de_IsDir e"
      "os_Info (filepath_Join dir (de_Name e)) fs = (Inr (sz, m), tick fs)"
      "list_files dir es (files @ [\<lparr>cf_name = de_Name e, cf_size = sz, cf_modTime = int64 m\<rparr>])
        (int64 (tot + sz)) (tick fs) = ((files', tot'), fs')"
  using assms
  by (auto dest: os_Info_tick split: if_splits prod.splits sum.splits)

lemma list_files_shrinks:
  "fs_ok fs \<Longrightarrow> list_files dir es files tot fs = ((files', tot'), fs') \<Longrightarrow> shrinks fs fs'"
proof (induction es arbitrary: files tot fs)
  case (Cons e es)
  show ?case
    using Cons.prems(2)
  proof (cases rule: list_files_Cons)
    case (skip fs1)
    with Cons.IH [OF _ skip(2)] Cons.prems(1) show ?thesis
      by (auto intro: shrinks_trans [OF shrinks_tick])
  next
    case (take sz m)
    with Cons.IH [OF _ take(3)] Cons.prems(1) show ?thesis
      by (auto intro: shrinks_trans [OF shrinks_tick])
  qed
qed (simp add: shrinks_refl)

lemma list_files_names:
  "list_files dir es files tot fs = ((files', tot'), fs') \<Longrightarrow>
   cf_name ` set files' \<subseteq> cf_name ` set files \<union> de_Name ` {e \<in> set es. \<not> de_IsDir e}"
proof (induction es arbitrary: files tot fs)
  case (Cons e es)
  show ?case
    using Cons.prems
  proof (cases rule: list_files_Cons)
    case (skip fs1)
    with Cons.IH [OF skip(2)] show ?thesis by auto
  next
    case (take sz m)
    with Cons.IH [OF take(3)] show ?thesis by auto
  qed
qed auto

lemma remove_files_shrinks:
  assumes "fs_ok fs" "\<forall>f \<in> set files. filepath_Join dir (cf_name f) \<notin> set (os_dirs fs)"
  shows "shrinks fs (remove_files dir maxBytes files tot fs)"
  using assms
proof (induction files arbitrary: tot fs)
  case (Cons f files)
  obtain r fs1 where r: "os_Remove (filepath_Join dir (cf_name f)) fs = (r, fs1)" by force
  then have s: "shrinks fs fs1" using Cons.prems by (intro os_Remove_shrinks) auto
  then have "fs_ok fs1" "os_dirs fs1 = os_dirs fs" by (simp_all add: shrinks_def)
  with Cons r s show ?case
    by (cases r) (auto intro: shrinks_trans [OF s] shrinks_refl)
qed (simp add: shrinks_refl)

text \<open>What is assumed of the sorting function: its result is a permutation in the order of the times.\<close>

definition sort_lawful :: "(cache_file list \<Rightarrow> cache_file list) \<Rightarrow> bool" where
  "sort_lawful sorter \<longleftrightarrow>
     (\<forall>fs. mset (sorter fs) = mset fs \<and> sorted (map cf_modTime (sorter fs)))"

lemma evict_shrinks:
  assumes "fs_ok fs" "dir \<noteq> []" "sort_lawful sorter"
  shows "shrinks fs (evict sorter dir maxBytes fs)"
proof -
  obtain r fs1 where rd: "os_ReadDir dir fs = (r, fs1)" by force
  then have fs1: "fs1 = tick fs" by (auto simp: os_ReadDir_def split: option.splits if_splits)
  show ?thesis
  proof (cases r)
    case (Inl e)
    with rd fs1 assms(1) show ?thesis by (simp add: evict_def shrinks_tick shrinks_refl)
  next
    case (Inr entries)
    obtain files tot fs2 where l: "list_files dir entries [] 0 fs1 = ((files, tot), fs2)"
      by (metis surj_pair)
    have s2: "shrinks fs fs2"
      using list_files_shrinks [OF _ l] assms(1) fs1 by (auto intro: shrinks_trans shrinks_tick)
    have "filepath_Join dir (cf_name f) \<notin> set (os_dirs fs)" if f: "f \<in> set files" for f
    proof -
      from list_files_names [OF l] f obtain e where
        "e \<in> set entries" "\<not> de_IsDir e" "cf_name f = de_Name e" by auto
      with rd Inr obtain q where q: "q \<in> set (files_in fs dir)" "cf_name f = path_base q"
        by (auto simp: os_ReadDir_def split: option.splits if_splits)
      then have "q \<in> fst ` set (os_names fs)" "parent_dir q = Clean dir"
        by (auto simp: files_in_def)
      with assms(1,2) q show ?thesis
        by (auto simp: fs_ok_def normal_path_in_dir)
    qed
    moreover have "set (sorter files) = set files"
      using assms(3) unfolding sort_lawful_def by (metis set_mset_mset)
    ultimately have "shrinks fs2 (remove_files dir maxBytes (sorter files) tot fs2)"
      using s2 by (intro remove_files_shrinks) (auto simp: shrinks_def)
    with s2 Inr rd l assms(1) show ?thesis
      by (auto simp: evict_def shrinks_refl intro: shrinks_trans)
  qed
qed

section \<open>What the cache knows of a blob\<close>

text \<open>
  \<open>cache_fresh\<close>: what can be read from the cache is \<open>d\<close>.  \<open>cache_writing\<close>: the writer took the
  chunks \<open>cs\<close>, and its file is the cache entry of the blob, unless the entry was evicted.
\<close>

definition cache_fresh :: "('st, 'w) DiskCache \<Rightarrow> osfs \<Rightarrow> string \<Rightarrow> bytes \<Rightarrow> bool" where
  "cache_fresh b fs n d \<longleftrightarrow>
     (\<forall>f x. file_at fs (blob_file (dc_dir b) n) = Some f \<and> gz_reader (dc_gz b) f = Inr x \<longrightarrow> x = d)"

definition cache_writing ::
  "('st, 'w) DiskCache \<Rightarrow> osfs \<Rightarrow> compressFileWriter \<Rightarrow> string \<Rightarrow> bytes list \<Rightarrow> bool"
where
  "cache_writing b fs w n cs \<longleftrightarrow>
     v_writing (disk_view (dc_gz b) (dc_dir b)) fs w n cs \<or>
     cfw_gz w = \<lparr>gzw_chunks = cs, gzw_err = None\<rparr> \<and> orphan fs (cfw_ino w) \<and>
     inode_of fs (blob_file (dc_dir b) n) = None"

definition cache_same :: "('st, 'w) DiskCache \<Rightarrow> string \<Rightarrow> osfs \<Rightarrow> osfs \<Rightarrow> bool" where
  "cache_same b m fs fs' \<longleftrightarrow>
     (\<forall>d. cache_fresh b fs m d \<longrightarrow> cache_fresh b fs' m d) \<and>
     (\<forall>w cs. cache_writing b fs w m cs \<longrightarrow> cache_writing b fs' w m cs)"

definition cache_ready :: "('st, 'w) DiskCache \<Rightarrow> osfs \<Rightarrow> bool" where
  "cache_ready b fs \<longleftrightarrow> fs_ok fs \<and> disk_live (dc_dir b) fs \<and> dc_dir b \<noteq> [] \<and>
     gzip_lawful (dc_gz b) \<and> sort_lawful (dc_sort b)"

definition cache_frame :: "('st, 'w) DiskCache \<Rightarrow> string \<Rightarrow> osfs \<Rightarrow> osfs \<Rightarrow> bool" where
  "cache_frame b n fs fs' \<longleftrightarrow> cache_ready b fs' \<and>
     (\<forall>m. simple_name m \<and> m \<noteq> n \<longrightarrow> cache_same b m fs fs')"

lemma cache_ready_sel:
  assumes "cache_ready b fs"
  shows "fs_ok fs" "disk_live (dc_dir b) fs" "dc_dir b \<noteq> []" "gzip_lawful (dc_gz b)"
    "sort_lawful (dc_sort b)" "v_inv (disk_view (dc_gz b) (dc_dir b)) fs"
  using assms by (simp_all add: cache_ready_def)

lemma cache_same_refl: "cache_same b m fs fs"
  by (simp add: cache_same_def)

lemma cache_same_trans: "cache_same b m fs fs' \<Longrightarrow> cache_same b m fs' fs'' \<Longrightarrow> cache_same b m fs fs''"
  by (simp add: cache_same_def)

lemma cache_same_shrinks:
  assumes "fs_ok fs" "shrinks fs fs'"
  shows "cache_same b m fs fs'"
proof -
  let ?p = "blob_file (dc_dir b) m"
  have i: "inode_of fs' q = inode_of fs q \<or> inode_of fs' q = None" "os_inodes fs' = os_inodes fs"
    "os_next fs' = os_next fs" for q
    using assms(2) by (auto simp: shrinks_def)
  have "file_at fs' ?p = file_at fs ?p \<or> file_at fs' ?p = None"
    using i(1) [of ?p] i(2) by (auto simp: file_at_def)
  then have "cache_fresh b fs m d \<Longrightarrow> cache_fresh b fs' m d" for d
    by (auto simp: cache_fresh_def)
  moreover have "cache_writing b fs' w m cs" if "cache_writing b fs w m cs" for w cs
  proof (cases "inode_of fs ?p = Some (cfw_ino w)")
    case True
    then have w: "v_writing (disk_view (dc_gz b) (dc_dir b)) fs w m cs"
      using that by (auto simp: cache_writing_def)
    have "\<And>q. inode_of fs q = Some (cfw_ino w) \<Longrightarrow> q = ?p"
      using inode_of_inj [OF assms(1)] True by blast
    then have "orphan fs' (cfw_ino w)" if "inode_of fs' ?p = None"
      using that i inode_of_less [OF assms(1) True] unfolding orphan_def by (metis option.discI)
    with w i(1) [of ?p] i(2,3) show ?thesis
      by (auto simp: cache_writing_def disk_view_sel)
  next
    case False
    then have "cfw_gz w = \<lparr>gzw_chunks = cs, gzw_err = None\<rparr>" "orphan fs (cfw_ino w)" "inode_of fs ?p = None"
      using that by (auto simp: cache_writing_def disk_view_sel)
    moreover have "orphan fs' (cfw_ino w)"
      using i calculation(2) unfolding orphan_def by (metis option.discI)
    ultimately show ?thesis using i(1) [of ?p] by (auto simp: cache_writing_def)
  qed
  ultimately show ?thesis by (simp add: cache_same_def)
qed

lemma cache_same_only_at:
  assumes "fs_ok fs" "only_at p fs fs'" "blob_file (dc_dir b) m \<noteq> p"
  shows "cache_same b m fs fs'"
proof -
  let ?q = "blob_file (dc_dir b) m"
  have f: "file_at fs' ?q = file_at fs ?q" "inode_of fs' ?q = inode_of fs ?q"
    using assms only_at_file [OF assms(2,3)] by (auto simp: only_at_def)
  have o: "orphan fs' i" if "orphan fs i" for i
  proof -
    have "inode_of fs' q \<noteq> Some i" for q
      using assms(2) that unfolding only_at_def orphan_def
      by (cases "q = p") (auto simp: not_le [symmetric])
    with that assms(2) show ?thesis by (auto simp: orphan_def only_at_def)
  qed
  have d: "inode_of fs ?q = Some i \<Longrightarrow> f_data (os_inodes fs' i) = f_data (os_inodes fs i)" for i
    using assms(2,3) by (auto simp: only_at_def)
  show ?thesis
    using f o d by (auto simp: cache_same_def cache_fresh_def cache_writing_def disk_view_sel)
qed

lemma cache_frame_only_at:
  assumes "cache_ready b fs" "simple_name n" "only_at (blob_file (dc_dir b) n) fs fs'"
    and "disk_live (dc_dir b) fs'"
  shows "cache_frame b n fs fs'"
proof -
  note r = cache_ready_sel [OF assms(1)]
  have "fs_ok fs'" using assms(3) by (simp add: only_at_def)
  with r assms blob_file_inj [OF r(3)] show ?thesis
    by (auto simp: cache_frame_def cache_ready_def intro!: cache_same_only_at [OF r(1) assms(3)])
qed

lemma cache_frame_trans: "cache_frame b n fs fs' \<Longrightarrow> cache_frame b n fs' fs'' \<Longrightarrow> cache_frame b n fs fs''"
  by (auto simp: cache_frame_def intro: cache_same_trans)

lemma cache_frame_evict:
  assumes "cache_ready b fs"
  shows "cache_frame b n fs (dc_evict b fs)" "cache_same b m fs (dc_evict b fs)"
proof -
  note r = cache_ready_sel [OF assms]
  have s: "shrinks fs (dc_evict b fs)" using evict_shrinks [OF r(1,3,5)] .
  then have "fs_ok (dc_evict b fs)" by (simp add: shrinks_def)
  with r s shrinks_live [OF s r(2)] show "cache_frame b n fs (dc_evict b fs)"
    by (auto simp: cache_frame_def cache_ready_def intro: cache_same_shrinks)
  show "cache_same b m fs (dc_evict b fs)" using cache_same_shrinks [OF r(1) s] .
qed

section \<open>The operations on the cache\<close>

lemma cache_tick:
  assumes "cache_ready b fs"
  shows "cache_frame b n fs (tick fs)" "cache_same b m fs (tick fs)"
proof -
  note r = cache_ready_sel [OF assms]
  show s: "cache_same b m fs (tick fs)" for m using r by (intro cache_same_shrinks shrinks_tick)
  show "cache_frame b n fs (tick fs)"
    using assms s by (auto simp: cache_frame_def cache_ready_def disk_live_tick)
qed

lemma populate_at:
  assumes "cache_ready b fs" "simple_name n"
  shows "cache_frame b n fs (populate b n data fs)" "cache_fresh b (populate b n data fs) n data"
proof -
  note r = cache_ready_sel [OF assms(1)]
  obtain k fs1 where w: "disk_WriteBlob (dc_gz b) (dc_dir b) n data fs = (Inr k, fs1)"
    and l: "disk_live (dc_dir b) fs1"
    using disk_live_WriteBlob [OF r(2,3) assms(2) r(4)] by blast
  note at = disk_WriteBlob_at [OF r(1,4) assms(2) r(3) w]
  then have f1: "cache_frame b n fs fs1" using cache_frame_only_at [OF assms] l by blast
  then have rd: "cache_ready b fs1" by (simp add: cache_frame_def)
  have e: "populate b n data fs = dc_evict b fs1" using w by (simp add: populate_def)
  show "cache_frame b n fs (populate b n data fs)"
    unfolding e using cache_frame_trans [OF f1 cache_frame_evict(1) [OF rd]] .
  have "cache_fresh b fs1 n data"
    using at r(4) by (auto simp: cache_fresh_def gzip_lawful_simps)
  then show "cache_fresh b (populate b n data fs) n data"
    unfolding e using cache_frame_evict(2) [OF rd] by (simp add: cache_same_def)
qed

lemma cache_Delete_at:
  assumes "cache_ready b fs" "simple_name n" "disk_DeleteBlob (dc_dir b) n fs = (r, fs')"
  shows "cache_frame b n fs fs'"
  using assms disk_DeleteBlob_at [OF _ assms(2,3)] disk_live_DeleteBlob [OF _ assms(2)]
    cache_frame_only_at [OF assms(1,2)] cache_ready_sel [OF assms(1)]
  by (metis prod.inject)

lemma cache_Writer_at:
  assumes "cache_ready b fs" "simple_name n"
  obtains w fs' where "disk_Writer (dc_dir b) n fs = (Inr w, fs')" "cache_frame b n fs fs'"
    "cache_writing b fs' w n []"
proof -
  note r = cache_ready_sel [OF assms(1)]
  obtain w fs' where w: "disk_Writer (dc_dir b) n fs = (Inr w, fs')" "disk_live (dc_dir b) fs'"
    using disk_live_Writer [OF r(2,3) assms(2)] by blast
  note at = disk_Writer_at [OF r(1) assms(2) r(3) w(1)]
  then have "cache_frame b n fs fs'" using cache_frame_only_at [OF assms] w(2) by blast
  moreover have "cache_writing b fs' w n []"
    using at r(4) by (auto simp: cache_writing_def disk_view_sel gzip_NewWriter_def gzip_lawful_simps(1))
  ultimately show ?thesis using that w(1) by blast
qed

lemma flush_orphan:
  assumes "fs_ok fs" "orphan fs i" "flush_to (file_sink i) out (off, fs) = Some (err, off', fs')"
  shows "only_at p fs fs' \<and> orphan fs' i \<and> inode_of fs' = inode_of fs"
  using assms orphan_write [OF assms(1,2)]
  by (auto simp: flush_to_def file_sink_def only_at_refl split: if_splits prod.splits)

lemma cache_Write_at:
  assumes "cache_ready b fs" "simple_name n" "cache_writing b fs w n cs"
  obtains k w' fs' where "cfw_Write (dc_gz b) w p fs = Some ((k, None), w', fs')"
    "cache_frame b n fs fs'" "cache_writing b fs' w' n (cs @ [p])"
proof -
  note r = cache_ready_sel [OF assms(1)]
  let ?V = "disk_view (dc_gz b) (dc_dir b)"
  have gz: "cfw_gz w = \<lparr>gzw_chunks = cs, gzw_err = None\<rparr>"
    using assms(3) by (auto simp: cache_writing_def disk_view_sel)
  obtain off fs' where f: "flush_to (file_sink (cfw_ino w)) (drop (length (gz_emitted (dc_gz b) cs))
      (gz_emitted (dc_gz b) (cs @ [p]))) (cfw_off w, fs) = Some (None, off, fs')" "disk_live (dc_dir b) fs'"
    using disk_live_flush [OF r(2)] by blast
  let ?w = "w\<lparr>cfw_gz := \<lparr>gzw_chunks = cs @ [p], gzw_err = None\<rparr>, cfw_off := off\<rparr>"
  have w: "cfw_Write (dc_gz b) w p fs = Some ((int (length p), None), ?w, fs')"
    using f gz by (simp add: cfw_Write_def gzw_Write_def)
  have "only_at (blob_file (dc_dir b) n) fs fs' \<and> cache_writing b fs' ?w n (cs @ [p])"
  proof (cases "v_writing ?V fs w n cs")
    case True
    with cfw_Write_at [OF r(6) True w] show ?thesis by (simp add: cache_writing_def)
  next
    case False
    with assms(3) have o: "orphan fs (cfw_ino w)" "inode_of fs (blob_file (dc_dir b) n) = None"
      by (auto simp: cache_writing_def)
    with flush_orphan [OF r(1) o(1) f(1)] show ?thesis by (simp add: cache_writing_def)
  qed
  with that w cache_frame_only_at [OF assms(1,2) _ f(2)] show ?thesis by blast
qed

lemma cache_Close_at:
  assumes "cache_ready b fs" "simple_name n" "cache_writing b fs w n cs"
  obtains fs' where "cfw_Close (dc_gz b) w fs = Some (None, fs')"
    "cache_frame b n fs fs'" "cache_fresh b fs' n (concat cs)"
proof -
  note r = cache_ready_sel [OF assms(1)]
  let ?V = "disk_view (dc_gz b) (dc_dir b)" and ?p = "blob_file (dc_dir b) n"
  have gz: "cfw_gz w = \<lparr>gzw_chunks = cs, gzw_err = None\<rparr>"
    using assms(3) by (auto simp: cache_writing_def disk_view_sel)
  obtain off fs1 where f: "flush_to (file_sink (cfw_ino w)) (drop (length (gz_emitted (dc_gz b) cs))
      (gz_stream (dc_gz b) cs)) (cfw_off w, fs) = Some (None, off, fs1)" "disk_live (dc_dir b) fs1"
    using disk_live_flush [OF r(2)] by blast
  have w: "cfw_Close (dc_gz b) w fs = Some (None, tick fs1)"
    using f gz disk_live_no_fault [OF f(2)] by (simp add: cfw_Close_def gzw_Close_def sys_close_def)
  have "only_at ?p fs (tick fs1) \<and> cache_fresh b (tick fs1) n (concat cs)"
  proof (cases "v_writing ?V fs w n cs")
    case True
    with cfw_Close_at [OF r(6) True w] r(4) show ?thesis
      by (auto simp: cache_fresh_def file_at_def gzip_lawful_simps)
  next
    case False
    with assms(3) have o: "orphan fs (cfw_ino w)" "inode_of fs ?p = None"
      by (auto simp: cache_writing_def)
    note fo = flush_orphan [OF r(1) o(1) f(1), of ?p]
    then have "only_at ?p fs1 (tick fs1)" by (simp add: only_at_def [of _ fs] only_at_tick)
    with fo o show ?thesis
      by (auto simp: cache_fresh_def file_at_def intro: only_at_trans)
  qed
  with that w cache_frame_only_at [OF assms(1,2) _ disk_live_tick [OF f(2)]] show ?thesis by blast
qed

section \<open>The contract\<close>

definition cache_view ::
  "('st, 'w) blob_view \<Rightarrow> ('st, 'w) DiskCache \<Rightarrow> ('st cache_state, 'w teeWriteCloser) blob_view"
where
  "cache_view V b =
     \<lparr>v_inv = (\<lambda>s. v_inv V (dc_backing s) \<and> cache_ready b (dc_fs s)),
      v_ok = (\<lambda>n. v_ok V n \<and> simple_name n),
      v_holds = (\<lambda>s n d. v_holds V (dc_backing s) n d \<and> cache_fresh b (dc_fs s) n d),
      v_absent = (\<lambda>s n. v_absent V (dc_backing s) n),
      v_writing = (\<lambda>s t n cs. v_writing V (dc_backing s) (tee_backing t) n cs \<and>
                     (\<exists>cw. tee_cache t = Some cw \<and> cache_writing b (dc_fs s) cw n cs)),
      v_broken = (\<lambda>s t n. v_broken V (dc_backing s) (tee_backing t) n \<and>
                     (\<exists>cw cs. tee_cache t = Some cw \<and> cache_writing b (dc_fs s) cw n cs))\<rparr>"

lemma cache_view_sel:
  "v_inv (cache_view V b) s \<longleftrightarrow> v_inv V (dc_backing s) \<and> cache_ready b (dc_fs s)"
  "v_ok (cache_view V b) n \<longleftrightarrow> v_ok V n \<and> simple_name n"
  "v_holds (cache_view V b) s n d \<longleftrightarrow>
     v_holds V (dc_backing s) n d \<and> cache_fresh b (dc_fs s) n d"
  "v_absent (cache_view V b) s n \<longleftrightarrow> v_absent V (dc_backing s) n"
  "v_writing (cache_view V b) s t n cs \<longleftrightarrow> v_writing V (dc_backing s) (tee_backing t) n cs \<and>
     (\<exists>cw. tee_cache t = Some cw \<and> cache_writing b (dc_fs s) cw n cs)"
  "v_broken (cache_view V b) s t n \<longleftrightarrow> v_broken V (dc_backing s) (tee_backing t) n \<and>
     (\<exists>cw cs. tee_cache t = Some cw \<and> cache_writing b (dc_fs s) cw n cs)"
  by (simp_all add: cache_view_def)

lemma same_at_cached:
  "same_at V m (dc_backing s) (dc_backing s') \<Longrightarrow> cache_same b m (dc_fs s) (dc_fs s') \<Longrightarrow>
   same_at (cache_view V b) m s s'"
  by (auto simp: same_at_def cache_view_sel cache_same_def) blast+

lemma kept_cached:
  assumes "kept V n (dc_backing s) (dc_backing s')" "cache_frame b n (dc_fs s) (dc_fs s')"
  shows "kept (cache_view V b) n s s'"
  using assms
  by (auto simp: kept_def cache_view_sel cache_frame_def intro!: same_at_cached)

lemma cache_ops_simps [simp]:
  "op_BlobExists (cache_ops b) = cache_BlobExists b" "op_ReadBlob (cache_ops b) = cache_ReadBlob b"
  "op_WriteBlob (cache_ops b) = cache_WriteBlob b" "op_DeleteBlob (cache_ops b) = cache_DeleteBlob b"
  "op_Writer (cache_ops b) = cache_Writer b" "op_Write (cache_ops b) = tee_Write b"
  "op_Close (cache_ops b) = tee_Close b"
  by (simp_all add: cache_ops_def)

lemma cache_frame_refl: "cache_ready b fs \<Longrightarrow> cache_frame b n fs fs"
  by (simp add: cache_frame_def cache_same_refl)

text \<open>
  The laws of the contract for the cached store, over a backing store that meets it.
\<close>

context blobstore
begin

lemma cached_exists:
  assumes "dc_store b = bs" "v_inv (cache_view V b) s" "v_ok (cache_view V b) n"
    and "cache_BlobExists b n s = (r, s')"
  shows "kept (cache_view V b) n s s' \<and> same_at (cache_view V b) n s s' \<and>
    (\<forall>d. v_holds (cache_view V b) s n d \<longrightarrow> r \<noteq> Inr False) \<and>
    (v_absent (cache_view V b) s n \<longrightarrow> r \<noteq> Inr True)"
proof -
  obtain st where e: "op_BlobExists bs n (dc_backing s) = (r, st)" "s' = s\<lparr>dc_backing := st\<rparr>"
    using assms(1,4) by (auto simp: cache_BlobExists_def split: prod.splits)
  have "v_inv V (dc_backing s)" "v_ok V n" "cache_ready b (dc_fs s)"
    using assms(2,3) by (simp_all add: cache_view_sel)
  with exists_law [OF this(1,2) e(1)] e(2) show ?thesis
    by (auto simp: cache_view_sel intro!: kept_cached same_at_cached cache_frame_refl cache_same_refl)
qed

lemma cached_read:
  assumes "dc_store b = bs" "v_inv (cache_view V b) s" "v_ok (cache_view V b) n"
    and "cache_ReadBlob b n s = (r, s')"
  shows "kept (cache_view V b) n s s' \<and>
    (\<forall>d. v_holds (cache_view V b) s n d \<longrightarrow>
       v_holds (cache_view V b) s' n d \<and> (\<forall>d'. r = Inr d' \<longrightarrow> d' = d))"
proof -
  have i: "v_inv V (dc_backing s)" "v_ok V n" "simple_name n" "cache_ready b (dc_fs s)"
    using assms(2,3) by (simp_all add: cache_view_sel)
  obtain rc fs1 where c: "disk_ReadBlob (dc_gz b) (dc_dir b) n (dc_fs s) = (rc, fs1)" by force
  note dr = disk_ReadBlob_result [OF i(3) c]
  obtain rb st where rb: "op_ReadBlob bs n (dc_backing s) = (rb, st)" by force
  note bl = read_law [OF i(1,2) rb]
  have t: "cache_frame b n (dc_fs s) fs1" "cache_same b n (dc_fs s) fs1" "cache_ready b fs1"
    using dr cache_tick [OF i(4)] by (auto simp: cache_frame_def)
  show ?thesis
  proof (cases rc)
    case (Inr data)
    then have s': "s' = s\<lparr>dc_fs := fs1\<rparr>" "r = Inr data"
      using assms(4) c by (simp_all add: cache_ReadBlob_def)
    have "data = d" if "cache_fresh b (dc_fs s) n d" for d
      using that dr Inr by (auto simp: cache_fresh_def)
    with s' t i(1) show ?thesis
      by (auto simp: cache_view_sel cache_same_def intro!: kept_cached kept_refl)
  next
    case (Inl e)
    show ?thesis
    proof (cases rb)
      case (Inl e')
      with \<open>rc = Inl e\<close> assms(1,4) c rb have "s' = s\<lparr>dc_fs := fs1, dc_backing := st\<rparr>" "r = Inl e'"
        by (simp_all add: cache_ReadBlob_def)
      with bl t show ?thesis by (auto simp: cache_view_sel cache_same_def intro!: kept_cached)
    next
      case (Inr data)
      with \<open>rc = Inl e\<close> assms(1,4) c rb have
        "s' = s\<lparr>dc_fs := populate b n data fs1, dc_backing := st\<rparr>" "r = Inr data"
        by (simp_all add: cache_ReadBlob_def)
      with bl Inr populate_at [OF t(3) i(3), of data] t(1) show ?thesis
        by (auto simp: cache_view_sel intro!: kept_cached intro: cache_frame_trans)
    qed
  qed
qed

lemma cached_write:
  assumes "dc_store b = bs" "v_inv (cache_view V b) s" "v_ok (cache_view V b) n"
    and "cache_WriteBlob b n data s = (r, s')"
  shows "kept (cache_view V b) n s s' \<and> (\<forall>k. r = Inr k \<longrightarrow> v_holds (cache_view V b) s' n data)"
proof -
  have i: "v_inv V (dc_backing s)" "v_ok V n" "simple_name n" "cache_ready b (dc_fs s)"
    using assms(2,3) by (simp_all add: cache_view_sel)
  obtain rb st where rb: "op_WriteBlob bs n data (dc_backing s) = (rb, st)" by force
  note bl = write_law [OF i(1,2) rb]
  show ?thesis
    using assms(1,4) rb bl populate_at [OF i(4,3), of data] cache_frame_refl [OF i(4)]
    by (cases rb) (auto simp: cache_WriteBlob_def cache_view_sel intro!: kept_cached)
qed

lemma cached_delete:
  assumes "dc_store b = bs" "v_inv (cache_view V b) s" "v_ok (cache_view V b) n"
    and "cache_DeleteBlob b n s = (r, s')"
  shows "kept (cache_view V b) n s s' \<and> (r = None \<longrightarrow> v_absent (cache_view V b) s' n)"
proof -
  have i: "v_inv V (dc_backing s)" "v_ok V n" "simple_name n" "cache_ready b (dc_fs s)"
    using assms(2,3) by (simp_all add: cache_view_sel)
  obtain rb st where rb: "op_DeleteBlob bs n (dc_backing s) = (rb, st)" by force
  obtain rc fs where rc: "disk_DeleteBlob (dc_dir b) n (dc_fs s) = (rc, fs)" by force
  show ?thesis
    using assms(1,4) rb rc delete_law [OF i(1,2) rb] cache_Delete_at [OF i(4,3) rc]
      cache_frame_refl [OF i(4)]
    by (cases rb) (auto simp: cache_DeleteBlob_def cache_view_sel intro!: kept_cached)
qed

lemma cached_writer:
  assumes "dc_store b = bs" "v_inv (cache_view V b) s" "v_ok (cache_view V b) n"
    and "cache_Writer b n s = (r, s')"
  shows "kept (cache_view V b) n s s' \<and> (\<forall>w. r = Inr w \<longrightarrow> v_writing (cache_view V b) s' w n [])"
proof -
  have i: "v_inv V (dc_backing s)" "v_ok V n" "simple_name n" "cache_ready b (dc_fs s)"
    using assms(2,3) by (simp_all add: cache_view_sel)
  obtain rb st where rb: "op_Writer bs n (dc_backing s) = (rb, st)" by force
  obtain w fs where w: "disk_Writer (dc_dir b) n (dc_fs s) = (Inr w, fs)"
    "cache_frame b n (dc_fs s) fs" "cache_writing b fs w n []" by (rule cache_Writer_at [OF i(4,3)])
  show ?thesis
    using assms(1,4) rb w writer_law [OF i(1,2) rb] cache_frame_refl [OF i(4)]
    by (cases rb) (auto simp: cache_Writer_def cache_view_sel intro!: kept_cached)
qed

lemma cached_stream:
  assumes "dc_store b = bs" "v_inv (cache_view V b) s" "v_ok (cache_view V b) n"
    and "v_writing (cache_view V b) s t n cs" "tee_Write b t p s = Some ((k, err), t', s')"
  shows "kept (cache_view V b) n s s' \<and>
    (if err = None then v_writing (cache_view V b) s' t' n (cs @ [p])
     else v_broken (cache_view V b) s' t' n)"
proof -
  have i: "v_inv V (dc_backing s)" "v_ok V n" "simple_name n" "cache_ready b (dc_fs s)"
    using assms(2,3) by (simp_all add: cache_view_sel)
  obtain cw where cw: "v_writing V (dc_backing s) (tee_backing t) n cs" "tee_cache t = Some cw"
    "cache_writing b (dc_fs s) cw n cs" using assms(4) by (auto simp: cache_view_sel)
  obtain kb eb w st where wb: "op_Write bs (tee_backing t) p (dc_backing s) = Some ((kb, eb), w, st)"
    using assms(1,5) by (auto simp: tee_Write_def split: option.splits)
  note bl = stream_law [OF i(1,2) cw(1) wb]
  obtain k2 cw' fs where wc: "cfw_Write (dc_gz b) cw p (dc_fs s) = Some ((k2, None), cw', fs)"
    "cache_frame b n (dc_fs s) fs" "cache_writing b fs cw' n (cs @ [p])"
    by (rule cache_Write_at [OF i(4,3) cw(3)])
  show ?thesis
    using assms(1,5) wb wc cw bl cache_frame_refl [OF i(4)]
    by (cases eb) (auto simp: tee_Write_def cache_view_sel intro!: kept_cached)
qed

lemma cached_stream_broken:
  assumes "dc_store b = bs" "v_inv (cache_view V b) s" "v_ok (cache_view V b) n"
    and "v_broken (cache_view V b) s t n" "tee_Write b t p s = Some ((k, err), t', s')"
  shows "kept (cache_view V b) n s s' \<and> err \<noteq> None \<and> v_broken (cache_view V b) s' t' n"
proof -
  have i: "v_inv V (dc_backing s)" "v_ok V n" "cache_ready b (dc_fs s)"
    using assms(2,3) by (simp_all add: cache_view_sel)
  obtain kb eb w st where wb: "op_Write bs (tee_backing t) p (dc_backing s) = Some ((kb, eb), w, st)"
    using assms(1,5) by (auto simp: tee_Write_def split: option.splits)
  from assms(4) have "v_broken V (dc_backing s) (tee_backing t) n" by (simp add: cache_view_sel)
  from stream_broken_law [OF i(1,2) this wb] assms(1,4,5) wb cache_frame_refl [OF i(3)]
  show ?thesis
    by (cases eb) (auto simp: tee_Write_def cache_view_sel intro!: kept_cached)
qed

lemma cached_close_frame:
  assumes "dc_store b = bs" "cache_ready b (dc_fs s)" "simple_name n" "tee_cache t = Some cw"
    and "cache_writing b (dc_fs s) cw n cs" "tee_Close b t s = Some (err, s')"
  obtains "op_Close bs (tee_backing t) (dc_backing s) = Some (err, dc_backing s')"
    "cache_frame b n (dc_fs s) (dc_fs s')" "cache_fresh b (dc_fs s') n (concat cs)"
proof -
  obtain fs where c: "cfw_Close (dc_gz b) cw (dc_fs s) = Some (None, fs)"
    "cache_frame b n (dc_fs s) fs" "cache_fresh b fs n (concat cs)"
    by (rule cache_Close_at [OF assms(2,3,5)])
  then have r: "cache_ready b fs" by (simp add: cache_frame_def)
  have "op_Close bs (tee_backing t) (dc_backing s) = Some (err, dc_backing s')"
    "dc_fs s' = dc_evict b fs"
    using assms(1,4,6) c(1) by (auto simp: tee_Close_def split: option.splits)
  with that c cache_frame_trans [OF c(2) cache_frame_evict(1) [OF r]] cache_frame_evict(2) [OF r, of n]
  show ?thesis by (simp add: cache_same_def)
qed

lemma cached_close:
  assumes "dc_store b = bs" "v_inv (cache_view V b) s" "v_ok (cache_view V b) n"
    and "v_writing (cache_view V b) s t n cs" "tee_Close b t s = Some (err, s')"
  shows "kept (cache_view V b) n s s' \<and> (err = None \<longrightarrow> v_holds (cache_view V b) s' n (concat cs))"
proof -
  have i: "v_inv V (dc_backing s)" "v_ok V n" "simple_name n" "cache_ready b (dc_fs s)"
    using assms(2,3) by (simp_all add: cache_view_sel)
  obtain cw where cw: "v_writing V (dc_backing s) (tee_backing t) n cs" "tee_cache t = Some cw"
    "cache_writing b (dc_fs s) cw n cs" using assms(4) by (auto simp: cache_view_sel)
  show ?thesis
  proof (rule cached_close_frame [OF assms(1) i(4,3) cw(2,3) assms(5)])
    assume c: "op_Close bs (tee_backing t) (dc_backing s) = Some (err, dc_backing s')"
      "cache_frame b n (dc_fs s) (dc_fs s')" "cache_fresh b (dc_fs s') n (concat cs)"
    from close_law [OF i(1,2) cw(1) c(1)] c show ?thesis
      by (auto simp: cache_view_sel intro!: kept_cached)
  qed
qed

lemma cached_close_broken:
  assumes "dc_store b = bs" "v_inv (cache_view V b) s" "v_ok (cache_view V b) n"
    and "v_broken (cache_view V b) s t n" "tee_Close b t s = Some (err, s')"
  shows "kept (cache_view V b) n s s' \<and> err \<noteq> None"
proof -
  have i: "v_inv V (dc_backing s)" "v_ok V n" "simple_name n" "cache_ready b (dc_fs s)"
    using assms(2,3) by (simp_all add: cache_view_sel)
  obtain cw cs where cw: "v_broken V (dc_backing s) (tee_backing t) n" "tee_cache t = Some cw"
    "cache_writing b (dc_fs s) cw n cs" using assms(4) by (auto simp: cache_view_sel)
  show ?thesis
  proof (rule cached_close_frame [OF assms(1) i(4,3) cw(2,3) assms(5)])
    assume c: "op_Close bs (tee_backing t) (dc_backing s) = Some (err, dc_backing s')"
      "cache_frame b n (dc_fs s) (dc_fs s')"
    from close_broken_law [OF i(1,2) cw(1) c(1)] c show ?thesis by (auto intro!: kept_cached)
  qed
qed

text \<open>A cached store over a store that meets the contract meets it.\<close>

lemma cached_blobstore:
  assumes "dc_store b = bs"
  shows "blobstore (cache_ops b) (cache_view V b)"
  by unfold_locales
    (simp_all only: cache_ops_simps,
      (rule cached_exists [OF assms] cached_read [OF assms] cached_write [OF assms]
        cached_delete [OF assms] cached_writer [OF assms] cached_stream [OF assms]
        cached_stream_broken [OF assms] cached_close [OF assms] cached_close_broken [OF assms];
       assumption)+)

end

section \<open>Eviction\<close>

definition file_size :: "osfs \<Rightarrow> string \<Rightarrow> nat" where
  "file_size fs p = (case file_at fs p of Some d \<Rightarrow> length d | None \<Rightarrow> 0)"

definition dir_size :: "osfs \<Rightarrow> string \<Rightarrow> nat" where
  "dir_size fs dir = sum_list (map (file_size fs) (files_in fs dir))"

definition file_mtime :: "osfs \<Rightarrow> string \<Rightarrow> int" where
  "file_mtime fs p = (case inode_of fs p of Some i \<Rightarrow> int64 (f_mtime (os_inodes fs i)) | None \<Rightarrow> 0)"

lemma tick_no_faults [simp]: "os_faults fs = [] \<Longrightarrow> tick fs = fs"
  by (simp add: tick_def)

lemma next_no_faults [simp]: "os_faults fs = [] \<Longrightarrow> next_fault fs = None"
  by (simp add: next_fault_def)

lemma files_in_file:
  assumes "fs_ok fs" "p \<in> set (files_in fs dir)" "dir \<noteq> []"
  shows "\<exists>i. inode_of fs p = Some i" "filepath_Join dir (path_base p) = p"
proof -
  from assms(2) obtain i where i: "(p, i) \<in> set (os_names fs)" "parent_dir p = Clean dir"
    by (auto simp: files_in_def)
  with assms(1) show "\<exists>i. inode_of fs p = Some i" by (auto simp: fs_ok_def inode_of_def)
  from i(1) assms(1) have "normal_path p" by (auto simp: fs_ok_def)
  then show "filepath_Join dir (path_base p) = p" using i(2) assms(3) by (rule normal_path_in_dir)
qed

lemma distinct_files_in: "fs_ok fs \<Longrightarrow> distinct (files_in fs dir)"
  by (simp add: files_in_def fs_ok_def)

text \<open>The entry that the listing makes of a file.\<close>

definition entry_of :: "osfs \<Rightarrow> string \<Rightarrow> cache_file" where
  "entry_of fs p =
     \<lparr>cf_name = path_base p, cf_size = int (file_size fs p), cf_modTime = file_mtime fs p\<rparr>"

lemma list_files_all:
  assumes "os_faults fs = []" "fs_ok fs" "dir \<noteq> []"
    and "\<forall>e \<in> set es. \<not> de_IsDir e \<longrightarrow> (\<exists>p \<in> set (files_in fs dir). de_Name e = path_base p)"
    and "0 \<le> tot" "tot + (\<Sum>e \<leftarrow> filter (\<lambda>e. \<not> de_IsDir e) es.
        int (file_size fs (filepath_Join dir (de_Name e)))) < 2 ^ 63"
  shows "list_files dir es files tot fs =
    ((files @ map (\<lambda>e. entry_of fs (filepath_Join dir (de_Name e))) (filter (\<lambda>e. \<not> de_IsDir e) es),
      tot + (\<Sum>e \<leftarrow> filter (\<lambda>e. \<not> de_IsDir e) es. int (file_size fs (filepath_Join dir (de_Name e))))), fs)"
  using assms(4-)
proof (induction es arbitrary: files tot)
  case (Cons e es)
  show ?case
  proof (cases "de_IsDir e")
    case False
    let ?p = "filepath_Join dir (de_Name e)"
    obtain p where p: "p \<in> set (files_in fs dir)" "de_Name e = path_base p"
      using Cons.prems(1) False by auto
    with files_in_file [OF assms(2) p(1) assms(3)] obtain i where
      i: "inode_of fs p = Some i" "?p = p" by auto
    have info: "os_Info ?p fs = (Inr (int (file_size fs p), f_mtime (os_inodes fs i)), fs)"
      using i assms(1) by (simp add: os_Info_def file_size_def file_at_def)
    have "0 \<le> (\<Sum>e \<leftarrow> filter (\<lambda>e. \<not> de_IsDir e) es. int (file_size fs (filepath_Join dir (de_Name e))))"
      by (intro sum_list_nonneg) auto
    with Cons.prems False i(2) have "int64 (tot + int (file_size fs p)) = tot + int (file_size fs p)"
      by (intro int64_id) (auto simp: int64_min_def int64_max_def)
    with Cons False info i p(2) show ?thesis
      by (simp add: entry_of_def file_mtime_def)
  qed (use Cons in simp)
qed simp

lemma files_in_removed:
  assumes "fs' = fs\<lparr>os_names := filter (\<lambda>(q, i). q \<noteq> p) (os_names fs)\<rparr>"
  shows "files_in fs' dir = filter (\<lambda>q. q \<noteq> p) (files_in fs dir)"
    and "q \<noteq> p \<Longrightarrow> file_size fs' q = file_size fs q"
proof -
  show "files_in fs' dir = filter (\<lambda>q. q \<noteq> p) (files_in fs dir)"
    using assms by (simp add: files_in_def filter_map comp_def case_prod_unfold conj_commute)
  show "q \<noteq> p \<Longrightarrow> file_size fs' q = file_size fs q"
    using assms by (simp add: file_size_def file_at_def inode_of_def map_of_drop_key)
qed

lemma remove_files_spec:
  assumes "os_faults fs = []" "fs_ok fs" "0 < maxBytes" "int (dir_size fs dir) < 2 ^ 63"
    and "mset (files_in fs dir) = mset ps" "\<forall>p \<in> set ps. filepath_Join dir (path_base p) = p"
    and "\<forall>p \<in> set ps. inode_of fs p \<noteq> None" "\<forall>p \<in> set ps. file_size fs0 p = file_size fs p"
  shows "\<exists>k. set (files_in (remove_files dir maxBytes (map (entry_of fs0) ps) (int (dir_size fs dir)) fs) dir) =
        set (drop k ps) \<and>
      int (dir_size (remove_files dir maxBytes (map (entry_of fs0) ps) (int (dir_size fs dir)) fs) dir)
        \<le> maxBytes"
  using assms
proof (induction ps arbitrary: fs)
  case Nil
  then show ?case by (simp add: dir_size_def)
next
  case (Cons p ps)
  let ?fs' = "fs\<lparr>os_names := filter (\<lambda>(q, i). q \<noteq> p) (os_names fs)\<rparr>"
  have d: "distinct (p # ps)" using Cons.prems(2,5) distinct_files_in by (metis mset_eq_imp_distinct_iff)
  show ?case
  proof (cases "int (dir_size fs dir) \<le> maxBytes")
    case True
    with mset_eq_setD [OF Cons.prems(5)] show ?thesis by (intro exI [of _ 0]) simp
  next
    case False
    have rm: "os_Remove p fs = (None, ?fs')" using Cons.prems(1,7) by (auto simp: os_Remove_def)
    note fin = files_in_removed(1) [where fs = fs and p = p and dir = dir, OF refl]
      files_in_removed(2) [where fs = fs and p = p, OF refl]
    have "filter (\<lambda>q. q \<noteq> p) (p # ps) = ps" using d by (auto simp: filter_id_conv)
    then have m: "mset (files_in ?fs' dir) = mset ps"
      unfolding fin(1) mset_filter Cons.prems(5) by (metis mset_filter)
    have sz: "dir_size fs dir = file_size fs p + dir_size ?fs' dir"
    proof -
      have "dir_size fs dir = sum_mset (image_mset (file_size fs) (mset (p # ps)))"
        unfolding dir_size_def Cons.prems(5) [symmetric] by (simp flip: sum_mset_sum_list mset_map)
      moreover have "dir_size ?fs' dir = sum_mset (image_mset (file_size fs) (mset ps))"
      proof -
        have "map (file_size ?fs') (files_in ?fs' dir) = map (file_size fs) (files_in ?fs' dir)"
          unfolding fin(1) by (auto simp: fin(2))
        then show ?thesis
          unfolding dir_size_def m [symmetric] by (simp only: mset_map [symmetric] sum_mset_sum_list)
      qed
      ultimately show ?thesis by simp
    qed
    have "int64 (int (dir_size fs dir) - int (file_size fs p)) = int (dir_size ?fs' dir)"
      using sz Cons.prems(4) by (subst int64_id) (auto simp: int64_min_def int64_max_def)
    then have step: "remove_files dir maxBytes (map (entry_of fs0) (p # ps)) (int (dir_size fs dir)) fs =
        remove_files dir maxBytes (map (entry_of fs0) ps) (int (dir_size ?fs' dir)) ?fs'"
      using False rm Cons.prems(6,8) by (simp add: entry_of_def)
    have "fs_ok ?fs'" using Cons.prems(2) by (auto simp: fs_ok_def distinct_map_filter)
    moreover have "\<forall>q \<in> set ps. inode_of ?fs' q \<noteq> None"
      using d Cons.prems(7) by (auto simp: inode_of_def map_of_drop_key)
    moreover have "\<forall>q \<in> set ps. file_size fs0 q = file_size ?fs' q"
    proof
      fix q assume q: "q \<in> set ps"
      with d have "q \<noteq> p" by auto
      from fin(2) [OF this] q Cons.prems(8) show "file_size fs0 q = file_size ?fs' q" by simp
    qed
    ultimately obtain k where
      "set (files_in (remove_files dir maxBytes (map (entry_of fs0) ps) (int (dir_size ?fs' dir)) ?fs') dir) =
        set (drop k ps)"
      "int (dir_size (remove_files dir maxBytes (map (entry_of fs0) ps) (int (dir_size ?fs' dir)) ?fs') dir)
        \<le> maxBytes"
      using Cons.IH [of ?fs'] Cons.prems m sz by auto
    then show ?thesis unfolding step by (intro exI [of _ "Suc k"]) simp
  qed
qed

lemma int_sum_list: "int (sum_list (map f xs)) = (\<Sum>x \<leftarrow> xs. int (f x))"
  by (induction xs) auto

text \<open>The listing has one entry per file, and sorting it gives the files in the order of their times.\<close>

lemma evict_listing:
  assumes "os_faults fs = []" "fs_ok fs" "dir \<noteq> []" "Clean dir \<in> set (os_dirs fs)"
    and "sort_lawful sorter" "int (dir_size fs dir) < 2 ^ 63"
  obtains entries files ps where "os_ReadDir dir fs = (Inr entries, fs)"
    "list_files dir entries [] 0 fs = ((files, int (dir_size fs dir)), fs)"
    "sorter files = map (entry_of fs) ps" "mset ps = mset (files_in fs dir)"
    "sorted (map (file_mtime fs) ps)"
proof -
  define entries where "entries = sort_key de_Name
    (map (\<lambda>p. \<lparr>de_Name = path_base p, de_IsDir = False\<rparr>) (files_in fs dir) @
     map (\<lambda>p. \<lparr>de_Name = path_base p, de_IsDir = True\<rparr>) (dirs_in fs dir))"
  have rd: "os_ReadDir dir fs = (Inr entries, fs)"
    using assms(1,4) by (simp add: os_ReadDir_def entries_def)
  let ?file = "filter (\<lambda>e. \<not> de_IsDir e) entries" and ?path = "\<lambda>e. filepath_Join dir (de_Name e)"
  have "mset ?file = mset (map (\<lambda>p. \<lparr>de_Name = path_base p, de_IsDir = False\<rparr>) (files_in fs dir))"
    unfolding entries_def mset_filter mset_sort
    by (simp only: mset_filter [symmetric] filter_append filter_map) (simp add: comp_def)
  then have "mset (map ?path ?file) =
      mset (map ?path (map (\<lambda>p. \<lparr>de_Name = path_base p, de_IsDir = False\<rparr>) (files_in fs dir)))"
    by (metis mset_map)
  also have "map ?path (map (\<lambda>p. \<lparr>de_Name = path_base p, de_IsDir = False\<rparr>) (files_in fs dir)) =
      files_in fs dir"
    using files_in_file(2) [OF assms(2) _ assms(3)] by (simp add: map_idI)
  finally have m: "mset (map ?path ?file) = mset (files_in fs dir)" .
  have sum: "(\<Sum>e \<leftarrow> ?file. int (file_size fs (?path e))) = int (dir_size fs dir)"
  proof -
    have "(\<Sum>e \<leftarrow> ?file. int (file_size fs (?path e))) =
        sum_mset (image_mset (\<lambda>p. int (file_size fs p)) (mset (map ?path ?file)))"
      by (simp flip: sum_mset_sum_list add: image_mset.compositionality comp_def)
    then show ?thesis
      unfolding m dir_size_def int_sum_list by (metis mset_map sum_mset_sum_list)
  qed
  have names: "\<forall>e \<in> set entries. \<not> de_IsDir e \<longrightarrow> (\<exists>p \<in> set (files_in fs dir). de_Name e = path_base p)"
    by (auto simp: entries_def)
  let ?files = "map (\<lambda>e. entry_of fs (?path e)) ?file"
  have l: "list_files dir entries [] 0 fs = ((?files, int (dir_size fs dir)), fs)"
    using list_files_all [OF assms(1-3) names, of 0 "[]"] sum assms(6) by simp
  define ps where "ps = map (\<lambda>f. filepath_Join dir (cf_name f)) (sorter ?files)"
  have perm: "mset (sorter ?files) = mset ?files" "sorted (map cf_modTime (sorter ?files))"
    using assms(5) by (auto simp: sort_lawful_def)
  have path_back: "entry_of fs (filepath_Join dir (cf_name f)) = f" if "f \<in> set ?files" for f
  proof -
    from that obtain p where "p \<in> set (map ?path ?file)" "f = entry_of fs p" by auto
    moreover from this have "p \<in> set (files_in fs dir)" using mset_eq_setD [OF m] by simp
    ultimately show ?thesis
      using files_in_file(2) [OF assms(2) _ assms(3)] by (simp add: entry_of_def)
  qed
  have set_eq: "set (sorter ?files) = set ?files" using mset_eq_setD [OF perm(1)] .
  have ps1: "map (entry_of fs) ps = sorter ?files"
    using path_back set_eq by (auto simp: ps_def intro!: map_idI)
  have "mset ps = mset (map (\<lambda>f. filepath_Join dir (cf_name f)) ?files)"
    unfolding ps_def using perm(1) by (metis mset_map)
  also have "map (\<lambda>f. filepath_Join dir (cf_name f)) ?files = map ?path ?file"
  proof -
    have "filepath_Join dir (path_base p) = p" if "p \<in> set (map ?path ?file)" for p
      using that mset_eq_setD [OF m] files_in_file(2) [OF assms(2) _ assms(3)] by auto
    then show ?thesis by (auto simp: entry_of_def)
  qed
  finally have ps2: "mset ps = mset (files_in fs dir)" using m by simp
  have "map cf_modTime (map (entry_of fs) ps) = map (file_mtime fs) ps"
    by (simp add: entry_of_def)
  then have "sorted (map (file_mtime fs) ps)" using perm(2) ps1 by metis
  with that rd l ps1 ps2 show ?thesis by metis
qed

text \<open>
  C13: After an eviction without faults the files in the cache directory take at most \<open>maxBytes\<close>; only
  files of the directory are removed, no removed file is younger than one that is kept, and a cache
  within the limit is left alone.
\<close>
theorem evict_bounds_cache:
  assumes "os_faults fs = []" "fs_ok fs" "dir \<noteq> []" "Clean dir \<in> set (os_dirs fs)"
    and "sort_lawful sorter" "0 < maxBytes" "int (dir_size fs dir) < 2 ^ 63"
  shows "int (dir_size (evict sorter dir maxBytes fs) dir) \<le> maxBytes \<and>
    set (files_in (evict sorter dir maxBytes fs) dir) \<subseteq> set (files_in fs dir) \<and>
    (\<forall>p \<in> set (files_in fs dir). \<forall>q \<in> set (files_in (evict sorter dir maxBytes fs) dir).
       p \<notin> set (files_in (evict sorter dir maxBytes fs) dir) \<longrightarrow> file_mtime fs p \<le> file_mtime fs q) \<and>
    (int (dir_size fs dir) \<le> maxBytes \<longrightarrow> evict sorter dir maxBytes fs = fs)"
proof (rule evict_listing [OF assms(1-5,7)])
  fix entries files ps
  assume l: "os_ReadDir dir fs = (Inr entries, fs)"
    "list_files dir entries [] 0 fs = ((files, int (dir_size fs dir)), fs)"
    "sorter files = map (entry_of fs) ps" "mset ps = mset (files_in fs dir)"
    "sorted (map (file_mtime fs) ps)"
  have set_ps: "set ps = set (files_in fs dir)" using mset_eq_setD [OF l(4)] .
  let ?fs' = "evict sorter dir maxBytes fs"
  show ?thesis
  proof (cases "int (dir_size fs dir) \<le> maxBytes")
    case True
    with l assms(6) have "?fs' = fs" by (simp add: evict_def)
    with True show ?thesis by simp
  next
    case False
    then have e: "?fs' = remove_files dir maxBytes (map (entry_of fs) ps) (int (dir_size fs dir)) fs"
      using l assms(6) by (simp add: evict_def)
    have "\<forall>p \<in> set ps. filepath_Join dir (path_base p) = p" "\<forall>p \<in> set ps. inode_of fs p \<noteq> None"
      using files_in_file [OF assms(2) _ assms(3)] set_ps by auto
    from remove_files_spec [OF assms(1,2,6,7) l(4) [symmetric] this, of fs] obtain k where
      k: "set (files_in ?fs' dir) = set (drop k ps)" "int (dir_size ?fs' dir) \<le> maxBytes"
      unfolding e by blast
    have "file_mtime fs p \<le> file_mtime fs q"
      if "p \<in> set ps" "q \<in> set (drop k ps)" "p \<notin> set (drop k ps)" for p q
    proof -
      have "p \<in> set (take k ps)" using that by (metis Un_iff append_take_drop_id set_append)
      moreover have "sorted (map (file_mtime fs) (take k ps) @ map (file_mtime fs) (drop k ps))"
        using l(5) by (metis append_take_drop_id map_append)
      ultimately show ?thesis using that by (auto simp: sorted_append)
    qed
    with k set_ps False show ?thesis by (auto dest: in_set_dropD)
  qed
qed

definition sample_cache_fs :: osfs where
  "sample_cache_fs =
     \<lparr>os_names = [(''c/a'', 0), (''c/b'', 1)],
      os_inodes = (\<lambda>i. if i = 0 then \<lparr>f_data = ''xxxx'', f_mtime = 1\<rparr> else \<lparr>f_data = ''yy'', f_mtime = 2\<rparr>),
      os_next = 2, os_dirs = [''.'', ''c''], os_clock = 5, os_faults = []\<rparr>"

lemma sort_key_lawful: "sort_lawful (sort_key cf_modTime)"
  by (simp add: sort_lawful_def)

theorem evict_bounds_cache_witness:
  "files_in (evict (sort_key cf_modTime) ''c'' 3 sample_cache_fs) ''c'' = [''c/b''] \<and>
   int (dir_size (evict (sort_key cf_modTime) ''c'' 3 sample_cache_fs) ''c'') \<le> 3"
proof -
  have n: "normal_path ''c/a''" "normal_path ''c/b''" by code_simp+
  then have "fs_ok sample_cache_fs" by (simp add: fs_ok_def sample_cache_fs_def)
  moreover have "Clean ''c'' \<in> set (os_dirs sample_cache_fs)" "int (dir_size sample_cache_fs ''c'') < 2 ^ 63"
    "os_faults sample_cache_fs = []" by code_simp+
  moreover have "files_in (evict (sort_key cf_modTime) ''c'' 3 sample_cache_fs) ''c'' = [''c/b'']" by code_simp
  ultimately show ?thesis
    using evict_bounds_cache [of sample_cache_fs "''c''" "sort_key cf_modTime" 3] sort_key_lawful by simp
qed


definition sample_backing :: "(string, unit) Blobstore" where
  "sample_backing =
     \<lparr>op_BlobExists = (\<lambda>n st. (Inr True, st)), op_ReadBlob = (\<lambda>n st. (Inr st, st)),
      op_WriteBlob = (\<lambda>n d st. (Inr (int (length d)), d)), op_DeleteBlob = (\<lambda>n st. (None, st)),
      op_Writer = (\<lambda>n st. (Inr (), st)), op_Write = (\<lambda>w p st. Some ((int (length p), None), w, st @ p)),
      op_Close = (\<lambda>w st. Some (None, st))\<rparr>"

definition sample_cache :: "(string, unit) DiskCache" where
  "sample_cache =
     \<lparr>dc_store = sample_backing, dc_gz = sample_gzip, dc_sort = sort_key cf_modTime, dc_dir = ''c'',
      dc_maxBytes = 100\<rparr>"

definition stale_state :: "string cache_state" where
  "stale_state =
     \<lparr>dc_backing = ''old'', dc_fs = sample_cache_fs
        \<lparr>os_inodes := (\<lambda>_. \<lparr>f_data = gz_stream sample_gzip [''old''], f_mtime = 1\<rparr>),
         os_faults := [Some (OSErr ''no space left on device'', 0)]\<rparr>\<rparr>"


end
