(* ===== verification/S3.thy ===== *)
theory S3
  imports DiskCache
begin

text \<open>
  The S3 backend, \<open>src/blobstore/s3/s3.go\<close> and \<open>src/blobstore/s3/writer.go\<close>, and the disk cache in
  front of it.  The service and the AWS SDK are parameters: the calls the code makes, and what the
  service promises about them.
\<close>

section \<open>The service\<close>

text \<open>
  \<open>api_UploadBreaks\<close> says whether a streaming upload that starts now will fail, and after how many
  bytes of its body: the uploader then stops reading the pipe.  \<open>api_Upload\<close> is an upload that has
  its whole body.
\<close>

record 'svc s3_api =
  api_LoadConfig :: "string \<Rightarrow> 'svc \<Rightarrow> goerror option \<times> 'svc"
  api_HeadBucket :: "string \<Rightarrow> 'svc \<Rightarrow> goerror option \<times> 'svc"
  api_CreateBucket :: "string \<Rightarrow> 'svc \<Rightarrow> goerror option \<times> 'svc"
  api_WaitBucketExists :: "string \<Rightarrow> 'svc \<Rightarrow> goerror option \<times> 'svc"
  api_Upload :: "string \<Rightarrow> string \<Rightarrow> bytes \<Rightarrow> 'svc \<Rightarrow> goerror option \<times> 'svc"
  api_UploadBreaks :: "string \<Rightarrow> string \<Rightarrow> 'svc \<Rightarrow> (nat \<times> goerror) option"
  api_DownloadObject :: "string \<Rightarrow> string \<Rightarrow> 'svc \<Rightarrow> (goerror + bytes) \<times> 'svc"
  api_DeleteObject :: "string \<Rightarrow> string \<Rightarrow> 'svc \<Rightarrow> goerror option \<times> 'svc"
  api_WaitObjectNotExists :: "string \<Rightarrow> string \<Rightarrow> 'svc \<Rightarrow> goerror option \<times> 'svc"
  api_HeadObject :: "string \<Rightarrow> string \<Rightarrow> 'svc \<Rightarrow> goerror option \<times> 'svc"

text \<open>
  What the service documents, over the objects it holds: a successful upload replaces the object, a
  download returns it, reads see all earlier writes, and a call concerns its own key only.
\<close>

definition other_objects ::
  "('svc \<Rightarrow> string \<Rightarrow> string \<rightharpoonup> bytes) \<Rightarrow> string \<Rightarrow> string \<Rightarrow> 'svc \<Rightarrow> 'svc \<Rightarrow> bool"
where
  "other_objects obj b k svc svc' \<longleftrightarrow>
     (\<forall>b' k'. (b', k') \<noteq> (b, k) \<longrightarrow> obj svc' b' k' = obj svc b' k')"

definition s3_lawful :: "'svc s3_api \<Rightarrow> ('svc \<Rightarrow> string \<Rightarrow> string \<rightharpoonup> bytes) \<Rightarrow> bool" where
  "s3_lawful api obj \<longleftrightarrow>
     (\<forall>b k d svc r svc'. api_Upload api b k d svc = (r, svc') \<longrightarrow>
        other_objects obj b k svc svc' \<and> (r = None \<longrightarrow> obj svc' b k = Some d)) \<and>
     (\<forall>b k svc r svc'. api_DownloadObject api b k svc = (r, svc') \<longrightarrow>
        obj svc' = obj svc \<and> (\<forall>d. r = Inr d \<longrightarrow> obj svc b k = Some d)) \<and>
     (\<forall>b k svc r svc'. api_DeleteObject api b k svc = (r, svc') \<longrightarrow>
        other_objects obj b k svc svc' \<and> (r = None \<longrightarrow> obj svc' b k = None)) \<and>
     (\<forall>b k svc r svc'. api_WaitObjectNotExists api b k svc = (r, svc') \<longrightarrow> obj svc' = obj svc) \<and>
     (\<forall>b k svc r svc'. api_HeadObject api b k svc = (r, svc') \<longrightarrow>
        obj svc' = obj svc \<and> (r = None \<longrightarrow> obj svc b k \<noteq> None) \<and>
        (\<forall>e. r = Some e \<and> errors_As ''NotFound'' e \<longrightarrow> obj svc b k = None))"

section \<open>Configuration\<close>

record S3Config =
  cfg_Bucket :: string
  cfg_Region :: string
  cfg_Endpoint :: string

text \<open>\<open>BlobStore\<close>: the options its client was made with, and the bucket.\<close>

record S3Store =
  s3_BaseEndpoint :: "string option"
  s3_UsePathStyle :: bool
  s3_bucket :: string

definition bucketExists :: "'svc s3_api \<Rightarrow> string \<Rightarrow> 'svc \<Rightarrow> (goerror + bool) \<times> 'svc" where
  "bucketExists api bucket svc =
     (case api_HeadBucket api bucket svc of
        (None, svc') \<Rightarrow> (Inr True, svc')
      | (Some e, svc') \<Rightarrow>
          (if errors_As ''NotFound'' e then (Inr False, svc') else (Inl e, svc')))"

definition createBucketIfNotExists :: "'svc s3_api \<Rightarrow> string \<Rightarrow> 'svc \<Rightarrow> goerror option \<times> 'svc" where
  "createBucketIfNotExists api bucket svc =
     (case bucketExists api bucket svc of
        (Inl e, svc1) \<Rightarrow> (Some e, svc1)
      | (Inr True, svc1) \<Rightarrow> (None, svc1)
      | (Inr False, svc1) \<Rightarrow>
          (case api_CreateBucket api bucket svc1 of
             (Some e, svc2) \<Rightarrow> (Some (WrapErr ''create bucket %q'' [bucket] e), svc2)
           | (None, svc2) \<Rightarrow> api_WaitBucketExists api bucket svc2))"

definition s3_New :: "'svc s3_api \<Rightarrow> S3Config \<Rightarrow> 'svc \<Rightarrow> (goerror + S3Store) \<times> 'svc" where
  "s3_New api cfg svc =
     (if cfg_Bucket cfg = [] then (Inl (Errorf ''s3: bucket is required'' []), svc)
      else case api_LoadConfig api (cfg_Region cfg) svc of
        (Some e, svc1) \<Rightarrow> (Inl (WrapErr ''load AWS config'' [] e), svc1)
      | (None, svc1) \<Rightarrow>
          (let store =
             \<lparr>s3_BaseEndpoint = (if cfg_Endpoint cfg \<noteq> [] then Some (cfg_Endpoint cfg) else None),
              s3_UsePathStyle = (cfg_Endpoint cfg \<noteq> []), s3_bucket = cfg_Bucket cfg\<rparr>
           in case createBucketIfNotExists api (s3_bucket store) svc1 of
                (Some e, svc2) \<Rightarrow> (Inl e, svc2)
              | (None, svc2) \<Rightarrow> (Inr store, svc2)))"

section \<open>Blobs\<close>

definition s3_WriteBlob ::
  "'svc s3_api \<Rightarrow> gzip_codec \<Rightarrow> string \<Rightarrow> string \<Rightarrow> bytes \<Rightarrow> 'svc \<Rightarrow> (goerror + int) \<times> 'svc"
where
  "s3_WriteBlob api gz bucket blobName data svc =
     (case Compress gz data of
        Inl e \<Rightarrow> (Inl e, svc)
      | Inr compressed \<Rightarrow>
          (case api_Upload api bucket blobName compressed svc of
             (Some e, svc') \<Rightarrow> (Inl e, svc')
           | (None, svc') \<Rightarrow> (Inr (int (length compressed)), svc')))"

definition s3_ReadBlob ::
  "'svc s3_api \<Rightarrow> gzip_codec \<Rightarrow> string \<Rightarrow> string \<Rightarrow> 'svc \<Rightarrow> (goerror + bytes) \<times> 'svc"
where
  "s3_ReadBlob api gz bucket blobName svc =
     (case api_DownloadObject api bucket blobName svc of
        (Inl e, svc') \<Rightarrow>
          (if errors_As ''NoSuchKey'' e then (Inl (WrapErr ''blob %q not found'' [blobName] e), svc')
           else (Inl e, svc'))
      | (Inr buf, svc') \<Rightarrow> (Decompress gz (Inr buf), svc'))"

definition s3_DeleteBlob :: "'svc s3_api \<Rightarrow> string \<Rightarrow> string \<Rightarrow> 'svc \<Rightarrow> goerror option \<times> 'svc" where
  "s3_DeleteBlob api bucket blobName svc =
     (case api_DeleteObject api bucket blobName svc of
        (Some e, svc1) \<Rightarrow> (Some e, svc1)
      | (None, svc1) \<Rightarrow> api_WaitObjectNotExists api bucket blobName svc1)"

definition s3_BlobExists :: "'svc s3_api \<Rightarrow> string \<Rightarrow> string \<Rightarrow> 'svc \<Rightarrow> (goerror + bool) \<times> 'svc" where
  "s3_BlobExists api bucket blobName svc =
     (case api_HeadObject api bucket blobName svc of
        (Some e, svc') \<Rightarrow> (if errors_As ''NotFound'' e then (Inr False, svc') else (Inl e, svc'))
      | (None, svc') \<Rightarrow> (Inr True, svc'))"

text \<open>
  \<open>streamWriter\<close>: the gzip writer, and the upload at the other end of the pipe with what it has read
  so far and where it will break.  The reading end of the pipe is never closed, so a write to it
  returns once the bytes are read, and never when the upload has stopped reading.
\<close>

record streamWriter =
  sw_gz :: gzip_writer
  sw_key :: string
  sw_read :: bytes
  sw_breaks :: "(nat \<times> goerror) option"

definition pipe_Write ::
  "(nat \<times> goerror) option \<Rightarrow> bytes \<Rightarrow> bytes \<Rightarrow> (goerror option \<times> bytes) option"
where
  "pipe_Write breaks p got =
     (case breaks of
        None \<Rightarrow> Some (None, got @ p)
      | Some (k, e) \<Rightarrow> if length got + length p \<le> k then Some (None, got @ p) else None)"

definition s3_Writer ::
  "'svc s3_api \<Rightarrow> string \<Rightarrow> string \<Rightarrow> 'svc \<Rightarrow> (goerror + streamWriter) \<times> 'svc"
where
  "s3_Writer api bucket blobName svc =
     (Inr \<lparr>sw_gz = gzip_NewWriter, sw_key = blobName, sw_read = [],
        sw_breaks = api_UploadBreaks api bucket blobName svc\<rparr>, svc)"

definition sw_Write ::
  "gzip_codec \<Rightarrow> streamWriter \<Rightarrow> bytes \<Rightarrow> 'svc \<Rightarrow>
   ((int \<times> goerror option) \<times> streamWriter \<times> 'svc) option"
where
  "sw_Write gz w p svc =
     map_option (\<lambda>(r, g, got). (r, w\<lparr>sw_gz := g, sw_read := got\<rparr>, svc))
       (gzw_Write gz (pipe_Write (sw_breaks w)) (sw_gz w) p (sw_read w))"

text \<open>\<open>Close\<close>: once the pipe is closed the upload has its whole body, and its result is awaited.\<close>

definition sw_Close ::
  "'svc s3_api \<Rightarrow> gzip_codec \<Rightarrow> string \<Rightarrow> streamWriter \<Rightarrow> 'svc \<Rightarrow> (goerror option \<times> 'svc) option"
where
  "sw_Close api gz bucket w svc =
     (case gzw_Close gz (pipe_Write (sw_breaks w)) (sw_gz w) (sw_read w) of
        None \<Rightarrow> None
      | Some (Some e, got) \<Rightarrow> Some (Some e, svc)
      | Some (None, got) \<Rightarrow>
          (case sw_breaks w of
             Some (k, e) \<Rightarrow> Some (Some e, svc)
           | None \<Rightarrow> Some (api_Upload api bucket (sw_key w) got svc)))"

definition s3_ops :: "'svc s3_api \<Rightarrow> gzip_codec \<Rightarrow> string \<Rightarrow> ('svc, streamWriter) Blobstore" where
  "s3_ops api gz bucket =
     \<lparr>op_BlobExists = s3_BlobExists api bucket, op_ReadBlob = s3_ReadBlob api gz bucket,
      op_WriteBlob = s3_WriteBlob api gz bucket, op_DeleteBlob = s3_DeleteBlob api bucket,
      op_Writer = s3_Writer api bucket, op_Write = sw_Write gz, op_Close = sw_Close api gz bucket\<rparr>"

section \<open>The contract\<close>

definition s3_view ::
  "'svc s3_api \<Rightarrow> ('svc \<Rightarrow> string \<Rightarrow> string \<rightharpoonup> bytes) \<Rightarrow> gzip_codec \<Rightarrow> string \<Rightarrow>
   ('svc, streamWriter) blob_view"
where
  "s3_view api obj gz bucket =
     \<lparr>v_inv = (\<lambda>svc. gzip_lawful gz \<and> s3_lawful api obj),
      v_ok = (\<lambda>n. n \<noteq> []),
      v_holds = (\<lambda>svc n d. \<exists>b. obj svc bucket n = Some b \<and> gz_reader gz b = Inr d),
      v_absent = (\<lambda>svc n. obj svc bucket n = None),
      v_writing = (\<lambda>svc w n cs. sw_key w = n \<and> sw_gz w = \<lparr>gzw_chunks = cs, gzw_err = None\<rparr> \<and>
                     sw_read w = gz_emitted gz cs),
      v_broken = (\<lambda>svc w n. sw_key w = n \<and> gzw_err (sw_gz w) \<noteq> None)\<rparr>"

lemma s3_view_sel [simp]:
  "v_inv (s3_view api obj gz bucket) svc \<longleftrightarrow> gzip_lawful gz \<and> s3_lawful api obj"
  "v_ok (s3_view api obj gz bucket) n \<longleftrightarrow> n \<noteq> []"
  "v_holds (s3_view api obj gz bucket) svc n d \<longleftrightarrow>
     (\<exists>b. obj svc bucket n = Some b \<and> gz_reader gz b = Inr d)"
  "v_absent (s3_view api obj gz bucket) svc n \<longleftrightarrow> obj svc bucket n = None"
  "v_writing (s3_view api obj gz bucket) svc w n cs \<longleftrightarrow>
     sw_key w = n \<and> sw_gz w = \<lparr>gzw_chunks = cs, gzw_err = None\<rparr> \<and> sw_read w = gz_emitted gz cs"
  "v_broken (s3_view api obj gz bucket) svc w n \<longleftrightarrow> sw_key w = n \<and> gzw_err (sw_gz w) \<noteq> None"
  by (simp_all add: s3_view_def)

lemma s3_ops_simps [simp]:
  "op_BlobExists (s3_ops api gz bucket) = s3_BlobExists api bucket"
  "op_ReadBlob (s3_ops api gz bucket) = s3_ReadBlob api gz bucket"
  "op_WriteBlob (s3_ops api gz bucket) = s3_WriteBlob api gz bucket"
  "op_DeleteBlob (s3_ops api gz bucket) = s3_DeleteBlob api bucket"
  "op_Writer (s3_ops api gz bucket) = s3_Writer api bucket"
  "op_Write (s3_ops api gz bucket) = sw_Write gz" "op_Close (s3_ops api gz bucket) = sw_Close api gz bucket"
  by (simp_all add: s3_ops_def)

lemma s3_laws:
  assumes "s3_lawful api obj"
  shows "api_Upload api b k d svc = (r, svc') \<Longrightarrow>
      other_objects obj b k svc svc' \<and> (r = None \<longrightarrow> obj svc' b k = Some d)"
    and "api_DownloadObject api b k svc = (rd, svc') \<Longrightarrow>
      obj svc' = obj svc \<and> (\<forall>d. rd = Inr d \<longrightarrow> obj svc b k = Some d)"
    and "api_DeleteObject api b k svc = (r, svc') \<Longrightarrow>
      other_objects obj b k svc svc' \<and> (r = None \<longrightarrow> obj svc' b k = None)"
    and "api_WaitObjectNotExists api b k svc = (r, svc') \<Longrightarrow> obj svc' = obj svc"
    and "api_HeadObject api b k svc = (r, svc') \<Longrightarrow>
      obj svc' = obj svc \<and> (r = None \<longrightarrow> obj svc b k \<noteq> None) \<and>
      (\<forall>e. r = Some e \<and> errors_As ''NotFound'' e \<longrightarrow> obj svc b k = None)"
  using assms unfolding s3_lawful_def by - (elim conjE, metis)+

lemma kept_s3:
  "v_inv (s3_view api obj gz bucket) svc \<Longrightarrow> other_objects obj bucket n svc svc' \<Longrightarrow>
   kept (s3_view api obj gz bucket) n svc svc'"
  by (auto simp: kept_def same_at_def other_objects_def)

lemma other_objects_eq: "obj svc' = obj svc \<Longrightarrow> other_objects obj b k svc svc'"
  by (simp add: other_objects_def)

lemma other_objects_trans:
  "other_objects obj b k svc svc1 \<Longrightarrow> obj svc2 = obj svc1 \<Longrightarrow> other_objects obj b k svc svc2"
  by (simp add: other_objects_def)

lemma sw_broken:
  assumes "gzw_err (sw_gz w) = Some e"
  shows "sw_Write gz w p svc = Some ((0, Some e), w, svc)"
    and "sw_Close api gz bucket w svc = Some (Some e, svc)"
  using assms by (simp_all add: sw_Write_def sw_Close_def gzw_Write_def gzw_Close_def)

text \<open>The pipe never returns an error: what was written was read.\<close>

lemma flush_pipe:
  "flush_to (pipe_Write breaks) out got = Some (err, got') \<Longrightarrow> err = None \<and> got' = got @ out"
  by (auto simp: flush_to_def pipe_Write_def split: option.splits if_splits prod.splits)

lemma sw_Write_result:
  assumes "gzip_lawful gz" "sw_gz w = \<lparr>gzw_chunks = cs, gzw_err = None\<rparr>" "sw_read w = gz_emitted gz cs"
    and "sw_Write gz w p svc = Some ((k, err), w', svc')"
  shows "err = None \<and> svc' = svc \<and> sw_key w' = sw_key w \<and> sw_breaks w' = sw_breaks w \<and>
    sw_gz w' = \<lparr>gzw_chunks = cs @ [p], gzw_err = None\<rparr> \<and> sw_read w' = gz_emitted gz (cs @ [p])"
  using assms emitted_prefix(1) [OF assms(1), of cs p]
  by (auto simp: sw_Write_def gzw_Write_def Let_def split: option.splits dest!: flush_pipe)

lemma sw_Close_result:
  assumes "gzip_lawful gz" "sw_gz w = \<lparr>gzw_chunks = cs, gzw_err = None\<rparr>" "sw_read w = gz_emitted gz cs"
    and "sw_Close api gz bucket w svc = Some (err, svc')"
  shows "(\<exists>k e. sw_breaks w = Some (k, e) \<and> err = Some e \<and> svc' = svc) \<or>
    sw_breaks w = None \<and> api_Upload api bucket (sw_key w) (gz_stream gz cs) svc = (err, svc')"
  using assms emitted_prefix(2) [OF assms(1), of cs]
  by (auto simp: sw_Close_def gzw_Close_def Let_def split: option.splits dest!: flush_pipe)

interpretation s3: blobstore "s3_ops api gz bucket" "s3_view api obj gz bucket" for api obj gz bucket
proof
  fix svc n re svc'
  assume a: "v_inv (s3_view api obj gz bucket) svc" "op_BlobExists (s3_ops api gz bucket) n svc = (re, svc')"
  obtain r where h: "api_HeadObject api bucket n svc = (r, svc')"
    using a(2) by (auto simp: s3_BlobExists_def split: prod.splits option.splits if_splits)
  from a(1) have l: "s3_lawful api obj" by simp
  note hl = s3_laws(5) [OF l h]
  have "kept (s3_view api obj gz bucket) n svc svc'"
    using hl by (intro kept_s3 [OF a(1)]) (simp add: other_objects_eq)
  moreover have "same_at (s3_view api obj gz bucket) n svc svc'" using hl by (simp add: same_at_def)
  ultimately show "kept (s3_view api obj gz bucket) n svc svc' \<and> same_at (s3_view api obj gz bucket) n svc svc' \<and>
      (\<forall>d. v_holds (s3_view api obj gz bucket) svc n d \<longrightarrow> re \<noteq> Inr False) \<and>
      (v_absent (s3_view api obj gz bucket) svc n \<longrightarrow> re \<noteq> Inr True)"
    using hl h a(2) by (auto simp: s3_BlobExists_def split: option.splits if_splits)
next
  fix svc n rr svc'
  assume a: "v_inv (s3_view api obj gz bucket) svc" "op_ReadBlob (s3_ops api gz bucket) n svc = (rr, svc')"
  obtain r where h: "api_DownloadObject api bucket n svc = (r, svc')"
    using a(2) by (auto simp: s3_ReadBlob_def split: prod.splits sum.splits if_splits)
  from a(1) have l: "s3_lawful api obj" by simp
  note dl = s3_laws(2) [OF l h]
  have "kept (s3_view api obj gz bucket) n svc svc'"
    using dl by (intro kept_s3 [OF a(1)]) (simp add: other_objects_eq)
  then show "kept (s3_view api obj gz bucket) n svc svc' \<and>
      (\<forall>d. v_holds (s3_view api obj gz bucket) svc n d \<longrightarrow>
         v_holds (s3_view api obj gz bucket) svc' n d \<and> (\<forall>d'. rr = Inr d' \<longrightarrow> d' = d))"
    using dl h a(2) by (auto simp: s3_ReadBlob_def Decompress_def split: sum.splits if_splits)
next
  fix svc n data rw svc'
  assume a: "v_inv (s3_view api obj gz bucket) svc" "op_WriteBlob (s3_ops api gz bucket) n data svc = (rw, svc')"
  from a(1) have l: "s3_lawful api obj" "gzip_lawful gz" by simp_all
  obtain r where h: "api_Upload api bucket n (gz_stream gz [data]) svc = (r, svc')"
    using a(2) l by (auto simp: s3_WriteBlob_def Compress_stream split: prod.splits option.splits)
  from kept_s3 [OF a(1)] s3_laws(1) [OF l(1) h] h a(2) l(2)
  show "kept (s3_view api obj gz bucket) n svc svc' \<and>
      (\<forall>k. rw = Inr k \<longrightarrow> v_holds (s3_view api obj gz bucket) svc' n data)"
    by (auto simp: s3_WriteBlob_def Compress_stream gzip_lawful_simps split: option.splits)
next
  fix svc n rd svc'
  assume a: "v_inv (s3_view api obj gz bucket) svc" "op_DeleteBlob (s3_ops api gz bucket) n svc = (rd, svc')"
  from a(1) have l: "s3_lawful api obj" by simp
  obtain r svc1 where h: "api_DeleteObject api bucket n svc = (r, svc1)" by force
  note d1 = s3_laws(3) [OF l h]
  have "other_objects obj bucket n svc svc' \<and> (rd = None \<longrightarrow> obj svc' bucket n = None)"
    using d1 h a(2) s3_laws(4) [OF l, of bucket n svc1]
    by (cases r) (auto simp: s3_DeleteBlob_def intro: other_objects_trans)
  with kept_s3 [OF a(1)]
  show "kept (s3_view api obj gz bucket) n svc svc' \<and>
      (rd = None \<longrightarrow> v_absent (s3_view api obj gz bucket) svc' n)" by simp
next
  fix svc n ro svc'
  assume "v_inv (s3_view api obj gz bucket) svc" "op_Writer (s3_ops api gz bucket) n svc = (ro, svc')"
  then show "kept (s3_view api obj gz bucket) n svc svc' \<and>
      (\<forall>w. ro = Inr w \<longrightarrow> v_writing (s3_view api obj gz bucket) svc' w n [])"
    by (auto simp: s3_Writer_def gzip_NewWriter_def gzip_lawful_simps kept_refl)
next
  fix svc n w cs p k err w' svc'
  assume a: "v_inv (s3_view api obj gz bucket) svc" "v_writing (s3_view api obj gz bucket) svc w n cs"
    "op_Write (s3_ops api gz bucket) w p svc = Some ((k, err), w', svc')"
  with sw_Write_result [of gz w cs p svc k err w' svc']
  show "kept (s3_view api obj gz bucket) n svc svc' \<and>
      (if err = None then v_writing (s3_view api obj gz bucket) svc' w' n (cs @ [p])
       else v_broken (s3_view api obj gz bucket) svc' w' n)"
    by (simp add: kept_refl)
next
  fix svc n w p k err w' svc'
  assume a: "v_inv (s3_view api obj gz bucket) svc" "v_broken (s3_view api obj gz bucket) svc w n"
    "op_Write (s3_ops api gz bucket) w p svc = Some ((k, err), w', svc')"
  then obtain e where "gzw_err (sw_gz w) = Some e" by auto
  with a(3) sw_broken(1) [OF this, of gz p svc] have "k = 0" "err = Some e" "w' = w" "svc' = svc"
    by simp_all
  with a(1,2) show "kept (s3_view api obj gz bucket) n svc svc' \<and> err \<noteq> None \<and> v_broken (s3_view api obj gz bucket) svc' w' n"
    by (auto simp: kept_refl)
next
  fix svc n w cs err svc'
  assume a: "v_inv (s3_view api obj gz bucket) svc" "v_writing (s3_view api obj gz bucket) svc w n cs"
    "op_Close (s3_ops api gz bucket) w svc = Some (err, svc')"
  then have l: "s3_lawful api obj" "gzip_lawful gz" by simp_all
  from a sw_Close_result [OF l(2), of w cs api bucket svc err svc']
  have "err \<noteq> None \<and> svc' = svc \<or> api_Upload api bucket n (gz_stream gz cs) svc = (err, svc')" by auto
  then show "kept (s3_view api obj gz bucket) n svc svc' \<and>
      (err = None \<longrightarrow> v_holds (s3_view api obj gz bucket) svc' n (concat cs))"
    using s3_laws(1) [OF l(1), of bucket n "gz_stream gz cs" svc err svc'] kept_s3 [OF a(1)] l(2) a(1)
    by (auto simp: gzip_lawful_simps kept_refl)
next
  fix svc n w err svc'
  assume a: "v_inv (s3_view api obj gz bucket) svc" "v_broken (s3_view api obj gz bucket) svc w n"
    "op_Close (s3_ops api gz bucket) w svc = Some (err, svc')"
  then obtain e where "gzw_err (sw_gz w) = Some e" by auto
  with a(3) sw_broken(2) [OF this, of api gz bucket svc] have "err = Some e" "svc' = svc" by simp_all
  with a(1) show "kept (s3_view api obj gz bucket) n svc svc' \<and> err \<noteq> None" by (auto simp: kept_refl)
qed

section \<open>The cache in front of S3\<close>

definition s3_cache ::
  "'svc s3_api \<Rightarrow> gzip_codec \<Rightarrow> string \<Rightarrow> (cache_file list \<Rightarrow> cache_file list) \<Rightarrow> string \<Rightarrow> int \<Rightarrow>
   ('svc, streamWriter) DiskCache"
where
  "s3_cache api gz bucket sorter dir maxBytes =
     \<lparr>dc_store = s3_ops api gz bucket, dc_gz = gz, dc_sort = sorter, dc_dir = dir,
      dc_maxBytes = maxBytes\<rparr>"

interpretation cached_s3: blobstore "cache_ops (s3_cache api gz bucket sorter dir maxBytes)"
    "cache_view (s3_view api obj gz bucket) (s3_cache api gz bucket sorter dir maxBytes)"
    for api obj gz bucket sorter dir maxBytes
  by (rule s3.cached_blobstore) (simp add: s3_cache_def)

section \<open>Properties\<close>

text \<open>The writes of a stream.\<close>

fun sw_Writes :: "gzip_codec \<Rightarrow> bytes list \<Rightarrow> streamWriter \<Rightarrow> 'svc \<Rightarrow> (streamWriter \<times> 'svc) option" where
  "sw_Writes gz [] w svc = Some (w, svc)"
| "sw_Writes gz (p # ps) w svc =
     (case sw_Write gz w p svc of
        None \<Rightarrow> None
      | Some (r, w', svc') \<Rightarrow> sw_Writes gz ps w' svc')"

lemma sw_Writes_result:
  assumes "gzip_lawful gz" "sw_gz w = \<lparr>gzw_chunks = cs, gzw_err = None\<rparr>" "sw_read w = gz_emitted gz cs"
    and "sw_Writes gz ps w svc = Some (w', svc')"
  shows "svc' = svc \<and> sw_key w' = sw_key w \<and> sw_breaks w' = sw_breaks w \<and>
    sw_gz w' = \<lparr>gzw_chunks = cs @ ps, gzw_err = None\<rparr> \<and> sw_read w' = gz_emitted gz (cs @ ps)"
  using assms(2-)
proof (induction ps arbitrary: cs w svc)
  case (Cons p ps)
  then obtain k err w1 svc1 where
    w1: "sw_Write gz w p svc = Some ((k, err), w1, svc1)" "sw_Writes gz ps w1 svc1 = Some (w', svc')"
    by (auto split: option.splits)
  note r = sw_Write_result [OF assms(1) Cons.prems(1,2) w1(1)]
  with Cons.IH [of w1 "cs @ [p]" svc1] w1(2) show ?case by simp
qed simp

text \<open>
  C27: A blob streamed to S3 is invisible until \<open>Close\<close>: writing changes nothing in the service.  A
  \<open>Close\<close> that returns no error has stored the whole stream, and reading it then gives back what was
  written or an error; a \<open>Close\<close> over a broken upload has stored nothing.
\<close>
theorem s3_stream_commits_at_close:
  assumes "gzip_lawful gz" "s3_lawful api obj" "s3_Writer api bucket n svc = (Inr w, svc0)"
    and "sw_Writes gz ps w svc0 = Some (w', svc1)" "sw_Close api gz bucket w' svc1 = Some (err, svc2)"
  shows "svc1 = svc \<and>
    (err = None \<longrightarrow> obj svc2 bucket n = Some (gz_stream gz ps) \<and>
       (\<forall>d. fst (s3_ReadBlob api gz bucket n svc2) = Inr d \<longrightarrow> d = concat ps)) \<and>
    (api_UploadBreaks api bucket n svc \<noteq> None \<longrightarrow> err \<noteq> None \<and> svc2 = svc)"
proof -
  have w: "sw_gz w = \<lparr>gzw_chunks = [], gzw_err = None\<rparr>" "sw_read w = gz_emitted gz []"
    "sw_key w = n" "sw_breaks w = api_UploadBreaks api bucket n svc" "svc0 = svc"
    using assms(1,3) by (auto simp: s3_Writer_def gzip_NewWriter_def gzip_lawful_simps)
  from sw_Writes_result [OF assms(1) w(1,2) assms(4)] w have w': "svc1 = svc" "sw_key w' = n"
    "sw_breaks w' = api_UploadBreaks api bucket n svc"
    "sw_gz w' = \<lparr>gzw_chunks = ps, gzw_err = None\<rparr>" "sw_read w' = gz_emitted gz ps" by simp_all
  from sw_Close_result [OF assms(1) w'(4,5) assms(5)] show ?thesis
  proof (elim disjE exE conjE)
    fix k e assume "sw_breaks w' = Some (k, e)" "err = Some e" "svc2 = svc1"
    with w' show ?thesis by simp
  next
    assume c: "sw_breaks w' = None" "api_Upload api bucket (sw_key w') (gz_stream gz ps) svc1 = (err, svc2)"
    have "obj svc2 bucket n = Some (gz_stream gz ps)" if "err = None"
      using s3_laws(1) [OF assms(2) c(2)] w'(2) that by simp
    moreover have "d = concat ps" if "obj svc2 bucket n = Some (gz_stream gz ps)"
      "fst (s3_ReadBlob api gz bucket n svc2) = Inr d" for d
      using that s3_laws(2) [OF assms(2), of bucket n svc2] assms(1)
      by (fastforce simp: s3_ReadBlob_def Decompress_def gzip_lawful_simps
          split: prod.splits sum.splits if_splits)
    ultimately show ?thesis using w' c(1) by auto
  qed
qed

text \<open>
  C28: When an upload breaks off after \<open>k\<close> bytes, nobody reads the pipe any more: the first \<open>Write\<close> or
  \<open>Close\<close> that has to pass on more than \<open>k\<close> compressed bytes never returns.
\<close>
theorem s3_broken_upload_blocks:
  assumes "gzip_lawful gz" "sw_gz w = \<lparr>gzw_chunks = cs, gzw_err = None\<rparr>" "sw_read w = gz_emitted gz cs"
    and "sw_breaks w = Some (k, e)"
  shows "(gz_emitted gz (cs @ [p]) \<noteq> gz_emitted gz cs \<and> k < length (gz_emitted gz (cs @ [p])) \<longrightarrow>
      sw_Write gz w p svc = None) \<and>
    (k < length (gz_stream gz cs) \<longrightarrow> sw_Close api gz bucket w svc = None)"
proof -
  note e = emitted_prefix [OF assms(1)]
  have "gz_emitted gz cs \<noteq> gz_stream gz cs"
    using assms(1) unfolding gzip_lawful_def by (metis prefix_order.less_irrefl)
  moreover have "drop (length (gz_emitted gz cs)) x = [] \<Longrightarrow>
      gz_emitted gz cs @ drop (length (gz_emitted gz cs)) x = x \<Longrightarrow> gz_emitted gz cs = x" for x
    by simp
  ultimately show ?thesis
    using assms(2-) e(1) [of cs p] e(2) [of cs]
      arg_cong [OF e(1) [of cs p], of length] arg_cong [OF e(2) [of cs], of length]
    by (auto simp: sw_Write_def sw_Close_def gzw_Write_def gzw_Close_def flush_to_def pipe_Write_def Let_def)
qed

text \<open>A service to run the examples on: one that keeps its objects in a list.\<close>

type_synonym sample_svc = "((string \<times> string) \<times> bytes) list"

definition sample_s3 :: "(nat \<times> goerror) option \<Rightarrow> sample_svc s3_api" where
  "sample_s3 breaks =
     \<lparr>api_LoadConfig = (\<lambda>r svc. (None, svc)), api_HeadBucket = (\<lambda>b svc. (None, svc)),
      api_CreateBucket = (\<lambda>b svc. (None, svc)), api_WaitBucketExists = (\<lambda>b svc. (None, svc)),
      api_Upload = (\<lambda>b k d svc. (None, ((b, k), d) # svc)), api_UploadBreaks = (\<lambda>b k svc. breaks),
      api_DownloadObject = (\<lambda>b k svc. (case map_of svc (b, k) of
         Some d \<Rightarrow> Inr d | None \<Rightarrow> Inl (TypedErr ''NoSuchKey'' ''no such key''), svc)),
      api_DeleteObject = (\<lambda>b k svc. (None, filter (\<lambda>(bk, d). bk \<noteq> (b, k)) svc)),
      api_WaitObjectNotExists = (\<lambda>b k svc. (None, svc)),
      api_HeadObject = (\<lambda>b k svc. (case map_of svc (b, k) of
         Some d \<Rightarrow> None | None \<Rightarrow> Some (TypedErr ''NotFound'' ''not found''), svc))\<rparr>"

definition sample_objects :: "sample_svc \<Rightarrow> string \<Rightarrow> string \<rightharpoonup> bytes" where
  "sample_objects svc b k = map_of svc (b, k)"

lemma sample_objects_filter:
  "map_of (filter (\<lambda>(bk, d). bk \<noteq> x) svc) y = (if y = x then None else map_of svc y)"
  by (induction svc) auto

lemma sample_s3_lawful: "s3_lawful (sample_s3 breaks) sample_objects"
  by (auto simp: s3_lawful_def sample_s3_def sample_objects_def other_objects_def fun_eq_iff
      sample_objects_filter split: option.splits)

definition sample_sw :: "(nat \<times> goerror) option \<Rightarrow> streamWriter" where
  "sample_sw breaks = \<lparr>sw_gz = gzip_NewWriter, sw_key = ''a'', sw_read = [], sw_breaks = breaks\<rparr>"

theorem s3_stream_commits_at_close_witness:
  "\<exists>w svc. s3_Writer (sample_s3 None) ''b'' ''a'' [] = (Inr (sample_sw None), []) \<and>
     sw_Writes sample_gzip [''x'', ''y''] (sample_sw None) ([] :: sample_svc) = Some (w, []) \<and>
     sw_Close (sample_s3 None) sample_gzip ''b'' w [] = Some (None, svc) \<and>
     sample_objects svc ''b'' ''a'' = Some (gz_stream sample_gzip [''x'', ''y''])"
proof -
  have o: "s3_Writer (sample_s3 None) ''b'' ''a'' [] = (Inr (sample_sw None), [])"
    by (simp add: s3_Writer_def sample_s3_def sample_sw_def)
  have "\<exists>w. sw_Writes sample_gzip [''x'', ''y''] (sample_sw None) ([] :: sample_svc) = Some (w, []) \<and>
      (\<exists>svc. sw_Close (sample_s3 None) sample_gzip ''b'' w [] = Some (None, svc))"
    by (simp add: sw_Write_def gzw_Write_def sw_Close_def gzw_Close_def flush_to_def pipe_Write_def
        sample_sw_def gzip_NewWriter_def sample_gzip_def sample_marked_def sample_s3_def)
  then obtain w svc where w: "sw_Writes sample_gzip [''x'', ''y''] (sample_sw None) ([] :: sample_svc) = Some (w, [])"
    "sw_Close (sample_s3 None) sample_gzip ''b'' w [] = Some (None, svc)" by blast
  from s3_stream_commits_at_close [OF sample_gzip_lawful sample_s3_lawful o w] o w show ?thesis by auto
qed

theorem s3_broken_upload_blocks_witness:
  "sw_Write sample_gzip (sample_sw (Some (1, OSErr ''reset''))) ''x'' ([] :: sample_svc) = None"
  using s3_broken_upload_blocks [OF sample_gzip_lawful, of "sample_sw (Some (1, OSErr ''reset''))" "[]" 1
      "OSErr ''reset''" "''x''" "[] :: sample_svc" "sample_s3 None" "''b''"]
  by (simp add: sample_sw_def gzip_NewWriter_def sample_gzip_def sample_marked_def)

end
