(* ===== verification/EventStore.thy ===== *)
theory EventStore
  imports S3 BuildEvents
begin

text \<open>
  The event store, \<open>src/store/store.go\<close>: one blob per invocation with one JSON line per event,
  written through a writer that stays open from the first event to \<open>Finalize\<close>.  The lemmas are
  proved over any backend that meets the contract \<open>blobstore\<close>; the theory comes after the backends,
  so that these lemmas reach their interpretations of the contract.
\<close>

section \<open>State and operations\<close>

text \<open>\<open>protojson.Marshal\<close> and \<open>protojson.Unmarshal\<close> at the type of events.\<close>

record event_codec =
  pj_Marshal :: "BuildEvent \<Rightarrow> goerror + bytes"
  pj_Unmarshal :: "bytes \<Rightarrow> goerror + BuildEvent"

text \<open>
  What \<open>protojson\<close> documents: the default output is one line, not empty, and unmarshals to the
  message it came from.
\<close>

definition json_lawful :: "event_codec \<Rightarrow> bool" where
  "json_lawful pj \<longleftrightarrow>
     (\<forall>e l. pj_Marshal pj e = Inr l \<longrightarrow>
        l \<noteq> [] \<and> CHR 0x0A \<notin> set l \<and> pj_Unmarshal pj l = Inr e)"

text \<open>\<open>Store\<close>: the state of the backend and the map of open writers.\<close>

record ('st, 'w) Store =
  blobs :: 'st
  writers :: "string \<rightharpoonup> 'w"

definition store_New :: "'st \<Rightarrow> ('st, 'w) Store" where
  "store_New st = \<lparr>blobs = st, writers = Map.empty\<rparr>"

definition blobName :: "string \<Rightarrow> string" where
  "blobName invocationID = invocationID @ ''.jsonl''"

definition writerFor ::
  "('st, 'w) Blobstore \<Rightarrow> string \<Rightarrow> ('st, 'w) Store \<Rightarrow> (goerror + 'w) \<times> ('st, 'w) Store"
where
  "writerFor bs invocationID s =
     (case writers s invocationID of
        Some w \<Rightarrow> (Inr w, s)
      | None \<Rightarrow>
          (case op_Writer bs (blobName invocationID) (blobs s) of
             (Inl e, st) \<Rightarrow> (Inl (WrapErr ''open blob writer'' [] e), s\<lparr>blobs := st\<rparr>)
           | (Inr w, st) \<Rightarrow>
               (Inr w, s\<lparr>blobs := st, writers := (writers s)(invocationID \<mapsto> w)\<rparr>)))"

text \<open>\<open>AppendEvent\<close>; the writer in the map is the one that was written to.\<close>

definition AppendEvent ::
  "('st, 'w) Blobstore \<Rightarrow> event_codec \<Rightarrow> string \<Rightarrow> BuildEvent \<Rightarrow> ('st, 'w) Store \<Rightarrow>
   (goerror option \<times> ('st, 'w) Store) option"
where
  "AppendEvent bs pj invocationID event s =
     (case pj_Marshal pj event of
        Inl e \<Rightarrow> Some (Some (WrapErr ''marshal event'' [] e), s)
      | Inr line \<Rightarrow>
          (case writerFor bs invocationID s of
             (Inl e, s1) \<Rightarrow> Some (Some e, s1)
           | (Inr w, s1) \<Rightarrow>
               (case op_Write bs w (line @ [CHR 0x0A]) (blobs s1) of
                  None \<Rightarrow> None
                | Some ((n, err), w', st) \<Rightarrow>
                    Some (map_option (WrapErr ''write event'' []) err,
                      s1\<lparr>blobs := st, writers := (writers s1)(invocationID \<mapsto> w')\<rparr>))))"

text \<open>The loop of \<open>ReadEvents\<close> over the lines of a blob.\<close>

fun parse_lines :: "event_codec \<Rightarrow> bytes list \<Rightarrow> goerror + BuildEvent list" where
  "parse_lines pj [] = Inr []"
| "parse_lines pj (line # ls) =
     (if line = [] then parse_lines pj ls
      else case pj_Unmarshal pj line of
        Inl e \<Rightarrow> Inl (WrapErr ''unmarshal event'' [] e)
      | Inr event \<Rightarrow>
          (case parse_lines pj ls of Inl e \<Rightarrow> Inl e | Inr events \<Rightarrow> Inr (event # events)))"

text \<open>\<open>ReadEvents\<close> returns the events, whether there is a blob, and the error.\<close>

definition ReadEvents ::
  "('st, 'w) Blobstore \<Rightarrow> event_codec \<Rightarrow> string \<Rightarrow> ('st, 'w) Store \<Rightarrow>
   (BuildEvent list \<times> bool \<times> goerror option) \<times> ('st, 'w) Store"
where
  "ReadEvents bs pj invocationID s =
     (let name = blobName invocationID in
      case op_BlobExists bs name (blobs s) of
        (Inl e, st) \<Rightarrow> (([], False, Some e), s\<lparr>blobs := st\<rparr>)
      | (Inr False, st) \<Rightarrow> (([], False, None), s\<lparr>blobs := st\<rparr>)
      | (Inr True, st) \<Rightarrow>
          (case op_ReadBlob bs name st of
             (Inl e, st2) \<Rightarrow> (([], True, Some (WrapErr ''read blob'' [] e)), s\<lparr>blobs := st2\<rparr>)
           | (Inr data, st2) \<Rightarrow>
               (case parse_lines pj (Split data (CHR 0x0A)) of
                  Inl e \<Rightarrow> (([], True, Some e), s\<lparr>blobs := st2\<rparr>)
                | Inr events \<Rightarrow> ((events, True, None), s\<lparr>blobs := st2\<rparr>))))"

definition Finalize ::
  "('st, 'w) Blobstore \<Rightarrow> string \<Rightarrow> ('st, 'w) Store \<Rightarrow> (goerror option \<times> ('st, 'w) Store) option"
where
  "Finalize bs invocationID s =
     (case writers s invocationID of
        None \<Rightarrow> Some (None, s)
      | Some w \<Rightarrow>
          (let s1 = s\<lparr>writers := (writers s)(invocationID := None)\<rparr> in
           case op_Close bs w (blobs s1) of
             None \<Rightarrow> None
           | Some (err, st) \<Rightarrow> Some (err, s1\<lparr>blobs := st\<rparr>)))"

section \<open>The lines of a blob\<close>

definition line_of :: "event_codec \<Rightarrow> BuildEvent \<Rightarrow> bytes" where
  "line_of pj e = (case pj_Marshal pj e of Inr l \<Rightarrow> l @ [CHR 0x0A] | Inl _ \<Rightarrow> [])"

lemma parse_lines_of:
  assumes "json_lawful pj" and "\<And>e. e \<in> set es \<Longrightarrow> \<exists>l. pj_Marshal pj e = Inr l"
  shows "parse_lines pj (Split (concat (map (line_of pj) es)) (CHR 0x0A)) = Inr es"
  using assms(2)
proof (induction es)
  case (Cons e es)
  then obtain l where l: "pj_Marshal pj e = Inr l" by force
  with assms(1) have "l \<noteq> []" "CHR 0x0A \<notin> set l" "pj_Unmarshal pj l = Inr e"
    by (auto simp: json_lawful_def)
  with Cons l show ?case by (simp add: line_of_def Split_append)
qed simp

section \<open>Sequences of operations\<close>

text \<open>
  The calls of the gRPC server and of the web UI arrive in any order, for any invocations; each
  one runs to its end before its effect is visible to a call on the same invocation.
\<close>

datatype store_op =
    OpAppend string BuildEvent
  | OpFinalize string
  | OpRead string

fun op_id :: "store_op \<Rightarrow> string" where
  "op_id (OpAppend i e) = i"
| "op_id (OpFinalize i) = i"
| "op_id (OpRead i) = i"

datatype store_out =
    Done "goerror option"
  | Got "BuildEvent list" bool "goerror option"

fun succeeded :: "store_out \<Rightarrow> bool" where
  "succeeded (Done err) \<longleftrightarrow> err = None"
| "succeeded (Got es found err) \<longleftrightarrow> err = None"

fun run_op ::
  "('st, 'w) Blobstore \<Rightarrow> event_codec \<Rightarrow> store_op \<Rightarrow> ('st, 'w) Store \<Rightarrow>
   (store_out \<times> ('st, 'w) Store) option"
where
  "run_op bs pj (OpAppend i e) s =
     map_option (\<lambda>(err, s'). (Done err, s')) (AppendEvent bs pj i e s)"
| "run_op bs pj (OpFinalize i) s = map_option (\<lambda>(err, s'). (Done err, s')) (Finalize bs i s)"
| "run_op bs pj (OpRead i) s =
     (case ReadEvents bs pj i s of ((es, found, err), s') \<Rightarrow> Some (Got es found err, s'))"

fun run_ops ::
  "('st, 'w) Blobstore \<Rightarrow> event_codec \<Rightarrow> store_op list \<Rightarrow> ('st, 'w) Store \<Rightarrow>
   (store_out list \<times> ('st, 'w) Store) option"
where
  "run_ops bs pj [] s = Some ([], s)"
| "run_ops bs pj (op # ops) s =
     (case run_op bs pj op s of
        None \<Rightarrow> None
      | Some (out, s1) \<Rightarrow>
          (case run_ops bs pj ops s1 of
             None \<Rightarrow> None
           | Some (outs, s2) \<Rightarrow> Some (out # outs, s2)))"

section \<open>The specification\<close>

text \<open>
  What is known of an invocation: no writer is open (\<open>Idle\<close>), a writer is open and took these
  events (\<open>Streaming\<close>), a write failed (\<open>Failed\<close>), the blob is committed (\<open>Stored\<close>).
\<close>

datatype phase = Idle | Streaming "BuildEvent list" | Failed | Stored "BuildEvent list"

definition marshals :: "event_codec \<Rightarrow> BuildEvent \<Rightarrow> bool" where
  "marshals pj e \<longleftrightarrow> (case pj_Marshal pj e of Inl _ \<Rightarrow> False | Inr _ \<Rightarrow> True)"

lemma marshals_iff: "marshals pj e \<longleftrightarrow> (\<exists>l. pj_Marshal pj e = Inr l)"
  by (auto simp: marshals_def split: sum.splits)

text \<open>
  The phase after an operation with a given outcome.  A failing append leaves the phase alone when
  the event cannot be marshalled; it leaves a failed writer behind when the write failed, and none
  when the writer could not be opened.
\<close>

fun append_phase :: "phase \<Rightarrow> BuildEvent \<Rightarrow> phase" where
  "append_phase (Streaming es) e = Streaming (es @ [e])"
| "append_phase _ e = Streaming [e]"

definition open_failed :: "goerror option \<Rightarrow> bool" where
  "open_failed err \<longleftrightarrow> (case err of Some (WrapErr m as e) \<Rightarrow> m = ''open blob writer'' | _ \<Rightarrow> False)"

fun step_phase :: "event_codec \<Rightarrow> phase \<Rightarrow> store_op \<Rightarrow> store_out \<Rightarrow> phase" where
  "step_phase pj a (OpAppend i e) out =
     (if succeeded out then append_phase a e
      else if \<not> marshals pj e then a
      else case out of Done err \<Rightarrow> (if open_failed err then Idle else Failed) | _ \<Rightarrow> Failed)"
| "step_phase pj a (OpFinalize i) out =
     (if succeeded out then (case a of Streaming es \<Rightarrow> Stored es | _ \<Rightarrow> a)
      else Idle)"
| "step_phase pj a (OpRead i) out = a"

text \<open>
  The outcomes the specification allows: a failed writer fails every later call until the failing
  \<open>Finalize\<close> drops it, and a stored invocation reads back its events.
\<close>

fun allowed :: "event_codec \<Rightarrow> phase \<Rightarrow> store_op \<Rightarrow> store_out \<Rightarrow> bool" where
  "allowed pj a (OpAppend i e) out \<longleftrightarrow>
     (succeeded out \<longrightarrow> marshals pj e \<and> a \<noteq> Failed)"
| "allowed pj a (OpFinalize i) out \<longleftrightarrow> (succeeded out \<longrightarrow> a \<noteq> Failed)"
| "allowed pj a (OpRead i) out \<longleftrightarrow>
     (case a of Stored es \<Rightarrow> succeeded out \<longrightarrow> out = Got es True None | _ \<Rightarrow> True)"

fun spec_trace ::
  "event_codec \<Rightarrow> (string \<Rightarrow> phase) \<Rightarrow> store_op list \<Rightarrow> store_out list \<Rightarrow> bool"
where
  "spec_trace pj A [] outs \<longleftrightarrow> outs = []"
| "spec_trace pj A (op # ops) [] \<longleftrightarrow> False"
| "spec_trace pj A (op # ops) (out # outs) \<longleftrightarrow>
     allowed pj (A (op_id op)) op out \<and>
     spec_trace pj (A(op_id op := step_phase pj (A (op_id op)) op out)) ops outs"

text \<open>No invocation is read while its writer is open.\<close>

definition readable :: "phase \<Rightarrow> store_op \<Rightarrow> bool" where
  "readable a op \<longleftrightarrow>
     (case op of OpRead i \<Rightarrow> (case a of Streaming _ \<Rightarrow> False | Failed \<Rightarrow> False | _ \<Rightarrow> True) | _ \<Rightarrow> True)"

fun reads_settled ::
  "event_codec \<Rightarrow> (string \<Rightarrow> phase) \<Rightarrow> store_op list \<Rightarrow> store_out list \<Rightarrow> bool"
where
  "reads_settled pj A (op # ops) (out # outs) \<longleftrightarrow>
     readable (A (op_id op)) op \<and>
     reads_settled pj (A(op_id op := step_phase pj (A (op_id op)) op out)) ops outs"
| "reads_settled pj A _ _ \<longleftrightarrow> True"

section \<open>Refinement\<close>

definition phase_rel ::
  "('st, 'w) blob_view \<Rightarrow> event_codec \<Rightarrow> ('st, 'w) Store \<Rightarrow> string \<Rightarrow> phase \<Rightarrow> bool"
where
  "phase_rel V pj s i a \<longleftrightarrow>
     (case a of
        Idle \<Rightarrow> writers s i = None
      | Streaming es \<Rightarrow>
          (\<exists>w. writers s i = Some w \<and> (\<forall>e \<in> set es. marshals pj e) \<and>
             v_writing V (blobs s) w (blobName i) (map (line_of pj) es))
      | Failed \<Rightarrow> (\<exists>w. writers s i = Some w \<and> v_broken V (blobs s) w (blobName i))
      | Stored es \<Rightarrow>
          writers s i = None \<and> (\<forall>e \<in> set es. marshals pj e) \<and>
          v_holds V (blobs s) (blobName i) (concat (map (line_of pj) es)))"

definition store_sim ::
  "('st, 'w) blob_view \<Rightarrow> event_codec \<Rightarrow> ('st, 'w) Store \<Rightarrow> (string \<Rightarrow> phase) \<Rightarrow> bool"
where
  "store_sim V pj s A \<longleftrightarrow>
     v_inv V (blobs s) \<and> (\<forall>i. v_ok V (blobName i) \<longrightarrow> phase_rel V pj s i (A i))"

lemma blobName_inj [simp]: "blobName i = blobName j \<longleftrightarrow> i = j"
  by (simp add: blobName_def)

lemma store_sim_New: "v_inv V st \<Longrightarrow> store_sim V pj (store_New st) (\<lambda>_. Idle)"
  by (simp add: store_sim_def phase_rel_def store_New_def)

text \<open>One operation on \<open>i\<close>: what is known of the other invocations stays.\<close>

lemma store_sim_step:
  assumes "store_sim V pj s A" and "kept V (blobName i) (blobs s) (blobs s')"
    and "\<And>j. j \<noteq> i \<Longrightarrow> writers s' j = writers s j" and "phase_rel V pj s' i a"
  shows "store_sim V pj s' (A(i := a))"
proof -
  have "phase_rel V pj s' j (A j)" if "j \<noteq> i" "v_ok V (blobName j)" for j
    using assms(1,3) kept_other [OF assms(2) that(2)] that
    unfolding store_sim_def phase_rel_def same_at_def
    by (cases "A j") fastforce+
  with assms show ?thesis by (auto simp: store_sim_def dest: kept_inv)
qed

context blobstore
begin

lemma sim_writer_None:
  "store_sim V pj s A \<Longrightarrow> v_ok V (blobName i) \<Longrightarrow> writers s i = None \<Longrightarrow>
   A i = Idle \<or> (\<exists>es. A i = Stored es)"
  by (cases "A i") (auto simp: store_sim_def phase_rel_def dest!: spec [of _ i])

lemma sim_writer_Some:
  assumes "store_sim V pj s A" "v_ok V (blobName i)" "writers s i = Some w"
  shows "(\<exists>es. A i = Streaming es \<and> (\<forall>e \<in> set es. marshals pj e) \<and>
            v_writing V (blobs s) w (blobName i) (map (line_of pj) es)) \<or>
         (A i = Failed \<and> v_broken V (blobs s) w (blobName i))"
  using assms by (cases "A i") (auto simp: store_sim_def phase_rel_def dest!: spec [of _ i])

text \<open>Writing to the open writer, and opening one.\<close>

lemma sim_write:
  assumes "store_sim V pj s A" "v_ok V (blobName i)" "writers s i = Some w"
    and "pj_Marshal pj e = Inr line"
    and "op_Write bs w (line @ [CHR 0x0A]) (blobs s) = Some ((n, err), w', st)"
  defines "s' \<equiv> s\<lparr>blobs := st, writers := (writers s)(i \<mapsto> w')\<rparr>"
  shows "store_sim V pj s' (A(i := if err = None then append_phase (A i) e else Failed))"
    and "err = None \<Longrightarrow> A i \<noteq> Failed"
proof -
  have inv: "v_inv V (blobs s)" using assms(1) by (simp add: store_sim_def)
  have line: "line_of pj e = line @ [CHR 0x0A]" "marshals pj e"
    using assms(4) by (simp_all add: line_of_def marshals_def)
  have *: "kept V (blobName i) (blobs s) st \<and> (err = None \<longrightarrow> A i \<noteq> Failed) \<and>
      phase_rel V pj s' i (if err = None then append_phase (A i) e else Failed)"
    using sim_writer_Some [OF assms(1-3)]
  proof (elim disjE exE conjE)
    fix es assume "A i = Streaming es" "\<forall>e \<in> set es. marshals pj e"
      "v_writing V (blobs s) w (blobName i) (map (line_of pj) es)"
    with stream_law [OF inv assms(2) _ assms(5)] line show ?thesis
      by (auto simp: phase_rel_def s'_def split: if_splits)
  next
    assume "A i = Failed" "v_broken V (blobs s) w (blobName i)"
    with stream_broken_law [OF inv assms(2) _ assms(5)] show ?thesis
      by (auto simp: phase_rel_def s'_def)
  qed
  then show "store_sim V pj s' (A(i := if err = None then append_phase (A i) e else Failed))"
    by (intro store_sim_step [OF assms(1)]) (auto simp: s'_def)
  from * show "err = None \<Longrightarrow> A i \<noteq> Failed" by simp
qed

lemma sim_open:
  assumes "store_sim V pj s A" "v_ok V (blobName i)" "writers s i = None"
    and "op_Writer bs (blobName i) (blobs s) = (r, st)"
  shows "case r of
      Inl e \<Rightarrow> store_sim V pj (s\<lparr>blobs := st\<rparr>) (A(i := Idle))
    | Inr w \<Rightarrow> store_sim V pj (s\<lparr>blobs := st, writers := (writers s)(i \<mapsto> w)\<rparr>) (A(i := Streaming []))"
proof -
  have inv: "v_inv V (blobs s)" using assms(1) by (simp add: store_sim_def)
  note law = writer_law [OF inv assms(2,4)]
  show ?thesis
  proof (cases r)
    case (Inl e)
    with law assms(3) have "store_sim V pj (s\<lparr>blobs := st\<rparr>) (A(i := Idle))"
      by (intro store_sim_step [OF assms(1)]) (auto simp: phase_rel_def)
    with Inl show ?thesis by simp
  next
    case (Inr w)
    with law have "store_sim V pj (s\<lparr>blobs := st, writers := (writers s)(i \<mapsto> w)\<rparr>)
        (A(i := Streaming []))"
      by (intro store_sim_step [OF assms(1)]) (auto simp: phase_rel_def)
    with Inr show ?thesis by simp
  qed
qed

lemma sim_append:
  assumes "store_sim V pj s A" "v_ok V (blobName i)"
    and "AppendEvent bs pj i e s = Some (err, s')"
  shows "allowed pj (A i) (OpAppend i e) (Done err) \<and>
    store_sim V pj s' (A(i := step_phase pj (A i) (OpAppend i e) (Done err)))"
proof (cases "pj_Marshal pj e")
  case (Inl x)
  with assms show ?thesis by (auto simp: AppendEvent_def marshals_def)
next
  case (Inr line)
  then have m: "marshals pj e" by (simp add: marshals_def)
  show ?thesis
  proof (cases "writers s i")
    case (Some w)
    with assms(3) Inr obtain n err' w' st where
      w: "op_Write bs w (line @ [CHR 0x0A]) (blobs s) = Some ((n, err'), w', st)"
      and r: "err = map_option (WrapErr ''write event'' []) err'"
        "s' = s\<lparr>blobs := st, writers := (writers s)(i \<mapsto> w')\<rparr>"
      by (auto simp: AppendEvent_def writerFor_def split: option.splits)
    show ?thesis
      using sim_write [OF assms(1,2) Some Inr w] m r
      by (cases err') (simp_all add: open_failed_def)
  next
    case None
    obtain ro st where o: "op_Writer bs (blobName i) (blobs s) = (ro, st)" by force
    note so = sim_open [OF assms(1,2) None o]
    have idle: "A i = Idle \<or> (\<exists>es. A i = Stored es)"
      using sim_writer_None [OF assms(1,2) None] .
    show ?thesis
    proof (cases ro)
      case (Inl x)
      with so o None assms(3) Inr m show ?thesis
        by (auto simp: AppendEvent_def writerFor_def open_failed_def)
    next
      case (Inr w)
      let ?s = "s\<lparr>blobs := st, writers := (writers s)(i \<mapsto> w)\<rparr>"
      from Inr \<open>pj_Marshal pj e = Inr line\<close> o None assms(3) obtain n err' w' st' where
        w: "op_Write bs w (line @ [CHR 0x0A]) (blobs ?s) = Some ((n, err'), w', st')"
        and r: "err = map_option (WrapErr ''write event'' []) err'"
          "s' = ?s\<lparr>blobs := st', writers := (writers ?s)(i \<mapsto> w')\<rparr>"
        by (auto simp: AppendEvent_def writerFor_def split: option.splits)
      have "store_sim V pj ?s (A(i := Streaming []))" using so Inr by simp
      from sim_write [OF this assms(2) _ \<open>pj_Marshal pj e = Inr line\<close> w] m r idle
      show ?thesis by (cases err') (auto simp: open_failed_def)
    qed
  qed
qed

lemma sim_finalize:
  assumes "store_sim V pj s A" "v_ok V (blobName i)" and "Finalize bs i s = Some (err, s')"
  shows "allowed pj (A i) (OpFinalize i) (Done err) \<and>
    store_sim V pj s' (A(i := step_phase pj (A i) (OpFinalize i) (Done err)))"
proof (cases "writers s i")
  case None
  with sim_writer_None [OF assms(1,2) None] assms show ?thesis
    by (auto simp: Finalize_def fun_upd_idem)
next
  case (Some w)
  have inv: "v_inv V (blobs s)" using assms(1) by (simp add: store_sim_def)
  from Some assms(3) obtain st where
    c: "op_Close bs w (blobs s) = Some (err, st)"
    and s': "s' = s\<lparr>blobs := st, writers := (writers s)(i := None)\<rparr>"
    by (auto simp: Finalize_def split: option.splits)
  let ?a = "step_phase pj (A i) (OpFinalize i) (Done err)"
  have "kept V (blobName i) (blobs s) st \<and> (err = None \<longrightarrow> A i \<noteq> Failed) \<and>
      phase_rel V pj s' i ?a"
    using sim_writer_Some [OF assms(1,2) Some]
  proof (elim disjE exE conjE)
    fix es assume "A i = Streaming es" "\<forall>e \<in> set es. marshals pj e"
      "v_writing V (blobs s) w (blobName i) (map (line_of pj) es)"
    with close_law [OF inv assms(2) _ c] show ?thesis
      by (auto simp: phase_rel_def s')
  next
    assume "A i = Failed" "v_broken V (blobs s) w (blobName i)"
    with close_broken_law [OF inv assms(2) _ c] show ?thesis
      by (auto simp: phase_rel_def s')
  qed
  then show ?thesis
    using store_sim_step [OF assms(1), of i s' ?a] by (auto simp: s')
qed

lemma sim_read:
  assumes "json_lawful pj" "store_sim V pj s A" "v_ok V (blobName i)"
    and "readable (A i) (OpRead i)" and "ReadEvents bs pj i s = ((es, found, err), s')"
  shows "allowed pj (A i) (OpRead i) (Got es found err) \<and> store_sim V pj s' A"
proof -
  let ?n = "blobName i"
  have inv: "v_inv V (blobs s)" using assms(2) by (simp add: store_sim_def)
  obtain re st where e: "op_BlobExists bs ?n (blobs s) = (re, st)" by force
  obtain rr st2 where r: "op_ReadBlob bs ?n st = (rr, st2)" by force
  note el = exists_law [OF inv assms(3) e]
  then have rl: "kept V ?n st st2 \<and>
      (\<forall>d. v_holds V st ?n d \<longrightarrow> v_holds V st2 ?n d \<and> (\<forall>d'. rr = Inr d' \<longrightarrow> d' = d))"
    using read_law [OF _ assms(3) r] by (auto dest: kept_inv)
  have s': "writers s' = writers s" "blobs s' = st \<or> blobs s' = st2"
    using assms(5) e r by (auto simp: ReadEvents_def Let_def split: sum.splits bool.splits)
  have k: "kept V ?n (blobs s) (blobs s')"
    using s' el rl by (auto intro: kept_trans)
  have ph: "A i = Idle \<or> (\<exists>es. A i = Stored es)"
    using assms(4) by (cases "A i") (auto simp: readable_def)
  have rel: "phase_rel V pj s i (A i)" using assms(2,3) by (auto simp: store_sim_def)
  have "allowed pj (A i) (OpRead i) (Got es found err) \<and> phase_rel V pj s' i (A i)"
  proof (cases "A i")
    case (Stored evs)
    let ?d = "concat (map (line_of pj) evs)"
    have h: "v_holds V (blobs s) ?n ?d" "\<forall>e \<in> set evs. marshals pj e"
      using rel Stored by (auto simp: phase_rel_def)
    then have "parse_lines pj (Split ?d (CHR 0x0A)) = Inr evs"
      using parse_lines_of [OF assms(1), of evs] by (simp add: marshals_iff)
    moreover have "v_holds V st ?n ?d" "re \<noteq> Inr False"
      using el h by (auto simp: same_at_def)
    moreover from this have "v_holds V st2 ?n ?d" "\<And>d'. rr = Inr d' \<Longrightarrow> d' = ?d"
      using rl by auto
    ultimately show ?thesis
      using assms(5) e r s' rel Stored
      by (auto simp: ReadEvents_def phase_rel_def split: sum.splits bool.splits)
  qed (use ph rel s' in \<open>auto simp: phase_rel_def\<close>)
  then show ?thesis
    using store_sim_step [OF assms(2) k, of "A i"] s' by simp
qed

lemma run_op_sim:
  assumes "json_lawful pj" "store_sim V pj s A" "v_ok V (blobName (op_id op))"
    and "readable (A (op_id op)) op" "run_op bs pj op s = Some (out, s')"
  shows "allowed pj (A (op_id op)) op out \<and>
    store_sim V pj s' (A(op_id op := step_phase pj (A (op_id op)) op out))"
proof (cases op)
  case (OpAppend i e)
  then show ?thesis
    using assms sim_append [OF assms(2), of i e] by (auto simp del: fun_upd_apply)
next
  case (OpFinalize i)
  then show ?thesis
    using assms sim_finalize [OF assms(2), of i] by (auto simp del: fun_upd_apply)
next
  case (OpRead i)
  then show ?thesis
    using assms sim_read [OF assms(1,2), of i]
    by (auto simp: fun_upd_idem simp del: fun_upd_apply split: prod.splits)
qed

text \<open>Every run of the store over a backend that meets the contract is a run of the specification.\<close>

lemma run_ops_refines:
  assumes "json_lawful pj" "store_sim V pj s A" "\<forall>op \<in> set ops. v_ok V (blobName (op_id op))"
    and "run_ops bs pj ops s = Some (outs, s')" "reads_settled pj A ops outs"
  shows "spec_trace pj A ops outs"
  using assms(2-)
proof (induction ops arbitrary: s A outs)
  case (Cons op ops)
  then obtain out s1 outs' where
    o: "run_op bs pj op s = Some (out, s1)" "run_ops bs pj ops s1 = Some (outs', s')"
      "outs = out # outs'"
    by (auto split: option.splits)
  with Cons.prems show ?case
    using run_op_sim [OF assms(1) Cons.prems(1) _ _ o(1)]
      Cons.IH [of s1 "A(op_id op := step_phase pj (A (op_id op)) op out)" outs']
    by (simp del: fun_upd_apply)
qed simp

end

text \<open>Over a backend where nothing goes wrong the operations succeed.\<close>

context reliable_blobstore
begin

lemma live_append:
  assumes "store_sim V pj s A" "v_ok V (blobName i)" "live (blobs s)" "marshals pj e"
    and "A i \<noteq> Failed"
  shows "\<exists>s'. AppendEvent bs pj i e s = Some (None, s') \<and> live (blobs s') \<and>
    store_sim V pj s' (A(i := append_phase (A i) e))"
proof -
  have inv: "v_inv V (blobs s)" using assms(1) by (simp add: store_sim_def)
  from assms(4) obtain line where l: "pj_Marshal pj e = Inr line" by (auto simp: marshals_iff)
  have "\<exists>s'. AppendEvent bs pj i e s = Some (None, s') \<and> live (blobs s')"
  proof (cases "writers s i")
    case (Some w)
    then obtain cs where "v_writing V (blobs s) w (blobName i) cs"
      using sim_writer_Some [OF assms(1,2) Some] assms(5) by auto
    from live_stream [OF inv assms(3,2) this, of "line @ [CHR 0x0A]"] Some l show ?thesis
      by (force simp: AppendEvent_def writerFor_def)
  next
    case None
    from live_writer [OF inv assms(3,2)] obtain w st where
      o: "op_Writer bs (blobName i) (blobs s) = (Inr w, st)" "live st" by blast
    with writer_law [OF inv assms(2) o(1)] have "v_inv V st" "v_writing V st w (blobName i) []"
      by (auto dest: kept_inv)
    from live_stream [OF this(1) o(2) assms(2) this(2), of "line @ [CHR 0x0A]"] None o l
    show ?thesis by (force simp: AppendEvent_def writerFor_def)
  qed
  then obtain s' where s': "AppendEvent bs pj i e s = Some (None, s')" "live (blobs s')" by blast
  with sim_append [OF assms(1,2) s'(1)] show ?thesis by auto
qed

lemma live_finalize:
  assumes "store_sim V pj s A" "v_ok V (blobName i)" "live (blobs s)" "A i = Streaming es"
  shows "\<exists>s'. Finalize bs i s = Some (None, s') \<and> live (blobs s') \<and>
    store_sim V pj s' (A(i := Stored es))"
proof -
  have inv: "v_inv V (blobs s)" and rel: "phase_rel V pj s i (A i)"
    using assms(1,2) by (auto simp: store_sim_def)
  then obtain w where w: "writers s i = Some w"
    "v_writing V (blobs s) w (blobName i) (map (line_of pj) es)"
    using assms(4) by (auto simp: phase_rel_def)
  from live_close [OF inv assms(3,2) w(2)] obtain s' where
    s': "Finalize bs i s = Some (None, s')" "live (blobs s')"
    using w(1) by (auto simp: Finalize_def)
  with sim_finalize [OF assms(1,2) s'(1)] assms(4) show ?thesis by auto
qed

lemma live_read_events:
  assumes "json_lawful pj" "store_sim V pj s A" "v_ok V (blobName i)" "live (blobs s)"
    and "A i = Stored es"
  shows "\<exists>s'. ReadEvents bs pj i s = ((es, True, None), s') \<and> live (blobs s') \<and>
    store_sim V pj s' A"
proof -
  let ?n = "blobName i" and ?d = "concat (map (line_of pj) es)"
  have inv: "v_inv V (blobs s)" and rel: "phase_rel V pj s i (A i)"
    using assms(2,3) by (auto simp: store_sim_def)
  then have h: "v_holds V (blobs s) ?n ?d" "\<forall>e \<in> set es. marshals pj e"
    using assms(5) by (auto simp: phase_rel_def)
  from live_exists [OF inv assms(4,3)] obtain b st where
    e: "op_BlobExists bs ?n (blobs s) = (Inr b, st)" "live st" by blast
  with exists_law [OF inv assms(3) e(1)] h have "b" "v_inv V st" "v_holds V st ?n ?d"
    by (auto simp: same_at_def dest: kept_inv)
  moreover from live_read [OF this(2) e(2) assms(3) this(3)] obtain st2 where
    "op_ReadBlob bs ?n st = (Inr ?d, st2)" "live st2" by blast
  moreover have "parse_lines pj (Split ?d (CHR 0x0A)) = Inr es"
    using parse_lines_of [OF assms(1), of es] h by (simp add: marshals_iff)
  ultimately have r: "ReadEvents bs pj i s = ((es, True, None), s\<lparr>blobs := st2\<rparr>)" "live st2"
    using e by (simp_all add: ReadEvents_def)
  moreover have "readable (A i) (OpRead i)" using assms(5) by (simp add: readable_def)
  ultimately show ?thesis using sim_read [OF assms(1-3) _ r(1)] by auto
qed

end

section \<open>Consequences of the specification\<close>

text \<open>The operations on one invocation, with their outcomes.\<close>

definition calls_on :: "string \<Rightarrow> store_op list \<Rightarrow> store_out list \<Rightarrow> (store_op \<times> store_out) list"
where
  "calls_on i ops outs = filter (\<lambda>(op, out). op_id op = i) (zip ops outs)"

lemma spec_stored_read:
  assumes "spec_trace pj A ops outs" "A i = Stored es" "calls_on i ops outs = [(OpRead i, out)]"
    and "succeeded out"
  shows "out = Got es True None"
  using assms
proof (induction pj A ops outs rule: spec_trace.induct)
  case (3 pj A op ops out1 outs)
  let ?A = "A(op_id op := step_phase pj (A (op_id op)) op out1)"
  have tr: "spec_trace pj ?A ops outs" using 3(2) by simp
  show ?case
  proof (cases "op_id op = i")
    case False
    then have "?A i = A i" "calls_on i ops outs = calls_on i (op # ops) (out1 # outs)"
      by (auto simp: calls_on_def)
    with 3(1) [OF tr] 3(3-) show ?thesis by metis
  qed (use 3(2-) in \<open>auto simp: calls_on_def\<close>)
qed (auto simp: calls_on_def)

lemma spec_round_trip:
  assumes "spec_trace pj A ops outs" and "A i = Streaming es0 \<or> A i = Idle \<and> es0 = [] \<and> es \<noteq> []"
    and "calls_on i ops outs =
      map (\<lambda>e. (OpAppend i e, Done None)) es @ [(OpFinalize i, Done None), (OpRead i, out)]"
    and "succeeded out"
  shows "out = Got (es0 @ es) True None"
  using assms
proof (induction pj A ops outs arbitrary: es es0 rule: spec_trace.induct)
  case (3 pj A op ops out1 outs)
  let ?A = "A(op_id op := step_phase pj (A (op_id op)) op out1)"
  have tr: "spec_trace pj ?A ops outs" using 3(2) by simp
  show ?case
  proof (cases "op_id op = i")
    case False
    then have "?A i = A i" "calls_on i ops outs = calls_on i (op # ops) (out1 # outs)"
      by (auto simp: calls_on_def)
    with 3(1) [OF tr, of es0 es] 3(3-) show ?thesis by metis
  next
    case True
    show ?thesis
    proof (cases es)
      case (Cons e es')
      with 3(4) True have c: "op = OpAppend i e" "out1 = Done None" "calls_on i ops outs =
          map (\<lambda>e. (OpAppend i e, Done None)) es' @ [(OpFinalize i, Done None), (OpRead i, out)]"
        by (auto simp: calls_on_def)
      have "?A i = Streaming (es0 @ [e])" using 3(3) c True by auto
      from 3(1) [OF tr disjI1, OF this c(3) 3(5)] Cons show ?thesis by simp
    next
      case Nil
      with 3(3,4) True have c: "op = OpFinalize i" "out1 = Done None" "A i = Streaming es0"
        "calls_on i ops outs = [(OpRead i, out)]"
        by (auto simp: calls_on_def)
      then have "?A i = Stored es0" by simp
      with spec_stored_read [OF tr _ c(4) 3(5)] Nil show ?thesis by simp
    qed
  qed
qed (auto simp: calls_on_def)

section \<open>A codec for the examples\<close>

definition plain_event :: "Payload \<Rightarrow> BuildEvent" where
  "plain_event pl = \<lparr>EventId = None, Children = [], Payload = pl\<rparr>"

definition sample_json :: event_codec where
  "sample_json =
     \<lparr>pj_Marshal = (\<lambda>e. if e = plain_event BuildEvent_Fetch then Inr ''{fetch}''
                     else if e = plain_event BuildEvent_Expanded then Inr ''{expanded}''
                     else Inl (Errorf ''unknown event'' [])),
      pj_Unmarshal = (\<lambda>l. if l = ''{fetch}'' then Inr (plain_event BuildEvent_Fetch)
                     else if l = ''{expanded}'' then Inr (plain_event BuildEvent_Expanded)
                     else Inl (Errorf ''syntax error'' []))\<rparr>"

lemma sample_json_lawful: "json_lawful sample_json"
  by (auto simp: json_lawful_def sample_json_def split: if_splits)

end
