(* ===== verification/Indexer.thy ===== *)
theory Indexer
  imports InvocationRecord
begin

text \<open>
  The interface of the invocation index, \<open>src/index/indexer.go\<close>.
\<close>

record ListOptions =
  Limit :: int
  Query :: string
  Status :: string
  Before :: "gotime option"
  Since :: "gotime option"
  Until :: "gotime option"

record 'ix Indexer =
  ix_Upsert :: "Record \<Rightarrow> 'ix \<Rightarrow> goerror option \<times> 'ix"
  ix_Get :: "string \<Rightarrow> 'ix \<Rightarrow> (goerror + Record option) \<times> 'ix"
  ix_List :: "ListOptions \<Rightarrow> 'ix \<Rightarrow> (goerror + Record list) \<times> 'ix"

section \<open>The contract\<close>

text \<open>
  What a client of the index relies on.  A view of an index names the states in which the contract
  holds, the records it keeps by invocation ID, what it keeps of a record (columns may be coarser
  than the record), and which records match the options of a listing.  An upsert replaces the
  record but for the time it was created; a listing is a prefix of the matching records, newest
  first.
\<close>

record 'ix index_view =
  xv_inv :: "'ix \<Rightarrow> bool"
  xv_recs :: "'ix \<Rightarrow> string \<rightharpoonup> Record"
  xv_kept :: "'ix \<Rightarrow> Record \<Rightarrow> Record"
  xv_matches :: "'ix \<Rightarrow> ListOptions \<Rightarrow> Record \<Rightarrow> bool"

definition upserted :: "(Record \<Rightarrow> Record) \<Rightarrow> Record option \<Rightarrow> Record \<Rightarrow> Record" where
  "upserted keep old r =
     (case old of None \<Rightarrow> keep r | Some o1 \<Rightarrow> (keep r)\<lparr>CreatedAt := CreatedAt o1\<rparr>)"

text \<open>All the records that match, newest first; records of the same time in any order.\<close>

definition newest_first :: "(Record \<Rightarrow> bool) \<Rightarrow> (string \<rightharpoonup> Record) \<Rightarrow> Record list \<Rightarrow> bool" where
  "newest_first m recs rs \<longleftrightarrow>
     distinct rs \<and> set rs = {r \<in> ran recs. m r} \<and>
     sorted_wrt (\<lambda>a b. CreatedAt b \<le> CreatedAt a) rs"

definition effective_limit :: "ListOptions \<Rightarrow> nat" where
  "effective_limit opts = (if Limit opts \<le> 0 then 50 else nat (Limit opts))"

locale indexer =
  fixes ix :: "'ix Indexer" and V :: "'ix index_view"
  assumes upsert_law:
      "xv_inv V s \<Longrightarrow> ix_Upsert ix r s = (e, s') \<Longrightarrow>
       xv_inv V s' \<and> xv_kept V s' = xv_kept V s \<and> xv_matches V s' = xv_matches V s \<and>
       (\<forall>i. i \<noteq> InvocationID r \<longrightarrow> xv_recs V s' i = xv_recs V s i) \<and>
       (e = None \<longrightarrow> xv_recs V s' (InvocationID r) =
          Some (upserted (xv_kept V s) (xv_recs V s (InvocationID r)) r))"
    and get_law:
      "xv_inv V s \<Longrightarrow> ix_Get ix i s = (g, s') \<Longrightarrow>
       xv_inv V s' \<and> xv_kept V s' = xv_kept V s \<and> xv_matches V s' = xv_matches V s \<and>
       xv_recs V s' = xv_recs V s \<and> (\<forall>x. g = Inr x \<longrightarrow> x = xv_recs V s i)"
    and list_law:
      "xv_inv V s \<Longrightarrow> ix_List ix opts s = (l, s') \<Longrightarrow>
       xv_inv V s' \<and> xv_kept V s' = xv_kept V s \<and> xv_matches V s' = xv_matches V s \<and>
       xv_recs V s' = xv_recs V s \<and>
       (\<forall>rs. l = Inr rs \<longrightarrow>
          (\<exists>all. newest_first (xv_matches V s opts) (xv_recs V s) all \<and>
            rs = take (effective_limit opts) all))"
    and paging_law:
      "xv_inv V s \<Longrightarrow> xv_recs V s i = Some r \<Longrightarrow> xv_recs V s j = Some q \<Longrightarrow>
       xv_matches V s (opts\<lparr>Before := Some (CreatedAt r)\<rparr>) q \<longleftrightarrow>
         xv_matches V s (opts\<lparr>Before := None\<rparr>) q \<and> CreatedAt q < CreatedAt r"
begin

lemma upsert_then_get:
  assumes "xv_inv V s" "ix_Upsert ix r s = (None, s1)" "ix_Get ix (InvocationID r) s1 = (Inr x, s2)"
  shows "x = Some (upserted (xv_kept V s) (xv_recs V s (InvocationID r)) r)"
  using upsert_law [OF assms(1,2)] get_law [OF _ assms(3)] by auto

lemma upsert_others:
  assumes "xv_inv V s" "ix_Upsert ix r s = (e, s1)" "ix_Get ix i s1 = (Inr x, s2)"
    and "i \<noteq> InvocationID r"
  shows "x = xv_recs V s i"
  using upsert_law [OF assms(1,2)] get_law [OF _ assms(3)] assms(4) by auto

end

text \<open>Two lists of the same elements in strictly descending order of time are the same list.\<close>

lemma newest_first_unique:
  assumes "newest_first m recs as" "newest_first m recs bs" "inj_on CreatedAt {r \<in> ran recs. m r}"
  shows "as = bs"
proof -
  have "sorted (map (\<lambda>r. - CreatedAt r) xs) \<and> distinct (map (\<lambda>r. - CreatedAt r) xs)"
    if "newest_first m recs xs" for xs
    using that assms(3) by (auto simp: newest_first_def sorted_map distinct_map inj_on_def)
  from this [OF assms(1)] this [OF assms(2)]
  have "map (\<lambda>r. - CreatedAt r) as = map (\<lambda>r. - CreatedAt r) bs"
    using assms(1,2) by (intro sorted_distinct_set_unique) (auto simp: newest_first_def)
  moreover have "inj_on (\<lambda>r. - CreatedAt r) (set as \<union> set bs)"
    using assms by (auto simp: newest_first_def inj_on_def)
  ultimately show ?thesis by (meson map_inj_on)
qed

text \<open>
  Key-set paging on the level of lists: what follows the first \<open>n\<close> records is what is older than
  the last of them, when no two have the same time.
\<close>

lemma newest_first_older:
  assumes "newest_first m recs all" "inj_on CreatedAt {r \<in> ran recs. m r}"
    and "0 < n" "n \<le> length all"
  shows "newest_first (\<lambda>r. m r \<and> CreatedAt r < CreatedAt (all ! (n - 1))) recs (drop n all)"
proof -
  let ?t = "CreatedAt (all ! (n - 1))"
  have s: "sorted_wrt (\<lambda>a b. CreatedAt b < CreatedAt a) all"
    unfolding sorted_wrt_iff_nth_less
  proof (intro allI impI)
    fix i j assume ij: "i < j" "j < length all"
    then have "all ! i \<noteq> all ! j" using assms(1) by (simp add: newest_first_def nth_eq_iff_index_eq)
    moreover have "all ! i \<in> {r \<in> ran recs. m r}" "all ! j \<in> {r \<in> ran recs. m r}"
      using assms(1) ij nth_mem [of i all] nth_mem [of j all] unfolding newest_first_def by simp_all
    ultimately have "CreatedAt (all ! i) \<noteq> CreatedAt (all ! j)"
      using assms(2) by (auto dest: inj_onD)
    moreover have "CreatedAt (all ! j) \<le> CreatedAt (all ! i)"
      using assms(1) ij by (auto simp: newest_first_def sorted_wrt_iff_nth_less)
    ultimately show "CreatedAt (all ! j) < CreatedAt (all ! i)" by simp
  qed
  have last: "all = take (n - 1) all @ all ! (n - 1) # drop n all"
    using id_take_nth_drop [of "n - 1" all] assms(3,4) by (metis Suc_pred' less_le_trans diff_less zero_less_one)
  have "sorted_wrt (\<lambda>a b. CreatedAt b < CreatedAt a)
      (take (n - 1) all @ all ! (n - 1) # drop n all)"
    using s by (subst last [symmetric])
  then have old: "\<forall>r \<in> set (drop n all). CreatedAt r < ?t"
    and new: "\<forall>r \<in> set (take (n - 1) all). ?t < CreatedAt r"
    unfolding sorted_wrt_append by simp_all
  have "set all = set (take (n - 1) all) \<union> {all ! (n - 1)} \<union> set (drop n all)"
    using arg_cong [OF last, of set] by auto
  with old new have "set (drop n all) = {r \<in> set all. CreatedAt r < ?t}"
    by (auto dest: less_asym)
  with assms(1) show ?thesis
    by (auto simp: newest_first_def sorted_wrt_drop)
qed

context indexer
begin

text \<open>Two pages in a row are one page of their joint length.\<close>

lemma two_pages:
  assumes "xv_inv V s" "Before opts = None"
    and "ix_List ix opts s = (Inr page, s1)" "page \<noteq> []"
    and "ix_List ix (opts\<lparr>Before := Some (CreatedAt (last page))\<rparr>) s1 = (Inr page', s2)"
    and "inj_on CreatedAt {r \<in> ran (xv_recs V s). xv_matches V s opts r}"
  shows "\<exists>all. newest_first (xv_matches V s opts) (xv_recs V s) all \<and>
    page @ page' = take (2 * effective_limit opts) all"
proof -
  let ?m = "xv_matches V s opts" and ?k = "effective_limit opts"
  let ?opts = "opts\<lparr>Before := Some (CreatedAt (last page))\<rparr>"
  note l1 = list_law [OF assms(1,3)]
  then obtain all where all: "newest_first ?m (xv_recs V s) all" "page = take ?k all" by auto
  from l1 have "xv_inv V s1" by simp
  note l2 = list_law [OF this assms(5)]
  let ?n = "length page"
  have n: "0 < ?n" "?n \<le> length all" "?n = min ?k (length all)" using assms(4) all(2) by auto
  then have last: "last page = all ! (?n - 1)"
    using n(1) nth_take [of "?n - 1" ?k all] last_conv_nth [OF assms(4)] all(2) n(3) by fastforce
  have opts: "opts\<lparr>Before := None\<rparr> = opts" using assms(2) by (cases opts) simp
  have "last page \<in> ran (xv_recs V s)"
    using all assms(4) by (metis (no_types, lifting) in_set_takeD last_in_set mem_Collect_eq newest_first_def)
  then obtain i where i: "xv_recs V s i = Some (last page)" by (auto simp: ran_def)
  have "xv_matches V s ?opts q \<longleftrightarrow> ?m q \<and> CreatedAt q < CreatedAt (last page)"
    if "q \<in> ran (xv_recs V s)" for q
    using that paging_law [OF assms(1) i, of _ q opts] opts by (auto simp: ran_def)
  then have same: "{r \<in> ran (xv_recs V s). xv_matches V s ?opts r} =
      {r \<in> ran (xv_recs V s). ?m r \<and> CreatedAt r < CreatedAt (last page)}" by auto
  obtain all' where all': "newest_first (xv_matches V s ?opts) (xv_recs V s) all'"
      "page' = take (effective_limit ?opts) all'"
    using l1 l2 by auto
  have "newest_first (\<lambda>r. ?m r \<and> CreatedAt r < CreatedAt (last page)) (xv_recs V s) (drop ?n all)"
    using newest_first_older [OF all(1) assms(6) n(1,2)] last by simp
  moreover have "newest_first (\<lambda>r. ?m r \<and> CreatedAt r < CreatedAt (last page)) (xv_recs V s) all'"
    using all'(1) same by (simp add: newest_first_def)
  ultimately have "all' = drop ?n all"
    by (rule newest_first_unique [rotated, THEN sym, rotated 2])
      (use assms(6) in \<open>auto simp: inj_on_def\<close>)
  moreover have "effective_limit ?opts = ?k" by (simp add: effective_limit_def)
  ultimately have "page @ page' = take (2 * ?k) all"
    using all(2) all'(2) n(3)
    by (cases "?k \<le> length all") (simp_all add: mult_2 take_add)
  with all(1) show ?thesis by blast
qed

end

section \<open>An index that is up\<close>

context indexer
begin

text \<open>A condition on the provider that no operation can change may join the invariant.\<close>

lemma guarded: "indexer ix (V\<lparr>xv_inv := \<lambda>s. xv_inv V s \<and> P\<rparr>)"
proof
  fix s r e s'
  assume "xv_inv (V\<lparr>xv_inv := \<lambda>s. xv_inv V s \<and> P\<rparr>) s" "ix_Upsert ix r s = (e, s')"
  then show "xv_inv (V\<lparr>xv_inv := \<lambda>s. xv_inv V s \<and> P\<rparr>) s' \<and>
      xv_kept (V\<lparr>xv_inv := \<lambda>s. xv_inv V s \<and> P\<rparr>) s' = xv_kept (V\<lparr>xv_inv := \<lambda>s. xv_inv V s \<and> P\<rparr>) s \<and>
      xv_matches (V\<lparr>xv_inv := \<lambda>s. xv_inv V s \<and> P\<rparr>) s' = xv_matches (V\<lparr>xv_inv := \<lambda>s. xv_inv V s \<and> P\<rparr>) s \<and>
      (\<forall>i. i \<noteq> InvocationID r \<longrightarrow> xv_recs (V\<lparr>xv_inv := \<lambda>s. xv_inv V s \<and> P\<rparr>) s' i =
        xv_recs (V\<lparr>xv_inv := \<lambda>s. xv_inv V s \<and> P\<rparr>) s i) \<and>
      (e = None \<longrightarrow> xv_recs (V\<lparr>xv_inv := \<lambda>s. xv_inv V s \<and> P\<rparr>) s' (InvocationID r) =
        Some (upserted (xv_kept (V\<lparr>xv_inv := \<lambda>s. xv_inv V s \<and> P\<rparr>) s)
          (xv_recs (V\<lparr>xv_inv := \<lambda>s. xv_inv V s \<and> P\<rparr>) s (InvocationID r)) r))"
    using upsert_law [of s r e s'] by simp
next
  fix s i g s'
  assume "xv_inv (V\<lparr>xv_inv := \<lambda>s. xv_inv V s \<and> P\<rparr>) s" "ix_Get ix i s = (g, s')"
  then show "xv_inv (V\<lparr>xv_inv := \<lambda>s. xv_inv V s \<and> P\<rparr>) s' \<and>
      xv_kept (V\<lparr>xv_inv := \<lambda>s. xv_inv V s \<and> P\<rparr>) s' = xv_kept (V\<lparr>xv_inv := \<lambda>s. xv_inv V s \<and> P\<rparr>) s \<and>
      xv_matches (V\<lparr>xv_inv := \<lambda>s. xv_inv V s \<and> P\<rparr>) s' = xv_matches (V\<lparr>xv_inv := \<lambda>s. xv_inv V s \<and> P\<rparr>) s \<and>
      xv_recs (V\<lparr>xv_inv := \<lambda>s. xv_inv V s \<and> P\<rparr>) s' = xv_recs (V\<lparr>xv_inv := \<lambda>s. xv_inv V s \<and> P\<rparr>) s \<and>
      (\<forall>x. g = Inr x \<longrightarrow> x = xv_recs (V\<lparr>xv_inv := \<lambda>s. xv_inv V s \<and> P\<rparr>) s i)"
    using get_law [of s i g s'] by simp
next
  fix s opts l s'
  assume "xv_inv (V\<lparr>xv_inv := \<lambda>s. xv_inv V s \<and> P\<rparr>) s" "ix_List ix opts s = (l, s')"
  then show "xv_inv (V\<lparr>xv_inv := \<lambda>s. xv_inv V s \<and> P\<rparr>) s' \<and>
      xv_kept (V\<lparr>xv_inv := \<lambda>s. xv_inv V s \<and> P\<rparr>) s' = xv_kept (V\<lparr>xv_inv := \<lambda>s. xv_inv V s \<and> P\<rparr>) s \<and>
      xv_matches (V\<lparr>xv_inv := \<lambda>s. xv_inv V s \<and> P\<rparr>) s' = xv_matches (V\<lparr>xv_inv := \<lambda>s. xv_inv V s \<and> P\<rparr>) s \<and>
      xv_recs (V\<lparr>xv_inv := \<lambda>s. xv_inv V s \<and> P\<rparr>) s' = xv_recs (V\<lparr>xv_inv := \<lambda>s. xv_inv V s \<and> P\<rparr>) s \<and>
      (\<forall>rs. l = Inr rs \<longrightarrow>
        (\<exists>all. newest_first (xv_matches (V\<lparr>xv_inv := \<lambda>s. xv_inv V s \<and> P\<rparr>) s opts)
            (xv_recs (V\<lparr>xv_inv := \<lambda>s. xv_inv V s \<and> P\<rparr>) s) all \<and>
          rs = take (effective_limit opts) all))"
    using list_law [of s opts l s'] by simp
qed (simp add: paging_law)

end

text \<open>What a client can rely on beyond the contract while no call fails.\<close>

locale live_indexer = indexer ix V
  for ix :: "'ix Indexer" and V :: "'ix index_view" +
  assumes live_upsert: "xv_inv V s \<Longrightarrow> fst (ix_Upsert ix r s) = None"
    and live_get: "xv_inv V s \<Longrightarrow> \<exists>x. fst (ix_Get ix i s) = Inr x"
begin

lemma stored_then_found:
  assumes "xv_inv V s"
  shows "\<exists>s1 s2. ix_Upsert ix r s = (None, s1) \<and> ix_Get ix (InvocationID r) s1 =
    (Inr (Some (upserted (xv_kept V s) (xv_recs V s (InvocationID r)) r)), s2)"
proof -
  obtain s1 where u: "ix_Upsert ix r s = (None, s1)"
    using live_upsert [OF assms, of r] by (metis prod.collapse)
  then have "xv_inv V s1" using upsert_law [OF assms] by blast
  then obtain x s2 where g: "ix_Get ix (InvocationID r) s1 = (Inr x, s2)"
    using live_get by (metis prod.collapse)
  with upsert_then_get [OF assms u g] u show ?thesis by blast
qed

end

end
