(* ===== verification/Server.thy ===== *)
theory Server
  imports EventStore EventParser Indexer
begin

text \<open>
  The Build Event Service, \<open>src/server/server.go\<close>: the stream of requests of one invocation is
  stored and parsed event by event, and acknowledged only when its sequence numbers are complete.
\<close>

section \<open>Messages and state\<close>

text \<open>
  The parts of the published requests that the server reads.  \<open>OB_BazelEvent\<close> is the packed
  message of \<open>GetEvent().GetBazelEvent()\<close>; the fields of a stream ID other than the invocation ID
  are only echoed.
\<close>

record StreamId =
  StreamInvocationId :: string
  StreamBuildId :: string

record OrderedBuildEvent =
  OB_StreamId :: "StreamId option"
  OB_SequenceNumber :: int
  OB_BazelEvent :: "bytes option"

definition GetInvocationId :: "StreamId option \<Rightarrow> string" where
  "GetInvocationId sid = (case sid of Some s \<Rightarrow> StreamInvocationId s | None \<Rightarrow> [])"

text \<open>What \<open>stream.Recv\<close> delivers.\<close>

datatype recv = Req OrderedBuildEvent | RecvErr goerror | RecvEOF

text \<open>
  The libraries the server runs on: the storage backend, the JSON codec, \<open>Any.UnmarshalTo\<close>, the
  functions of the event parser, and the index.
\<close>

record ('st, 'w, 'ix) server_env =
  env_blobs :: "('st, 'w) Blobstore"
  env_json :: event_codec
  env_UnmarshalTo :: "bytes \<Rightarrow> goerror + BuildEvent"
  env_lib :: golib
  env_index :: "'ix Indexer"

text \<open>\<open>BuildEventServer\<close>: the state of the store and of the index.\<close>

record ('st, 'w, 'ix) BuildEventServer =
  srv_store :: "('st, 'w) Store"
  srv_idx :: 'ix

text \<open>The local variables of \<open>PublishBuildToolEventStream\<close>.\<close>

record stream_state =
  ss_streamID :: "StreamId option"
  ss_acks :: "int list"
  ss_parser :: "EventParser option"

definition new_stream :: stream_state where
  "new_stream = \<lparr>ss_streamID = None, ss_acks = [], ss_parser = None\<rparr>"

section \<open>Operations\<close>

definition NewBuildEventServer :: "('st, 'w) Store \<Rightarrow> 'ix \<Rightarrow> ('st, 'w, 'ix) BuildEventServer" where
  "NewBuildEventServer s idx = \<lparr>srv_store = s, srv_idx = idx\<rparr>"

definition PublishLifecycleEvent ::
  "('st, 'w, 'ix) BuildEventServer \<Rightarrow> goerror option \<times> ('st, 'w, 'ix) BuildEventServer"
where
  "PublishLifecycleEvent srv = (None, srv)"

text \<open>
  The beginning of an iteration: the first request names the stream and starts the parser.  The
  clock is read once.
\<close>

definition start_stream ::
  "gotime \<Rightarrow> OrderedBuildEvent \<Rightarrow> stream_state \<Rightarrow> goerror + stream_state"
where
  "start_stream now ordered ss =
     (case ss_streamID ss of
        Some sid \<Rightarrow> Inr ss
      | None \<Rightarrow>
          if GetInvocationId (OB_StreamId ordered) = []
          then Inl (StatusErr ''FailedPrecondition'' ''missing invocation ID'' [])
          else Inr (ss\<lparr>ss_streamID := OB_StreamId ordered,
                 ss_parser := Some (NewEventParser
                   (new_Record (GetInvocationId (OB_StreamId ordered)) now))\<rparr>))"

text \<open>
  Storing and parsing the event of a request.  An event that does not unpack or cannot be stored is
  logged, nothing more.
\<close>

definition handle_event ::
  "('st, 'w, 'ix) server_env \<Rightarrow> OrderedBuildEvent \<Rightarrow> stream_state \<Rightarrow> ('st, 'w, 'ix) BuildEventServer \<Rightarrow>
   (stream_state \<times> ('st, 'w, 'ix) BuildEventServer) option"
where
  "handle_event env ordered ss srv =
     (case OB_BazelEvent ordered of
        None \<Rightarrow> Some (ss, srv)
      | Some any \<Rightarrow>
          (case env_UnmarshalTo env any of
             Inl e \<Rightarrow> Some (ss, srv)
           | Inr bepEvent \<Rightarrow>
               (case AppendEvent (env_blobs env) (env_json env)
                       (GetInvocationId (ss_streamID ss)) bepEvent (srv_store srv) of
                  None \<Rightarrow> None
                | Some (err, s') \<Rightarrow>
                    Some (ss\<lparr>ss_parser := map_option (ParseEvent (env_lib env) bepEvent) (ss_parser ss)\<rparr>,
                      srv\<lparr>srv_store := s'\<rparr>))))"

definition recv_step ::
  "('st, 'w, 'ix) server_env \<Rightarrow> gotime \<Rightarrow> OrderedBuildEvent \<Rightarrow> stream_state \<Rightarrow>
   ('st, 'w, 'ix) BuildEventServer \<Rightarrow>
   ((goerror + stream_state) \<times> ('st, 'w, 'ix) BuildEventServer) option"
where
  "recv_step env now ordered ss srv =
     (case start_stream now ordered ss of
        Inl e \<Rightarrow> Some (Inl e, srv)
      | Inr ss1 \<Rightarrow>
          (case handle_event env ordered ss1 srv of
             None \<Rightarrow> None
           | Some (ss2, srv') \<Rightarrow>
               Some (Inr (ss2\<lparr>ss_acks := ss_acks ss2 @ [OB_SequenceNumber ordered]\<rparr>), srv')))"

text \<open>The check of the sorted sequence numbers, and the loop that sends the acknowledgements.\<close>

fun check_acks :: "string \<Rightarrow> nat \<Rightarrow> int list \<Rightarrow> goerror option" where
  "check_acks invID i [] = None"
| "check_acks invID i (ack # acks) =
     (if ack \<noteq> int64 (int i + 1)
      then Some (StatusErr ''DataLoss''
             ''event sequence mismatch for invocation %q: got %d, wanted %d''
             [invID, Itoa ack, Itoa (int64 (int i + 1))])
      else check_acks invID (Suc i) acks)"

fun send_acks ::
  "goerror option list \<Rightarrow> StreamId \<Rightarrow> int list \<Rightarrow> goerror option \<times> (StreamId \<times> int) list"
where
  "send_acks errs sid [] = (None, [])"
| "send_acks errs sid (ack # acks) =
     (case errs of
        Some e # _ \<Rightarrow> (Some e, [])
      | _ \<Rightarrow> (case send_acks (tl errs) sid acks of (r, sent) \<Rightarrow> (r, (sid, ack) # sent)))"

text \<open>
  \<open>finish\<close>: the outcome of each \<open>stream.Send\<close> is in \<open>send_errs\<close>; the result has the responses that
  were sent.  Failures to finalize or to index are logged, nothing more.
\<close>

definition finish ::
  "('st, 'w, 'ix) server_env \<Rightarrow> gotime \<Rightarrow> goerror option list \<Rightarrow> stream_state \<Rightarrow>
   ('st, 'w, 'ix) BuildEventServer \<Rightarrow>
   (goerror option \<times> (StreamId \<times> int) list \<times> ('st, 'w, 'ix) BuildEventServer) option"
where
  "finish env now send_errs ss srv =
     (case ss_streamID ss of
        None \<Rightarrow> Some (None, [], srv)
      | Some sid \<Rightarrow>
          (let acks = sort (ss_acks ss) in
           case check_acks (StreamInvocationId sid) 0 acks of
             Some e \<Rightarrow> Some (Some e, [], srv)
           | None \<Rightarrow>
               (case Finalize (env_blobs env) (StreamInvocationId sid) (srv_store srv) of
                  None \<Rightarrow> None
                | Some (err, s') \<Rightarrow>
                    (let idx' = (case ss_parser ss of
                           None \<Rightarrow> srv_idx srv
                         | Some p \<Rightarrow>
                             snd (ix_Upsert (env_index env)
                               ((parser_record p)\<lparr>UpdatedAt := now\<rparr>) (srv_idx srv)));
                         (r, sent) = send_acks send_errs sid acks
                     in Some (r, sent, srv\<lparr>srv_store := s', srv_idx := idx'\<rparr>)))))"

text \<open>
  The receive loop.  Each delivery comes with the reading of the clock at that moment; a stream
  that delivers nothing more blocks.
\<close>

fun publish_loop ::
  "('st, 'w, 'ix) server_env \<Rightarrow> goerror option list \<Rightarrow> (recv \<times> gotime) list \<Rightarrow> stream_state \<Rightarrow>
   ('st, 'w, 'ix) BuildEventServer \<Rightarrow>
   (goerror option \<times> (StreamId \<times> int) list \<times> ('st, 'w, 'ix) BuildEventServer) option"
where
  "publish_loop env send_errs [] ss srv = None"
| "publish_loop env send_errs ((RecvEOF, now) # rs) ss srv = finish env now send_errs ss srv"
| "publish_loop env send_errs ((RecvErr e, now) # rs) ss srv = Some (Some e, [], srv)"
| "publish_loop env send_errs ((Req ordered, now) # rs) ss srv =
     (case recv_step env now ordered ss srv of
        None \<Rightarrow> None
      | Some (Inl e, srv') \<Rightarrow> Some (Some e, [], srv')
      | Some (Inr ss', srv') \<Rightarrow> publish_loop env send_errs rs ss' srv')"

definition PublishBuildToolEventStream ::
  "('st, 'w, 'ix) server_env \<Rightarrow> goerror option list \<Rightarrow> (recv \<times> gotime) list \<Rightarrow>
   ('st, 'w, 'ix) BuildEventServer \<Rightarrow>
   (goerror option \<times> (StreamId \<times> int) list \<times> ('st, 'w, 'ix) BuildEventServer) option"
where
  "PublishBuildToolEventStream env send_errs rs srv = publish_loop env send_errs rs new_stream srv"

section \<open>Acknowledgements\<close>

lemma int64_small: "int i < 2 ^ 63 \<Longrightarrow> int64 (int i) = int i"
  by (simp add: int64_id int64_min_def int64_max_def)

lemma check_acks_iff:
  "int (i + length acks) < 2 ^ 63 \<Longrightarrow>
   check_acks invID i acks = None \<longleftrightarrow> acks = map int [Suc i..<Suc (i + length acks)]"
proof (induction acks arbitrary: i)
  case (Cons a acks)
  then have "int64 (int i + 1) = int (Suc i)" using int64_small [of "Suc i"] by (simp add: ac_simps)
  moreover have "[Suc i..<Suc (i + length (a # acks))] = Suc i # [Suc (Suc i)..<Suc (Suc i + length acks)]"
    by (simp add: upt_conv_Cons del: upt_Suc)
  ultimately show ?case using Cons by (auto simp del: upt_Suc)
qed simp

lemma check_acks_error:
  "check_acks invID i acks = Some e \<Longrightarrow> \<exists>msg as. e = StatusErr ''DataLoss'' msg as"
  by (induction acks arbitrary: i) (auto split: if_splits)

text \<open>The sequence numbers of a complete stream of \<open>n\<close> requests, in any order of arrival.\<close>

definition complete :: "int list \<Rightarrow> bool" where
  "complete acks \<longleftrightarrow> mset acks = mset (map int [1..<Suc (length acks)])"

lemma sorted_map_int_upt: "sorted (map int [a..<b])"
  by (simp add: sorted_map sorted_wrt_upt) 

lemma complete_sort: "complete acks \<longleftrightarrow> sort acks = map int [1..<Suc (length acks)]"
proof
  assume "complete acks"
  then show "sort acks = map int [1..<Suc (length acks)]"
    using properties_for_sort [of "map int [1..<Suc (length acks)]" acks] sorted_map_int_upt
    by (simp add: complete_def del: upt_Suc)
next
  assume "sort acks = map int [1..<Suc (length acks)]"
  then show "complete acks" using mset_sort [of "\<lambda>x. x" acks] by (simp add: complete_def del: upt_Suc)
qed

lemma send_acks_spec:
  "send_acks errs sid acks = (r, sent) \<Longrightarrow>
   prefix sent (map (Pair sid) acks) \<and> (r = None \<longleftrightarrow> sent = map (Pair sid) acks)"
  by (induction errs sid acks arbitrary: r sent rule: send_acks.induct)
    (auto split: list.splits option.splits prod.splits)

section \<open>Streams\<close>

text \<open>The events a list of requests carries, and the requests as deliveries.\<close>

definition request_events :: "('st, 'w, 'ix) server_env \<Rightarrow> OrderedBuildEvent \<Rightarrow> BuildEvent list" where
  "request_events env r =
     (case OB_BazelEvent r of
        None \<Rightarrow> []
      | Some any \<Rightarrow> (case env_UnmarshalTo env any of Inl _ \<Rightarrow> [] | Inr ev \<Rightarrow> [ev]))"

definition stream_events ::
  "('st, 'w, 'ix) server_env \<Rightarrow> (OrderedBuildEvent \<times> gotime) list \<Rightarrow> BuildEvent list"
where
  "stream_events env reqs = concat (map (\<lambda>(r, t). request_events env r) reqs)"

definition sequence_numbers :: "(OrderedBuildEvent \<times> gotime) list \<Rightarrow> int list" where
  "sequence_numbers reqs = map (\<lambda>(r, t). OB_SequenceNumber r) reqs"

definition deliver :: "(OrderedBuildEvent \<times> gotime) list \<Rightarrow> (recv \<times> gotime) list" where
  "deliver reqs = map (\<lambda>(r, t). (Req r, t)) reqs"

lemma stream_simps [simp]:
  "stream_events env [] = []" "sequence_numbers [] = []" "deliver [] = []"
  "stream_events env (rt # reqs) = request_events env (fst rt) @ stream_events env reqs"
  "sequence_numbers (rt # reqs) = OB_SequenceNumber (fst rt) # sequence_numbers reqs"
  "deliver (rt # reqs) = (Req (fst rt), snd rt) # deliver reqs"
  by (auto simp: stream_events_def sequence_numbers_def deliver_def split: prod.splits)

lemma length_sequence_numbers [simp]: "length (sequence_numbers reqs) = length reqs"
  by (simp add: sequence_numbers_def)

text \<open>
  What the loop knows after requests of a stream that has started: their numbers are collected,
  their events parsed.
\<close>

definition after_requests ::
  "('st, 'w, 'ix) server_env \<Rightarrow> (OrderedBuildEvent \<times> gotime) list \<Rightarrow> stream_state \<Rightarrow> stream_state"
where
  "after_requests env reqs ss =
     ss\<lparr>ss_acks := ss_acks ss @ sequence_numbers reqs,
        ss_parser := map_option (ParseEvents (env_lib env) (stream_events env reqs)) (ss_parser ss)\<rparr>"

lemma ParseEvents_fold:
  "ParseEvents lib [] = (\<lambda>p. p)" "ParseEvents lib [e] = ParseEvent lib e"
  "ParseEvents lib (es @ es') = (\<lambda>p. ParseEvents lib es' (ParseEvents lib es p))"
  by (simp_all add: ParseEvents_def fun_eq_iff)

lemma handle_event_cases:
  assumes "handle_event env r ss srv = Some (ss', srv')"
  shows "ss' = ss\<lparr>ss_parser := map_option (ParseEvents (env_lib env) (request_events env r)) (ss_parser ss)\<rparr> \<and>
    srv_idx srv' = srv_idx srv"
  using assms
  by (auto simp: handle_event_def request_events_def ParseEvents_fold option.map_ident
      split: option.splits sum.splits)

lemma publish_requests:
  assumes "ss_streamID ss = Some sid"
    and "publish_loop env errs (deliver reqs @ rest) ss srv = Some out"
  shows "\<exists>srv'. srv_idx srv' = srv_idx srv \<and>
    publish_loop env errs rest (after_requests env reqs ss) srv' = Some out"
  using assms
proof (induction reqs arbitrary: ss srv)
  case Nil
  then show ?case by (auto simp: after_requests_def ParseEvents_fold option.map_ident)
next
  case (Cons rt reqs)
  obtain r t where rt: "rt = (r, t)" by force
  from Cons.prems rt obtain ss2 srv2 where
    h: "handle_event env r ss srv = Some (ss2, srv2)"
    and l: "publish_loop env errs (deliver reqs @ rest)
        (ss2\<lparr>ss_acks := ss_acks ss2 @ [OB_SequenceNumber r]\<rparr>) srv2 = Some out"
    by (auto simp: recv_step_def start_stream_def split: option.splits)
  note ss2 = handle_event_cases [OF h]
  have a: "after_requests env reqs (ss2\<lparr>ss_acks := ss_acks ss2 @ [OB_SequenceNumber r]\<rparr>) =
      after_requests env (rt # reqs) ss"
    using ss2 rt by (cases "ss_parser ss") (simp_all add: after_requests_def ParseEvents_fold)
  have "ss_streamID (ss2\<lparr>ss_acks := ss_acks ss2 @ [OB_SequenceNumber r]\<rparr>) = Some sid"
    using ss2 Cons.prems(1) by simp
  from Cons.IH [OF this l] ss2 a show ?case by auto
qed

text \<open>The state of a stream after its first request.\<close>

definition started_stream :: "OrderedBuildEvent \<Rightarrow> gotime \<Rightarrow> stream_state" where
  "started_stream r t =
     \<lparr>ss_streamID = OB_StreamId r, ss_acks = [],
      ss_parser = Some (NewEventParser (new_Record (GetInvocationId (OB_StreamId r)) t))\<rparr>"

lemma publish_first:
  assumes "GetInvocationId (OB_StreamId r) \<noteq> []"
  shows "publish_loop env errs (deliver ((r, t) # reqs) @ rest) new_stream srv =
    publish_loop env errs (deliver ((r, t) # reqs) @ rest) (started_stream r t) srv"
proof -
  have "start_stream t r new_stream = start_stream t r (started_stream r t)"
    using assms
    by (auto simp: start_stream_def new_stream_def started_stream_def GetInvocationId_def
        split: option.splits)
  then show ?thesis by (simp add: recv_step_def)
qed

text \<open>The record that a stream leaves in the index.\<close>

definition stream_record ::
  "('st, 'w, 'ix) server_env \<Rightarrow> OrderedBuildEvent \<Rightarrow> gotime \<Rightarrow> BuildEvent list \<Rightarrow> gotime \<Rightarrow> Record"
where
  "stream_record env r t es now =
     (parser_record (ParseEvents (env_lib env) es
        (NewEventParser (new_Record (GetInvocationId (OB_StreamId r)) t))))\<lparr>UpdatedAt := now\<rparr>"

lemma prefix_full: "prefix xs ys \<Longrightarrow> length xs = length ys \<longleftrightarrow> xs = ys"
  by (auto simp: prefix_def)


section \<open>Streams over a backend where nothing goes wrong\<close>

fun opened :: "phase \<Rightarrow> BuildEvent list" where
  "opened (Streaming es) = es"
| "opened _ = []"

definition append_phases :: "phase \<Rightarrow> BuildEvent list \<Rightarrow> phase" where
  "append_phases a es = (if es = [] then a else Streaming (opened a @ es))"

lemma append_phases_Cons: "append_phases (append_phase a e) es = append_phases a (e # es)"
  by (cases a) (auto simp: append_phases_def)

lemma append_phases_simps [simp]:
  "append_phases a [] = a" "append_phases a [e] = append_phase a e"
  "append_phases (append_phases a es) es' = append_phases a (es @ es')"
  by (cases a; auto simp: append_phases_def)+

lemma append_phase_not_Failed [simp]: "append_phase a e \<noteq> Failed"
  by (cases a) auto

context reliable_blobstore
begin

lemma handle_event_live:
  assumes "env_blobs env = bs" "store_sim V (env_json env) (srv_store srv) A"
    and "v_ok V (blobName i)" "live (blobs (srv_store srv))" "A i \<noteq> Failed"
    and "GetInvocationId (ss_streamID ss) = i" "\<forall>e \<in> set (request_events env r). marshals (env_json env) e"
  shows "\<exists>ss' srv'. handle_event env r ss srv = Some (ss', srv') \<and> live (blobs (srv_store srv')) \<and>
    store_sim V (env_json env) (srv_store srv') (A(i := append_phases (A i) (request_events env r)))"
proof (cases "request_events env r")
  case Nil
  with assms(2,4) show ?thesis
    by (auto simp: handle_event_def request_events_def fun_upd_idem split: option.splits sum.splits)
next
  case (Cons e es)
  then have e: "request_events env r = [e]" "\<exists>any. OB_BazelEvent r = Some any \<and> env_UnmarshalTo env any = Inr e"
    by (auto simp: request_events_def split: option.splits sum.splits)
  from live_append [OF assms(2-4) _ assms(5), of e] e assms(7) obtain s' where
    "AppendEvent bs (env_json env) i e (srv_store srv) = Some (None, s')" "live (blobs s')"
    "store_sim V (env_json env) s' (A(i := append_phase (A i) e))" by auto
  with e assms(1,6) show ?thesis by (auto simp: handle_event_def)
qed

lemma publish_requests_live:
  assumes "env_blobs env = bs" "v_ok V (blobName (StreamInvocationId sid))"
    and "store_sim V (env_json env) (srv_store srv) A" "live (blobs (srv_store srv))"
    and "A (StreamInvocationId sid) \<noteq> Failed" "ss_streamID ss = Some sid"
    and "\<forall>e \<in> set (stream_events env reqs). marshals (env_json env) e"
  shows "\<exists>srv'. live (blobs (srv_store srv')) \<and> srv_idx srv' = srv_idx srv \<and>
    store_sim V (env_json env) (srv_store srv')
      (A(StreamInvocationId sid := append_phases (A (StreamInvocationId sid)) (stream_events env reqs))) \<and>
    publish_loop env errs (deliver reqs @ rest) ss srv =
      publish_loop env errs rest (after_requests env reqs ss) srv'"
  using assms(3-)
proof (induction reqs arbitrary: ss srv A)
  case Nil
  then show ?case
    by (intro exI [of _ srv]) (auto simp: after_requests_def ParseEvents_fold option.map_ident fun_upd_idem)
next
  case (Cons rt reqs)
  let ?i = "StreamInvocationId sid"
  obtain r t where rt: "rt = (r, t)" by force
  have m: "\<forall>e \<in> set (request_events env r). marshals (env_json env) e"
    "\<forall>e \<in> set (stream_events env reqs). marshals (env_json env) e"
    using Cons.prems(5) rt by auto
  have id: "GetInvocationId (ss_streamID ss) = ?i" using Cons.prems(4) by (simp add: GetInvocationId_def)
  from handle_event_live [OF assms(1) Cons.prems(1) assms(2) Cons.prems(2,3) id m(1)]
  obtain ss2 srv2 where h: "handle_event env r ss srv = Some (ss2, srv2)"
    "live (blobs (srv_store srv2))" "store_sim V (env_json env) (srv_store srv2)
      (A(?i := append_phases (A ?i) (request_events env r)))" by blast
  note ss2 = handle_event_cases [OF h(1)]
  let ?ss = "ss2\<lparr>ss_acks := ss_acks ss2 @ [OB_SequenceNumber r]\<rparr>"
  let ?A = "A(?i := append_phases (A ?i) (request_events env r))"
  have a: "after_requests env reqs ?ss = after_requests env (rt # reqs) ss"
    using ss2 rt by (cases "ss_parser ss") (simp_all add: after_requests_def ParseEvents_fold)
  have "?A ?i \<noteq> Failed" using Cons.prems(3) by (simp add: append_phases_def)
  moreover have "ss_streamID ?ss = Some sid" using ss2 Cons.prems(4) by simp
  ultimately obtain srv3 where s3: "live (blobs (srv_store srv3))" "srv_idx srv3 = srv_idx srv2"
    "store_sim V (env_json env) (srv_store srv3) (?A(?i := append_phases (?A ?i) (stream_events env reqs)))"
    "publish_loop env errs (deliver reqs @ rest) ?ss srv2 =
      publish_loop env errs rest (after_requests env reqs ?ss) srv3"
    using Cons.IH [OF h(3,2) _ _ m(2)] by blast
  have "recv_step env t r ss srv = Some (Inr ?ss, srv2)"
    using h(1) Cons.prems(4) by (simp add: recv_step_def start_stream_def)
  with s3 a ss2 rt show ?case
    by (intro exI [of _ srv3]) (simp add: fun_upd_same del: fun_upd_apply)
qed

text \<open>The first request and those after it.\<close>

lemma publish_stream_live:
  assumes "env_blobs env = bs" "v_ok V (blobName (StreamInvocationId sid))"
    and "store_sim V (env_json env) (srv_store srv) A" "live (blobs (srv_store srv))"
    and "A (StreamInvocationId sid) \<noteq> Failed"
    and "OB_StreamId r = Some sid" "StreamInvocationId sid \<noteq> []"
    and "\<forall>e \<in> set (stream_events env ((r, t) # reqs)). marshals (env_json env) e"
  shows "\<exists>srv'. live (blobs (srv_store srv')) \<and> srv_idx srv' = srv_idx srv \<and>
    store_sim V (env_json env) (srv_store srv') (A(StreamInvocationId sid :=
      append_phases (A (StreamInvocationId sid)) (stream_events env ((r, t) # reqs)))) \<and>
    PublishBuildToolEventStream env errs (deliver ((r, t) # reqs) @ rest) srv =
      publish_loop env errs rest (after_requests env ((r, t) # reqs) (started_stream r t)) srv'"
proof -
  have "ss_streamID (started_stream r t) = Some sid" using assms(6) by (simp add: started_stream_def)
  from publish_requests_live [OF assms(1-5) this assms(8)]
    publish_first [of r env errs t reqs rest srv] assms(6,7)
  show ?thesis by (simp add: PublishBuildToolEventStream_def GetInvocationId_def del: stream_simps)
qed

lemma stream_stored:
  assumes "env_blobs env = bs" "v_ok V (blobName (StreamInvocationId sid))"
    and "store_sim V (env_json env) (srv_store srv) A" "live (blobs (srv_store srv))"
    and "A (StreamInvocationId sid) \<noteq> Failed"
    and "OB_StreamId r = Some sid" "StreamInvocationId sid \<noteq> []"
    and "\<forall>e \<in> set (stream_events env ((r, t) # reqs)). marshals (env_json env) e"
    and "int (length ((r, t) # reqs)) < 2 ^ 63" "complete (sequence_numbers ((r, t) # reqs))"
    and "append_phases (A (StreamInvocationId sid)) (stream_events env ((r, t) # reqs)) = Streaming es"
  shows "\<exists>srv'. live (blobs (srv_store srv')) \<and>
    store_sim V (env_json env) (srv_store srv') (A(StreamInvocationId sid := Stored es)) \<and>
    srv_idx srv' = snd (ix_Upsert (env_index env)
      (stream_record env r t (stream_events env ((r, t) # reqs)) now) (srv_idx srv)) \<and>
    PublishBuildToolEventStream env [] (deliver ((r, t) # reqs) @ [(RecvEOF, now)]) srv =
      Some (None, map (\<lambda>i. (sid, int i)) [1..<Suc (length ((r, t) # reqs))], srv')"
proof -
  let ?reqs = "(r, t) # reqs" and ?i = "StreamInvocationId sid"
  let ?ss = "after_requests env ?reqs (started_stream r t)"
  from publish_stream_live [OF assms(1-8), of "[]" "[(RecvEOF, now)]"] obtain srv1 where
    s1: "live (blobs (srv_store srv1))" "srv_idx srv1 = srv_idx srv"
    "store_sim V (env_json env) (srv_store srv1) (A(?i := Streaming es))"
    "PublishBuildToolEventStream env [] (deliver ?reqs @ [(RecvEOF, now)]) srv = finish env now [] ?ss srv1"
    using assms(11) by (auto simp del: stream_simps fun_upd_apply)
  from live_finalize [OF s1(3) assms(2) s1(1)] obtain s' where
    f: "Finalize bs ?i (srv_store srv1) = Some (None, s')" "live (blobs s')"
    "store_sim V (env_json env) s' (A(?i := Stored es))" by (auto simp del: stream_simps)
  have ss: "ss_streamID ?ss = Some sid" "ss_acks ?ss = sequence_numbers ?reqs"
    "ss_parser ?ss = Some (ParseEvents (env_lib env) (stream_events env ?reqs)
        (NewEventParser (new_Record ?i t)))"
    using assms(6) by (simp_all add: after_requests_def started_stream_def GetInvocationId_def)
  have acks: "sort (sequence_numbers ?reqs) = map int [1..<Suc (length ?reqs)]"
    using assms(10) by (simp add: complete_sort del: upt_Suc stream_simps)
  then have "check_acks ?i 0 (sort (sequence_numbers ?reqs)) = None"
    using check_acks_iff [of 0 "sort (sequence_numbers ?reqs)"] assms(9)
    by (simp del: upt_Suc stream_simps)
  moreover have "send_acks [] sid acks = (None, map (Pair sid) acks)" for acks
    by (induction acks) auto
  ultimately have "finish env now [] ?ss srv1 =
      Some (None, map (\<lambda>i. (sid, int i)) [1..<Suc (length ?reqs)],
        srv1\<lparr>srv_store := s', srv_idx := snd (ix_Upsert (env_index env)
          (stream_record env r t (stream_events env ?reqs) now) (srv_idx srv))\<rparr>)"
    using ss f(1) acks assms(1,6) s1(2)
    by (simp add: finish_def Let_def comp_def stream_record_def GetInvocationId_def del: upt_Suc stream_simps)
  with s1(4) f show ?thesis by (auto simp del: upt_Suc stream_simps fun_upd_apply)
qed

text \<open>A stream that breaks off, or whose numbers do not add up, leaves the writer open.\<close>

lemma stream_broken_off:
  assumes "env_blobs env = bs" "v_ok V (blobName (StreamInvocationId sid))"
    and "store_sim V (env_json env) (srv_store srv) A" "live (blobs (srv_store srv))"
    and "A (StreamInvocationId sid) \<noteq> Failed"
    and "OB_StreamId r = Some sid" "StreamInvocationId sid \<noteq> []"
    and "\<forall>e \<in> set (stream_events env ((r, t) # reqs)). marshals (env_json env) e"
  shows "\<exists>srv'. live (blobs (srv_store srv')) \<and> srv_idx srv' = srv_idx srv \<and>
    store_sim V (env_json env) (srv_store srv') (A(StreamInvocationId sid :=
      append_phases (A (StreamInvocationId sid)) (stream_events env ((r, t) # reqs)))) \<and>
    PublishBuildToolEventStream env errs (deliver ((r, t) # reqs) @ [(RecvErr e, now)]) srv =
      Some (Some e, [], srv')"
  using publish_stream_live [OF assms, of errs "[(RecvErr e, now)]"]
  by (auto simp del: stream_simps fun_upd_apply)

end

end
