(* ===== verification/Interleaving.thy ===== *)
theory Interleaving
  imports Server
begin

text \<open>
  Many streams at once, \<open>src/server/server.go\<close>.  gRPC runs \<open>PublishBuildToolEventStream\<close> for every
  stream in a goroutine of its own; all of them share the event store and the index.  A schedule
  lists the deliveries in the order in which the goroutines handle them.  A delivery is handled in
  one step: the open writer is looked up under the mutex of the store, and what follows only
  touches the blob of the invocation.
\<close>

section \<open>Calls and schedules\<close>

text \<open>A call that still receives, with its local variables, or has returned, with what it sent.\<close>

datatype call = Running stream_state | Returned "goerror option" "(StreamId \<times> int) list"

record ('st, 'w, 'ix) world =
  wl_calls :: "nat \<Rightarrow> call"
  wl_srv :: "('st, 'w, 'ix) BuildEventServer"

definition new_world :: "('st, 'w, 'ix) BuildEventServer \<Rightarrow> ('st, 'w, 'ix) world" where
  "new_world srv = \<lparr>wl_calls = (\<lambda>_. Running new_stream), wl_srv = srv\<rparr>"

text \<open>One iteration of the receive loop; nothing is received by a call that has returned.\<close>

fun serve_call ::
  "('st, 'w, 'ix) server_env \<Rightarrow> goerror option list \<Rightarrow> recv \<times> gotime \<Rightarrow> call \<Rightarrow>
   ('st, 'w, 'ix) BuildEventServer \<Rightarrow> (call \<times> ('st, 'w, 'ix) BuildEventServer) option" where
  "serve_call env send_errs d (Returned res sent) srv = Some (Returned res sent, srv)"
| "serve_call env send_errs (RecvEOF, now) (Running ss) srv =
     map_option (\<lambda>(res, sent, srv'). (Returned res sent, srv')) (finish env now send_errs ss srv)"
| "serve_call env send_errs (RecvErr e, now) (Running ss) srv = Some (Returned (Some e) [], srv)"
| "serve_call env send_errs (Req ordered, now) (Running ss) srv =
     map_option (\<lambda>(r, srv'). (case r of Inl e \<Rightarrow> Returned (Some e) [] | Inr ss' \<Rightarrow> Running ss', srv'))
       (recv_step env now ordered ss srv)"

definition serve_one ::
  "('st, 'w, 'ix) server_env \<Rightarrow> (nat \<Rightarrow> goerror option list) \<Rightarrow> nat \<times> recv \<times> gotime \<Rightarrow>
   ('st, 'w, 'ix) world \<Rightarrow> ('st, 'w, 'ix) world option" where
  "serve_one env errs x W =
     (case x of (k, d) \<Rightarrow>
        map_option (\<lambda>(c, srv). \<lparr>wl_calls = (wl_calls W)(k := c), wl_srv = srv\<rparr>)
          (serve_call env (errs k) d (wl_calls W k) (wl_srv W)))"

fun serve_all ::
  "('st, 'w, 'ix) server_env \<Rightarrow> (nat \<Rightarrow> goerror option list) \<Rightarrow> (nat \<times> recv \<times> gotime) list \<Rightarrow>
   ('st, 'w, 'ix) world \<Rightarrow> ('st, 'w, 'ix) world option" where
  "serve_all env errs [] W = Some W"
| "serve_all env errs (x # tr) W =
     (case serve_one env errs x W of None \<Rightarrow> None | Some W' \<Rightarrow> serve_all env errs tr W')"

text \<open>The deliveries to one call.\<close>

definition deliveries :: "nat \<Rightarrow> (nat \<times> recv \<times> gotime) list \<Rightarrow> (recv \<times> gotime) list" where
  "deliveries k tr = map snd (filter (\<lambda>x. fst x = k) tr)"

lemma deliveries_simps [simp]:
  "deliveries k [] = []"
  "deliveries k ((j, d) # tr) = (if j = k then d # deliveries k tr else deliveries k tr)"
  by (simp_all add: deliveries_def)

section \<open>One stream at a time\<close>

text \<open>Without other streams, a schedule is a run of the handler.\<close>

lemma serve_all_returned:
  "serve_all env errs (map (Pair k) rs) \<lparr>wl_calls = C(k := Returned res sent), wl_srv = srv\<rparr> =
    Some \<lparr>wl_calls = C(k := Returned res sent), wl_srv = srv\<rparr>"
  by (induction rs) (simp_all add: serve_one_def fun_upd_same del: fun_upd_apply)

lemma publish_loop_serve:
  assumes "publish_loop env (errs k) rs ss srv = Some (res, sent, srv')"
  shows "serve_all env errs (map (Pair k) rs) \<lparr>wl_calls = C(k := Running ss), wl_srv = srv\<rparr> =
    Some \<lparr>wl_calls = C(k := Returned res sent), wl_srv = srv'\<rparr>"
  using assms
proof (induction env "errs k" rs ss srv rule: publish_loop.induct)
  case (4 env r now rs ss srv)
  then show ?case
    by (auto simp: serve_one_def serve_all_returned fun_upd_same simp del: fun_upd_apply split: option.splits sum.splits)
qed (auto simp: serve_one_def serve_all_returned fun_upd_same simp del: fun_upd_apply)

section \<open>A stream on its own\<close>

text \<open>
  What a call and the phase of its invocation become, told without the store: every event that
  \<open>protojson\<close> marshals is kept, and a complete stream commits them.
\<close>

fun commit :: "phase \<Rightarrow> phase" where
  "commit (Streaming es) = Stored es"
| "commit a = a"

definition storable :: "('st, 'w, 'ix) server_env \<Rightarrow> BuildEvent list \<Rightarrow> BuildEvent list" where
  "storable env es = filter (marshals (env_json env)) es"

lemma storable_append [simp]: "storable env (es @ es') = storable env es @ storable env es'"
  by (simp add: storable_def)

fun alone_step ::
  "('st, 'w, 'ix) server_env \<Rightarrow> goerror option list \<Rightarrow> recv \<times> gotime \<Rightarrow> call \<times> phase \<Rightarrow> call \<times> phase"
where
  "alone_step env send_errs d (Returned res sent, a) = (Returned res sent, a)"
| "alone_step env send_errs (RecvEOF, now) (Running ss, a) =
     (case ss_streamID ss of
        None \<Rightarrow> (Returned None [], a)
      | Some sid \<Rightarrow>
          (case check_acks (StreamInvocationId sid) 0 (sort (ss_acks ss)) of
             Some e \<Rightarrow> (Returned (Some e) [], a)
           | None \<Rightarrow>
               (case send_acks send_errs sid (sort (ss_acks ss)) of
                  (res, sent) \<Rightarrow> (Returned res sent, commit a))))"
| "alone_step env send_errs (RecvErr e, now) (Running ss, a) = (Returned (Some e) [], a)"
| "alone_step env send_errs (Req r, now) (Running ss, a) =
     (case start_stream now r ss of
        Inl e \<Rightarrow> (Returned (Some e) [], a)
      | Inr ss1 \<Rightarrow>
          (Running (after_requests env [(r, now)] ss1),
           append_phases a (storable env (request_events env r))))"

definition alone ::
  "('st, 'w, 'ix) server_env \<Rightarrow> goerror option list \<Rightarrow> (recv \<times> gotime) list \<Rightarrow> call \<times> phase" where
  "alone env send_errs ds = fold (alone_step env send_errs) ds (Running new_stream, Idle)"

lemma commit_Failed [simp]: "commit a = Failed \<longleftrightarrow> a = Failed"
  by (cases a) auto

lemma append_phases_Failed [simp]: "append_phases a es = Failed \<longleftrightarrow> a = Failed \<and> es = []"
  by (auto simp: append_phases_def)

lemma alone_step_Failed: "a \<noteq> Failed \<Longrightarrow> snd (alone_step env errs d (c, a)) \<noteq> Failed"
  by (cases d; cases "fst d"; cases c) (auto split: option.splits sum.splits prod.splits)

text \<open>The requests of a stream that has started, and a complete stream.\<close>

lemma alone_requests:
  "ss_streamID ss = Some sid \<Longrightarrow>
   fold (alone_step env errs) (deliver reqs) (Running ss, a) =
     (Running (after_requests env reqs ss), append_phases a (storable env (stream_events env reqs)))"
proof (induction reqs arbitrary: ss a)
  case (Cons rt reqs)
  have "after_requests env reqs (after_requests env [rt] ss) = after_requests env (rt # reqs) ss"
    by (cases "ss_parser ss") (simp_all add: after_requests_def ParseEvents_fold)
  moreover have "ss_streamID (after_requests env [rt] ss) = Some sid"
    using Cons.prems by (simp add: after_requests_def)
  ultimately show ?case
    using Cons by (simp add: start_stream_def)
qed (simp add: after_requests_def ParseEvents_fold option.map_ident storable_def)

lemma send_acks_no_errors: "send_acks [] sid acks = (None, map (Pair sid) acks)"
  by (induction acks) auto

lemma alone_complete:
  assumes "OB_StreamId r = Some sid" "StreamInvocationId sid \<noteq> []"
    and "int (length ((r, t) # reqs)) < 2 ^ 63" "complete (sequence_numbers ((r, t) # reqs))"
    and "storable env (stream_events env ((r, t) # reqs)) = es" "es \<noteq> []"
  shows "alone env [] (deliver ((r, t) # reqs) @ [(RecvEOF, now)]) =
    (Returned None (map (\<lambda>i. (sid, int i)) [1..<Suc (length ((r, t) # reqs))]), Stored es)"
proof -
  let ?reqs = "(r, t) # reqs"
  let ?ss = "after_requests env ?reqs (started_stream r t)"
  have "start_stream t r new_stream = start_stream t r (started_stream r t)"
    using assms(1,2) by (simp add: start_stream_def new_stream_def started_stream_def GetInvocationId_def)
  then have "alone env [] (deliver ?reqs @ [(RecvEOF, now)]) =
      alone_step env [] (RecvEOF, now) (fold (alone_step env []) (deliver ?reqs) (Running (started_stream r t), Idle))"
    by (simp add: alone_def)
  also have "\<dots> = alone_step env [] (RecvEOF, now) (Running ?ss, Streaming es)"
    using alone_requests [of "started_stream r t" sid env "[]" ?reqs Idle] assms(1,5,6)
    by (simp add: started_stream_def append_phases_def del: stream_simps)
  finally have *: "alone env [] (deliver ?reqs @ [(RecvEOF, now)]) =
      alone_step env [] (RecvEOF, now) (Running ?ss, Streaming es)" .
  have ss: "ss_streamID ?ss = Some sid" "ss_acks ?ss = sequence_numbers ?reqs"
    using assms(1) by (simp_all add: after_requests_def started_stream_def)
  have acks: "sort (sequence_numbers ?reqs) = map int [1..<Suc (length ?reqs)]"
    using assms(4) by (simp add: complete_sort del: upt_Suc stream_simps)
  then have "check_acks (StreamInvocationId sid) 0 (sort (sequence_numbers ?reqs)) = None"
    using check_acks_iff [of 0 "sort (sequence_numbers ?reqs)"] assms(3)
    by (simp del: upt_Suc stream_simps)
  then show ?thesis
    unfolding * using ss acks by (simp add: send_acks_no_errors comp_def del: upt_Suc stream_simps)
qed

section \<open>Streams of different invocations\<close>

text \<open>A call of the stream \<open>sid\<close>: once it has started, it has that name.\<close>

fun call_of :: "StreamId \<Rightarrow> call \<Rightarrow> bool" where
  "call_of sid (Running ss) \<longleftrightarrow> ss_streamID ss \<in> {None, Some sid}"
| "call_of sid (Returned res sent) \<longleftrightarrow> True"

context reliable_blobstore
begin

lemma handle_event_storable:
  assumes "env_blobs env = bs" "store_sim V (env_json env) (srv_store srv) A"
    and "v_ok V (blobName i)" "live (blobs (srv_store srv))" "A i \<noteq> Failed"
    and "GetInvocationId (ss_streamID ss) = i"
  shows "\<exists>ss' srv'. handle_event env r ss srv = Some (ss', srv') \<and> live (blobs (srv_store srv')) \<and>
    store_sim V (env_json env) (srv_store srv')
      (A(i := append_phases (A i) (storable env (request_events env r))))"
proof (cases "\<forall>e \<in> set (request_events env r). marshals (env_json env) e")
  case True
  then have "storable env (request_events env r) = request_events env r"
    by (auto simp: storable_def filter_id_conv)
  with handle_event_live [OF assms True] show ?thesis by simp
next
  case False
  then obtain any where any: "OB_BazelEvent r = Some any"
    by (cases "OB_BazelEvent r") (auto simp: request_events_def)
  with False obtain e where "env_UnmarshalTo env any = Inr e" "request_events env r = [e]"
    "\<not> marshals (env_json env) e"
    by (cases "env_UnmarshalTo env any") (auto simp: request_events_def)
  moreover then obtain x where "pj_Marshal (env_json env) e = Inl x"
    by (cases "pj_Marshal (env_json env) e") (auto simp: marshals_def)
  ultimately have e: "OB_BazelEvent r = Some any" "env_UnmarshalTo env any = Inr e"
    "request_events env r = [e]" "pj_Marshal (env_json env) e = Inl x" using any by auto
  then have "AppendEvent (env_blobs env) (env_json env) i e (srv_store srv) =
      Some (Some (WrapErr ''marshal event'' [] x), srv_store srv)"
    by (simp add: AppendEvent_def)
  with e assms(2,4,6) show ?thesis
    by (simp add: handle_event_def storable_def marshals_def fun_upd_idem)
qed

lemma finalize_commits:
  assumes "store_sim V pj s A" "v_ok V (blobName i)" "live (blobs s)" "A i \<noteq> Failed"
  shows "\<exists>s'. Finalize bs i s = Some (None, s') \<and> live (blobs s') \<and>
    store_sim V pj s' (A(i := commit (A i)))"
proof (cases "\<exists>es. A i = Streaming es")
  case True
  with live_finalize [OF assms(1-3)] show ?thesis by auto
next
  case False
  with assms have "writers s i = None" "commit (A i) = A i"
    by (cases "A i"; auto simp: store_sim_def phase_rel_def)+
  with assms show ?thesis by (simp add: Finalize_def fun_upd_idem)
qed

text \<open>A delivery to one call, seen from that call.\<close>

lemma serve_call_alone:
  assumes "env_blobs env = bs" "i = StreamInvocationId sid" "v_ok V (blobName i)"
    and "store_sim V (env_json env) (srv_store srv) A" "live (blobs (srv_store srv))"
    and "A i \<noteq> Failed" "call_of sid c" "\<forall>r. fst d = Req r \<longrightarrow> OB_StreamId r = Some sid"
  shows "\<exists>c' srv'. serve_call env errs d c srv = Some (c', srv') \<and> call_of sid c' \<and>
    live (blobs (srv_store srv')) \<and> c' = fst (alone_step env errs d (c, A i)) \<and>
    store_sim V (env_json env) (srv_store srv') (A(i := snd (alone_step env errs d (c, A i))))"
proof (cases c)
  case (Returned res sent)
  with assms show ?thesis by (simp add: fun_upd_idem)
next
  case c: (Running ss)
  obtain ev now where d: "d = (ev, now)" by force
  show ?thesis
  proof (cases ev)
    case (RecvErr e)
    with assms c d show ?thesis by (simp add: fun_upd_idem)
  next
    case RecvEOF
    show ?thesis
    proof (cases "ss_streamID ss")
      case None
      with assms c d RecvEOF show ?thesis by (simp add: finish_def fun_upd_idem)
    next
      case (Some x)
      then have x: "x = sid" using assms(7) c by auto
      from finalize_commits [OF assms(4,3,5,6)] Some x c d RecvEOF assms show ?thesis
        by (cases "check_acks i 0 (sort (ss_acks ss))")
          (auto simp: finish_def Let_def fun_upd_idem split: prod.splits)
    qed
  next
    case (Req r)
    show ?thesis
    proof (cases "start_stream now r ss")
      case (Inl e)
      with assms c d Req show ?thesis by (simp add: recv_step_def fun_upd_idem)
    next
      case (Inr ss1)
      then have ss1: "ss_streamID ss1 = Some sid"
        using assms(7,8) c d Req by (auto simp: start_stream_def split: option.splits if_splits)
      then have "GetInvocationId (ss_streamID ss1) = i" using assms(2) by (simp add: GetInvocationId_def)
      from handle_event_storable [OF assms(1,4,3,5,6) this, of r] obtain ss2 srv2 where
        h: "handle_event env r ss1 srv = Some (ss2, srv2)" "live (blobs (srv_store srv2))"
        "store_sim V (env_json env) (srv_store srv2)
          (A(i := append_phases (A i) (storable env (request_events env r))))" by blast
      from handle_event_cases [OF h(1)] have
        "ss2\<lparr>ss_acks := ss_acks ss2 @ [OB_SequenceNumber r]\<rparr> = after_requests env [(r, now)] ss1"
        by (simp add: after_requests_def)
      with h Inr ss1 c d Req show ?thesis by (simp add: recv_step_def after_requests_def)
    qed
  qed
qed

lemma serve_all_alone:
  assumes "env_blobs env = bs" "inj_on (\<lambda>k. StreamInvocationId (sid k)) K"
    and "\<forall>k \<in> K. v_ok V (blobName (StreamInvocationId (sid k)))"
    and "store_sim V (env_json env) (srv_store (wl_srv W)) A" "live (blobs (srv_store (wl_srv W)))"
    and "\<forall>k \<in> K. A (StreamInvocationId (sid k)) \<noteq> Failed \<and> call_of (sid k) (wl_calls W k)"
    and "\<forall>(k, d) \<in> set tr. k \<in> K \<and> (\<forall>r. fst d = Req r \<longrightarrow> OB_StreamId r = Some (sid k))"
  shows "\<exists>W' A'. serve_all env errs tr W = Some W' \<and> live (blobs (srv_store (wl_srv W'))) \<and>
    store_sim V (env_json env) (srv_store (wl_srv W')) A' \<and>
    (\<forall>k \<in> K. (wl_calls W' k, A' (StreamInvocationId (sid k))) =
      fold (alone_step env (errs k)) (deliveries k tr) (wl_calls W k, A (StreamInvocationId (sid k))))"
  using assms(4-)
proof (induction tr arbitrary: W A)
  case Nil
  then show ?case by auto
next
  case (Cons x tr)
  obtain j d where x: "x = (j, d)" by (cases x)
  let ?i = "\<lambda>k. StreamInvocationId (sid k)"
  have j: "j \<in> K" "\<forall>r. fst d = Req r \<longrightarrow> OB_StreamId r = Some (sid j)" using Cons.prems(4) x by auto
  let ?s = "alone_step env (errs j) d (wl_calls W j, A (?i j))"
  let ?A = "A(?i j := snd ?s)"
  have "v_ok V (blobName (?i j))" "A (?i j) \<noteq> Failed" "call_of (sid j) (wl_calls W j)"
    using assms(3) Cons.prems(3) j(1) by auto
  from serve_call_alone [OF assms(1) refl this(1) Cons.prems(1,2) this(2,3) j(2), of "errs j"]
  obtain srv where s: "serve_call env (errs j) d (wl_calls W j) (wl_srv W) = Some (fst ?s, srv)"
    "call_of (sid j) (fst ?s)" "live (blobs (srv_store srv))"
    "store_sim V (env_json env) (srv_store srv) ?A" by blast
  let ?W = "\<lparr>wl_calls = (wl_calls W)(j := fst ?s), wl_srv = srv\<rparr>"
  have A: "?A (?i k) = (if k = j then snd ?s else A (?i k))" if "k \<in> K" for k
    using inj_onD [OF assms(2) _ that j(1)] by auto
  have "\<forall>k \<in> K. ?A (?i k) \<noteq> Failed \<and> call_of (sid k) (wl_calls ?W k)"
    using Cons.prems(3) s(2) A alone_step_Failed [of "A (?i j)" env "errs j" d "wl_calls W j"] j(1)
    by (simp del: fun_upd_apply) (simp add: fun_upd_apply)
  moreover have "\<forall>(k, d) \<in> set tr. k \<in> K \<and> (\<forall>r. fst d = Req r \<longrightarrow> OB_StreamId r = Some (sid k))"
    using Cons.prems(4) by auto
  moreover have "store_sim V (env_json env) (srv_store (wl_srv ?W)) ?A" "live (blobs (srv_store (wl_srv ?W)))"
    using s(3,4) by (simp_all only: world.select_convs)
  ultimately obtain W' A' where r: "serve_all env errs tr ?W = Some W'" "live (blobs (srv_store (wl_srv W')))"
    "store_sim V (env_json env) (srv_store (wl_srv W')) A'"
    "\<forall>k \<in> K. (wl_calls W' k, A' (?i k)) =
      fold (alone_step env (errs k)) (deliveries k tr) (wl_calls ?W k, ?A (?i k))"
    using Cons.IH [of ?W ?A] by blast
  have "serve_all env errs (x # tr) W = Some W'"
    using r(1) s(1) x by (simp add: serve_one_def)
  moreover have "(wl_calls W' k, A' (?i k)) =
      fold (alone_step env (errs k)) (deliveries k (x # tr)) (wl_calls W k, A (?i k))" if "k \<in> K" for k
    using r(4) A [OF that] that x by auto
  ultimately show ?case using r(2,3) by blast
qed

end

section \<open>Over a disk where nothing fails\<close>

lemma streams_alone:
  assumes "env_blobs env = disk_ops gz rootDir" "gzip_lawful gz" "json_lawful (env_json env)"
    and "fs_ok fs" "disk_live rootDir fs" "rootDir \<noteq> []"
    and "inj_on (\<lambda>k. StreamInvocationId (sid k)) (fst ` set tr)"
    and "\<forall>k \<in> fst ` set tr. simple_name (blobName (StreamInvocationId (sid k)))"
    and "\<forall>(k, d) \<in> set tr. \<forall>r. fst d = Req r \<longrightarrow> OB_StreamId r = Some (sid k)"
  shows "\<exists>W. serve_all env errs tr (new_world (NewBuildEventServer (store_New fs) idx)) = Some W \<and>
    (\<forall>k \<in> fst ` set tr. wl_calls W k = fst (alone env (errs k) (deliveries k tr)) \<and>
      (\<forall>es. snd (alone env (errs k) (deliveries k tr)) = Stored es \<longrightarrow>
        fst (ReadEvents (env_blobs env) (env_json env) (StreamInvocationId (sid k)) (srv_store (wl_srv W))) =
          (es, True, None)))"
proof -
  let ?K = "fst ` set tr" and ?V = "disk_view gz rootDir"
  let ?W = "new_world (NewBuildEventServer (store_New fs) idx)"
  have ok: "\<forall>k \<in> ?K. v_ok ?V (blobName (StreamInvocationId (sid k)))" using assms(8) by simp
  have sim: "store_sim ?V (env_json env) (srv_store (wl_srv ?W)) (\<lambda>_. Idle)"
    using assms(2,4,6) by (simp add: new_world_def NewBuildEventServer_def store_sim_New)
  have lv: "disk_live rootDir (blobs (srv_store (wl_srv ?W)))"
    using assms(5) by (simp add: new_world_def NewBuildEventServer_def store_New_def)
  have c: "\<forall>k \<in> ?K. Idle \<noteq> Failed \<and> call_of (sid k) (wl_calls ?W k)"
    by (simp add: new_world_def new_stream_def)
  have t: "\<forall>(k, d) \<in> set tr. k \<in> ?K \<and> (\<forall>r. fst d = Req r \<longrightarrow> OB_StreamId r = Some (sid k))"
    using assms(9) by force
  obtain W A where w: "serve_all env errs tr ?W = Some W" "disk_live rootDir (blobs (srv_store (wl_srv W)))"
    "store_sim ?V (env_json env) (srv_store (wl_srv W)) A"
    "\<forall>k \<in> ?K. (wl_calls W k, A (StreamInvocationId (sid k))) = alone env (errs k) (deliveries k tr)"
    using live_disk.serve_all_alone [OF assms(1,7) ok sim lv c t, of errs]
    by (auto simp: alone_def new_world_def)
  have "fst (ReadEvents (env_blobs env) (env_json env) (StreamInvocationId (sid k)) (srv_store (wl_srv W))) =
      (es, True, None)"
    if k: "k \<in> ?K" and "snd (alone env (errs k) (deliveries k tr)) = Stored es" for k es
  proof -
    have "A (StreamInvocationId (sid k)) = Stored es" using that w(4) by (metis snd_conv)
    from live_disk.live_read_events [OF assms(3) w(3) _ w(2) this] ok k assms(1)
    show ?thesis by fastforce
  qed
  with w show ?thesis by (metis fst_conv)
qed

section \<open>Properties\<close>

text \<open>
  C7: Streams do not disturb each other.  However the deliveries of streams of different invocations
  interleave, over a disk where nothing fails, every delivery is handled, every call ends as it would
  on its own, and reads of a committed invocation return what its stream alone would have stored.
\<close>

theorem streams_do_not_interfere:
  assumes "env_blobs env = disk_ops gz rootDir" "gzip_lawful gz" "json_lawful (env_json env)"
    and "fs_ok fs" "disk_live rootDir fs" "rootDir \<noteq> []"
    and "inj_on (\<lambda>k. StreamInvocationId (sid k)) (fst ` set tr)"
    and "\<forall>k \<in> fst ` set tr. simple_name (blobName (StreamInvocationId (sid k)))"
    and "\<forall>(k, d) \<in> set tr. \<forall>r. fst d = Req r \<longrightarrow> OB_StreamId r = Some (sid k)"
  shows "\<exists>W. serve_all env errs tr (new_world (NewBuildEventServer (store_New fs) idx)) = Some W \<and>
    (\<forall>k \<in> fst ` set tr. wl_calls W k = fst (alone env (errs k) (deliveries k tr)) \<and>
      (\<forall>es. snd (alone env (errs k) (deliveries k tr)) = Stored es \<longrightarrow>
        fst (ReadEvents (env_blobs env) (env_json env) (StreamInvocationId (sid k)) (srv_store (wl_srv W))) =
          (es, True, None)))"
  by (rule streams_alone [OF assms])

text \<open>
  C6: A complete stream among others.  A stream with sequence numbers 1 to n is acknowledged in full
  and its events read back in order, whatever streams of other invocations are handled in between,
  complete or not.
\<close>

theorem complete_stream_among_others:
  assumes "env_blobs env = disk_ops gz rootDir" "gzip_lawful gz" "json_lawful (env_json env)"
    and "fs_ok fs" "disk_live rootDir fs" "rootDir \<noteq> []"
    and "inj_on (\<lambda>k. StreamInvocationId (sid k)) (fst ` set tr)"
    and "\<forall>k \<in> fst ` set tr. simple_name (blobName (StreamInvocationId (sid k)))"
    and "\<forall>(k, d) \<in> set tr. \<forall>r. fst d = Req r \<longrightarrow> OB_StreamId r = Some (sid k)"
    and "deliveries k tr = deliver ((r, t) # reqs) @ [(RecvEOF, now)]"
    and "StreamInvocationId (sid k) \<noteq> []" "int (length ((r, t) # reqs)) < 2 ^ 63"
    and "complete (sequence_numbers ((r, t) # reqs))"
    and "\<forall>e \<in> set (stream_events env ((r, t) # reqs)). marshals (env_json env) e"
    and "stream_events env ((r, t) # reqs) \<noteq> []"
  shows "\<exists>W. serve_all env (\<lambda>_. []) tr (new_world (NewBuildEventServer (store_New fs) idx)) = Some W \<and>
    wl_calls W k = Returned None (map (\<lambda>i. (sid k, int i)) [1..<Suc (length ((r, t) # reqs))]) \<and>
    fst (ReadEvents (env_blobs env) (env_json env) (StreamInvocationId (sid k)) (srv_store (wl_srv W))) =
      (stream_events env ((r, t) # reqs), True, None)"
proof -
  have k: "k \<in> fst ` set tr"
  proof (rule ccontr)
    assume "k \<notin> fst ` set tr"
    then have "deliveries k tr = []" by (auto simp: deliveries_def filter_empty_conv)
    with assms(10) show False by simp
  qed
  have "(k, Req r, t) \<in> set tr"
  proof -
    have "(Req r, t) \<in> set (deliveries k tr)" using assms(10) by simp
    then show ?thesis by (auto simp: deliveries_def)
  qed
  then have "OB_StreamId r = Some (sid k)" using assms(9) by force
  moreover have "storable env (stream_events env ((r, t) # reqs)) = stream_events env ((r, t) # reqs)"
    using assms(14) by (auto simp: storable_def filter_id_conv simp del: stream_simps)
  ultimately have a: "alone env [] (deliveries k tr) =
      (Returned None (map (\<lambda>i. (sid k, int i)) [1..<Suc (length ((r, t) # reqs))]),
       Stored (stream_events env ((r, t) # reqs)))"
    unfolding assms(10) by (intro alone_complete [OF _ assms(11-13) _ assms(15)])
  from streams_alone [OF assms(1-9), of "\<lambda>_. []" idx] k show ?thesis
    unfolding a by (metis a fst_conv snd_conv)
qed

end
