(* ===== verification/Bytestream.thy ===== *)
theory Bytestream
  imports GoUrl "HOL-Library.Monad_Syntax"
begin

text \<open>
  The remote cache client, \<open>src/bytestream/bytestream.go\<close>: \<open>ParseURI\<close>, the \<open>Client\<close> with its
  connections, \<open>dial\<close>, \<open>Stream\<close> and \<open>Fetch\<close>.  gRPC is a parameter: \<open>grpc.NewClient\<close> for a
  target and the choice of credentials, \<open>metadata.AppendToOutgoingContext\<close>, and the \<open>Read\<close> call,
  whose stream is the sequence of results its \<open>Recv\<close> gives.  A server may send for ever, so the
  receive loop is a partial function whose value \<^term>\<open>None\<close> stands for never returning.  The
  mutex of \<open>dial\<close> makes each dial atomic; a dial is one step here.
\<close>

section \<open>Parameters\<close>

datatype read_result = ReadData bytes | ReadEOF | ReadErr goerror

record ('ctx, 'conn) grpc_api =
  NewClient :: "string \<Rightarrow> bool \<Rightarrow> goerror + 'conn"
  AppendToOutgoingContext :: "'ctx \<Rightarrow> string \<Rightarrow> string \<Rightarrow> 'ctx"
  ReadCall :: "'conn \<Rightarrow> 'ctx \<Rightarrow> string \<Rightarrow> goerror + (nat \<Rightarrow> read_result)"

text \<open>An \<open>io.Writer\<close> of state \<open>'w\<close>: the error that writing some bytes gives, and its new state.\<close>

type_synonym 'w writer = "'w \<Rightarrow> bytes \<Rightarrow> goerror option \<times> 'w"

text \<open>\<open>bytes.Buffer\<close> never fails.\<close>

definition Buffer_Write :: "bytes writer" where
  "Buffer_Write buf p = (None, buf @ p)"

section \<open>ParseURI\<close>

definition ParseURI :: "(string \<Rightarrow> bool) \<Rightarrow> string \<Rightarrow> goerror + (string \<times> string)" where
  "ParseURI ip6 uri =
     (case url_Parse ip6 uri of
        Inl e \<Rightarrow> Inl (WrapErr ''parse bytestream uri'' [] (TypedErr ''*url.Error'' uri))
      | Inr u \<Rightarrow>
          if Scheme u \<noteq> ''bytestream'' then Inl (Errorf ''not a bytestream:// uri: %q'' [uri])
          else if UrlHost u = [] then Inl (Errorf ''bytestream uri missing host: %q'' [uri])
          else let resourceName = TrimPrefix (UrlPath u) ''/''
               in if resourceName = [] then
                    Inl (Errorf ''bytestream uri missing resource name: %q'' [uri])
                  else Inr (UrlHost u, resourceName))"

section \<open>The client\<close>

record 'conn Client =
  Insecure :: bool
  Header :: string
  MaxSizeBytes :: int
  conns :: "string \<rightharpoonup> 'conn"

definition dial ::
  "('ctx, 'conn) grpc_api \<Rightarrow> 'conn Client \<Rightarrow> string \<Rightarrow> (goerror + 'conn) \<times> 'conn Client" where
  "dial g c target =
     (case conns c target of
        Some conn \<Rightarrow> (Inr conn, c)
      | None \<Rightarrow>
          (case NewClient g target (Insecure c) of
             Inl e \<Rightarrow> (Inl e, c)
           | Inr conn \<Rightarrow> (Inr conn, c\<lparr>conns := (conns c)(target \<mapsto> conn)\<rparr>)))"

definition outgoing_context :: "('ctx, 'conn) grpc_api \<Rightarrow> string \<Rightarrow> 'ctx \<Rightarrow> 'ctx" where
  "outgoing_context g header ctx =
     (if header \<noteq> [] then
        (case Cut header CHR '':'' of
           Some (k, v) \<Rightarrow> AppendToOutgoingContext g ctx (TrimSpace k) (TrimSpace v)
         | None \<Rightarrow> ctx)
      else ctx)"

text \<open>The receive loop: \<open>i\<close> results were received, \<open>tot\<close> bytes counted.\<close>

partial_function (option) recv_loop ::
  "'w writer \<Rightarrow> int \<Rightarrow> string \<Rightarrow> string \<Rightarrow> (nat \<Rightarrow> read_result) \<Rightarrow> nat \<Rightarrow> int \<Rightarrow> 'w \<Rightarrow>
   (goerror option \<times> 'w) option" where
  "recv_loop wr maxSize resourceName target stream i tot w =
     (case stream i of
        ReadEOF \<Rightarrow> Some (None, w)
      | ReadErr e \<Rightarrow> Some (Some (WrapErr ''recv %s from %s'' [resourceName, target] e), w)
      | ReadData data \<Rightarrow>
          (let tot' = int64 (tot + int (length data))
           in if 0 < maxSize \<and> maxSize < tot' then
                Some (Some (Errorf ''blob %s exceeds max size %d bytes''
                              [resourceName, Itoa maxSize]), w)
              else case wr w data of
                  (Some e, w') \<Rightarrow> Some (Some (WrapErr ''write %s'' [resourceName] e), w')
                | (None, w') \<Rightarrow>
                    recv_loop wr maxSize resourceName target stream (Suc i) tot' w'))"

definition Stream ::
  "(string \<Rightarrow> bool) \<Rightarrow> ('ctx, 'conn) grpc_api \<Rightarrow> 'w writer \<Rightarrow> 'conn Client \<Rightarrow> 'ctx \<Rightarrow> string \<Rightarrow> 'w \<Rightarrow>
   (goerror option \<times> 'w \<times> 'conn Client) option" where
  "Stream ip6 g wr c ctx uri w =
     (case ParseURI ip6 uri of
        Inl e \<Rightarrow> Some (Some e, w, c)
      | Inr (target, resourceName) \<Rightarrow>
          (case dial g c target of
             (Inl e, c') \<Rightarrow> Some (Some (WrapErr ''dial %s'' [target] e), w, c')
           | (Inr conn, c') \<Rightarrow>
               (case ReadCall g conn (outgoing_context g (Header c') ctx) resourceName of
                  Inl e \<Rightarrow> Some (Some (WrapErr ''read %s from %s'' [resourceName, target] e), w, c')
                | Inr stream \<Rightarrow>
                    (case recv_loop wr (MaxSizeBytes c') resourceName target stream 0 0 w of
                       None \<Rightarrow> None
                     | Some (e, w') \<Rightarrow> Some (e, w', c')))))"

definition Fetch ::
  "(string \<Rightarrow> bool) \<Rightarrow> ('ctx, 'conn) grpc_api \<Rightarrow> 'conn Client \<Rightarrow> 'ctx \<Rightarrow> string \<Rightarrow>
   ((goerror + bytes) \<times> 'conn Client) option" where
  "Fetch ip6 g c ctx uri =
     (case Stream ip6 g Buffer_Write c ctx uri [] of
        None \<Rightarrow> None
      | Some (Some e, buf, c') \<Rightarrow> Some (Inl e, c')
      | Some (None, buf, c') \<Rightarrow> Some (Inr buf, c'))"

section \<open>Streams\<close>

text \<open>The stream of a server that sends the given chunks and ends.\<close>

definition sends :: "bytes list \<Rightarrow> nat \<Rightarrow> read_result" where
  "sends ds i = (if i < length ds then ReadData (ds ! i) else ReadEOF)"

text \<open>The first \<open>n\<close> chunks of a stream, and the bytes in them.\<close>

fun chunk :: "read_result \<Rightarrow> bytes" where
  "chunk (ReadData d) = d"
| "chunk _ = []"

definition received :: "(nat \<Rightarrow> read_result) \<Rightarrow> nat \<Rightarrow> bytes" where
  "received stream n = concat (map (\<lambda>i. chunk (stream i)) [0..<n])"

text \<open>No chunk takes the byte count past the range of \<open>int64\<close> before the limit is tested.\<close>

definition no_wrap :: "int \<Rightarrow> (nat \<Rightarrow> read_result) \<Rightarrow> bool" where
  "no_wrap maxSize stream \<longleftrightarrow> (\<forall>i. maxSize + int (length (chunk (stream i))) \<le> int64_max)"

text \<open>A writer that keeps a log of all the bytes it was asked to write.\<close>

definition logged :: "'w writer \<Rightarrow> (bytes \<times> 'w) writer" where
  "logged wr s p = (case wr (snd s) p of (e, w) \<Rightarrow> (e, (fst s @ p, w)))"

lemma received_0 [simp]: "received stream 0 = []"
  by (simp add: received_def)

lemma received_Suc [simp]: "received stream (Suc n) = received stream n @ chunk (stream n)"
  by (simp add: received_def)

lemma count_step:
  assumes "no_wrap maxSize stream" "0 < maxSize" "stream i = ReadData d"
    "int (length (received stream i)) \<le> maxSize"
  shows "int64 (int (length (received stream i)) + int (length d)) =
    int (length (received stream (Suc i)))"
proof -
  have "maxSize + int (length d) \<le> int64_max"
    using assms(1,3) by (auto simp: no_wrap_def dest: spec [of _ i])
  then show ?thesis using assms(2-) by (simp add: int64_id int64_min_def)
qed

text \<open>
  The loop invariant: the log holds the bytes received so far, which are within the limit.  By
  induction over the recursion, whatever the loop returns satisfies it.
\<close>

lemma recv_loop_bounded:
  assumes "recv_loop (logged wr) maxSize r t stream i n lw = Some res"
    and "no_wrap maxSize stream" "0 < maxSize"
    and "n = int (length (received stream i))" "n \<le> maxSize" "fst lw = received stream i"
  shows "int (length (fst (snd res))) \<le> maxSize \<and> (\<exists>j. fst (snd res) = received stream j)"
proof -
  have "wr' = logged wr \<longrightarrow> no_wrap m s \<longrightarrow> 0 < m \<longrightarrow>
      k = int (length (received s i)) \<longrightarrow> k \<le> m \<longrightarrow> fst lw = received s i \<longrightarrow>
      int (length (fst (snd res))) \<le> m \<and> (\<exists>j. fst (snd res) = received s j)"
    if "recv_loop wr' m r t s i k lw = Some res" for wr' m r t s i k lw res
    using that
  proof (induction rule: recv_loop.raw_induct [rotated 1, consumes 1, case_names step])
    case (step loop wr' m r t s i k lw res)
    show ?case
    proof (intro impI)
      assume a: "wr' = logged wr" "no_wrap m s" "0 < m" "k = int (length (received s i))"
        "k \<le> m" "fst lw = received s i"
      show "int (length (fst (snd res))) \<le> m \<and> (\<exists>j. fst (snd res) = received s j)"
      proof (cases "s i")
        case (ReadData d)
        note cs = count_step [OF a(2,3) ReadData]
        obtain e w' where w: "wr (snd lw) d = (e, w')" by (cases "wr (snd lw) d")
        obtain R where R: "fst lw @ d = R" "int64 (k + int (length d)) = int (length R)"
          "\<exists>j. R = received s j" "\<exists>j. fst lw = received s j"
          and IH: "R = received s (Suc i)"
          using a cs ReadData by (metis chunk.simps(1) received_Suc)
        from step(2) a(1,3) R(1,2) ReadData w
        consider "snd res = lw" | "\<not> m < int (length R)" "snd res = (R, w')"
          | "\<not> m < int (length R)"
            "loop wr' m r t s (Suc i) (int (length R)) (R, w') = Some res"
          by (auto simp: logged_def Let_def split: if_splits option.splits)
        then show ?thesis
        proof cases
          case 3
          with step(1) [OF 3(2)] a IH show ?thesis by auto
        qed (use a R in auto)
      qed (use step(2) a in \<open>auto simp: Let_def\<close>)
    qed
  qed
  with assms show ?thesis by blast
qed

text \<open>The general rule: what every write keeps holds of what the loop returns.\<close>

lemma recv_loop_invariant:
  assumes "recv_loop wr m r t s i n w = Some res" "I i w"
    and "\<And>i d w w'. I i w \<Longrightarrow> s i = ReadData d \<Longrightarrow> wr w d = (None, w') \<Longrightarrow> I (Suc i) w'"
    and "\<And>i w. I i w \<Longrightarrow> Q w"
    and "\<And>i d w e w'. I i w \<Longrightarrow> s i = ReadData d \<Longrightarrow> wr w d = (Some e, w') \<Longrightarrow> Q w'"
  shows "Q (snd res)"
proof -
  have "wr' = wr \<longrightarrow> s' = s \<longrightarrow> I i w \<longrightarrow> Q (snd res)"
    if "recv_loop wr' m r t s' i n w = Some res" for wr' m r t s' i n w res
    using that
  proof (induction rule: recv_loop.raw_induct [rotated 1, consumes 1, case_names step])
    case (step loop wr' m r t s' i n w res)
    show ?case
    proof (intro impI)
      assume a: "wr' = wr" "s' = s" "I i w"
      show "Q (snd res)"
      proof (cases "s i")
        case (ReadData d)
        obtain e w' where w: "wr w d = (e, w')" by (cases "wr w d")
        show ?thesis
          using step(2) step(1) [of wr m r t s "Suc i" _ w' res] a ReadData w assms(3,4,5) [OF a(3)]
          by (cases e) (auto simp: Let_def split: if_splits)
      qed (use step(2) a assms(4) in auto)
    qed
  qed
  with assms(1,2) show ?thesis by blast
qed

lemma Stream_writer_invariant:
  assumes "Stream ip6 g wr c ctx uri w = Some (e, w', c')" "P w"
    and "\<And>w p e w'. P w \<Longrightarrow> wr w p = (e, w') \<Longrightarrow> P w'"
  shows "P w'"
proof -
  consider "w' = w" | m r t s where "recv_loop wr m r t s 0 0 w = Some (e, w')"
    using assms(1) unfolding Stream_def by (auto split: sum.splits prod.splits option.splits)
  then show ?thesis
  proof cases
    case (2 m r t s)
    have "P (snd (e, w'))"
      by (rule recv_loop_invariant [OF 2, where I = "\<lambda>i. P"]) (use assms(2,3) in blast)+
    then show ?thesis by simp
  qed (use assms(2) in simp)
qed

text \<open>
  With a limit, a stream of non-empty chunks cannot keep the loop going: each round brings the
  count closer to the limit.
\<close>

lemma recv_loop_returns:
  assumes "no_wrap maxSize stream" "0 < maxSize" "\<And>j. stream j \<noteq> ReadData []"
    and "n = int (length (received stream i))" "n \<le> maxSize"
  shows "\<exists>res. recv_loop wr maxSize r t stream i n w = Some res"
  using assms(4,5)
proof (induction "nat (maxSize - n)" arbitrary: i n w rule: less_induct)
  case less
  show ?case
  proof (cases "stream i")
    case (ReadData d)
    note cs = count_step [OF assms(1,2) ReadData]
    have d: "1 \<le> int (length d)" using assms(3) [of i] ReadData by (cases d) auto
    obtain e w' where w: "wr w d = (e, w')" by (cases "wr w d")
    show ?thesis
    proof (cases "maxSize < int (length (received stream (Suc i)))")
      case True
      with ReadData cs less.prems show ?thesis
        by (subst recv_loop.simps) (simp add: assms(2))
    next
      case False
      then have "\<exists>res. recv_loop wr maxSize r t stream (Suc i)
          (int (length (received stream (Suc i)))) w' = Some res"
        using less.prems d ReadData by (intro less.hyps) (auto simp: ReadData)
      with False ReadData cs less.prems w show ?thesis
        by (subst recv_loop.simps) (auto split: option.splits)
    qed
  qed (subst recv_loop.simps, simp)+
qed

text \<open>A finite stream into a buffer.\<close>

lemma received_sends: "n \<le> length ds \<Longrightarrow> received (sends ds) n = concat (take n ds)"
  by (induction n) (auto simp: sends_def take_Suc_conv_app_nth)

lemma received_sends_prefix:
  "n \<le> length ds \<Longrightarrow> length (received (sends ds) n) \<le> length (concat ds)"
  by (metis append_take_drop_id concat_append length_append le_add1 received_sends)

lemma recv_loop_sends:
  assumes "int (length (concat ds)) \<le> int64_max" "i \<le> length ds"
    and "n = int (length (received (sends ds) i))" "buf = received (sends ds) i"
    and "maxSize \<le> 0 \<or> n \<le> maxSize"
  shows "\<exists>buf'. recv_loop Buffer_Write maxSize r t (sends ds) i n buf =
    Some (if 0 < maxSize \<and> maxSize < int (length (concat ds))
          then (Some (Errorf ''blob %s exceeds max size %d bytes'' [r, Itoa maxSize]), buf')
          else (None, concat ds))"
  using assms(2-)
proof (induction "length ds - i" arbitrary: i n buf)
  case 0
  then have "sends ds i = ReadEOF" "received (sends ds) i = concat ds"
    by (simp_all add: sends_def received_sends)
  with 0 show ?case by (subst recv_loop.simps) auto
next
  case (Suc k)
  let ?m = "received (sends ds) (Suc i)"
  have s: "sends ds i = ReadData (ds ! i)" and m: "?m = received (sends ds) i @ ds ! i"
    using Suc.hyps(2) by (auto simp: sends_def)
  have "length ?m \<le> length (concat ds)"
    using Suc.hyps(2) by (intro received_sends_prefix) simp
  then have w: "int64 (n + int (length (ds ! i))) = int (length ?m)"
    and le: "int (length ?m) \<le> int (length (concat ds))"
    using assms(1) Suc.prems(2) m by (auto simp: int64_id int64_min_def)
  show ?case
  proof (cases "0 < maxSize \<and> maxSize < int (length ?m)")
    case True
    with s w le show ?thesis
      by (intro exI [of _ buf]) (subst recv_loop.simps, simp)
  next
    case False
    have "\<exists>buf'. recv_loop Buffer_Write maxSize r t (sends ds) (Suc i) (int (length ?m)) ?m =
        Some (if 0 < maxSize \<and> maxSize < int (length (concat ds))
          then (Some (Errorf ''blob %s exceeds max size %d bytes'' [r, Itoa maxSize]), buf')
          else (None, concat ds))"
      using Suc.hyps(2) False by (intro Suc.hyps(1)) auto
    then obtain buf' where "recv_loop Buffer_Write maxSize r t (sends ds) (Suc i)
        (int (length ?m)) ?m =
        Some (if 0 < maxSize \<and> maxSize < int (length (concat ds))
          then (Some (Errorf ''blob %s exceeds max size %d bytes'' [r, Itoa maxSize]), buf')
          else (None, concat ds))" ..
    with False s w m Suc.prems show ?thesis
      by (intro exI [of _ buf']) (subst recv_loop.simps, auto simp: Buffer_Write_def Let_def)
  qed
qed

section \<open>Properties\<close>

text \<open>
  Reading a cache reference back.  A reference \<open>bytestream://host/name\<close> with a plain host (a
  port included) and a plain resource name is split into exactly that host and that name, slashes
  inside the name included.
\<close>

theorem ParseURI_plain:
  assumes "plain_host host" "host \<noteq> []" "plain_path name" "name \<noteq> []"
  shows "ParseURI ip6 (''bytestream://'' @ host @ ''/'' @ name) = Inr (host, name)"
proof -
  have "list_all is_lower ''bytestream''" by code_simp
  moreover have "plain_path (''/'' @ name)" using assms(3) by (simp add: plain_path_def)
  ultimately have "url_Parse ip6 (''bytestream'' @ ''://'' @ host @ ''/'' @ name) =
      Inr (empty_URL\<lparr>Scheme := ''bytestream'', UrlHost := host, UrlPath := ''/'' @ name\<rparr>)"
    using assms(1) by (intro url_Parse_plain) (auto simp: HasPrefix_def)
  with assms(2,4) show ?thesis
    by (simp add: ParseURI_def TrimPrefix_def HasPrefix_def)
qed

theorem ParseURI_plain_witness:
  "ParseURI (\<lambda>_. False) (''bytestream://'' @ ''cache.example:443'' @ ''/'' @ ''blobs/ab12/7'') =
     Inr (''cache.example:443'', ''blobs/ab12/7'')"
proof (rule ParseURI_plain)
  show "plain_host ''cache.example:443''" by code_simp
  show "plain_path ''blobs/ab12/7''" by code_simp
qed simp_all

text \<open>
  C32: The size limit.  With a positive \<open>MaxSizeBytes\<close>, and chunks too short to take the 64-bit
  count past its range, streaming a reference passes at most \<open>MaxSizeBytes\<close> bytes to the writer,
  whatever the writer and the server do, and what it passes is what the server sent first.
\<close>

theorem Stream_within_limit:
  assumes "Stream ip6 g (logged wr) c ctx uri ([], w) = Some (e, (out, w'), c')"
    and "0 < MaxSizeBytes c"
    and "\<And>conn x r stream. ReadCall g conn x r = Inr stream \<Longrightarrow> no_wrap (MaxSizeBytes c) stream"
  shows "int (length out) \<le> MaxSizeBytes c \<and>
    (out = [] \<or> (\<exists>conn x r stream j. ReadCall g conn x r = Inr stream \<and> out = received stream j))"
proof -
  have m: "MaxSizeBytes (snd (dial g c t)) = MaxSizeBytes c" for t
    by (simp add: dial_def split: option.splits sum.splits)
  consider "out = []"
    | t r conn c1 stream where "dial g c t = (Inr conn, c1)"
        "ReadCall g conn (outgoing_context g (Header c1) ctx) r = Inr stream"
        "recv_loop (logged wr) (MaxSizeBytes c1) r t stream 0 0 ([], w) = Some (e, (out, w'))"
    using assms(1) unfolding Stream_def
    by (auto split: sum.splits prod.splits option.splits)
  then show ?thesis
  proof cases
    case (2 t r conn c1 stream)
    have "MaxSizeBytes c1 = MaxSizeBytes c" using m [of t] 2(1) by simp
    with recv_loop_bounded [OF 2(3)] assms(2) assms(3) [OF 2(2)]
    have "int (length out) \<le> MaxSizeBytes c" "\<exists>j. out = received stream j" by auto
    with 2(2) show ?thesis by blast
  qed (use assms(2) in simp)
qed

text \<open>A gRPC library for examples: one chunk after another, whatever is asked for.\<close>

definition sample_grpc :: "bytes list \<Rightarrow> (unit, nat) grpc_api" where
  "sample_grpc ds = \<lparr>NewClient = (\<lambda>t i. Inr (length t)), AppendToOutgoingContext = (\<lambda>x k v. x),
     ReadCall = (\<lambda>conn x r. Inr (sends ds))\<rparr>"

definition sample_client :: "int \<Rightarrow> nat Client" where
  "sample_client m = \<lparr>Insecure = True, Header = [], MaxSizeBytes = m, conns = Map.empty\<rparr>"

lemma no_wrap_sends:
  "(\<And>d. d \<in> set ds \<Longrightarrow> m + int (length d) \<le> int64_max) \<Longrightarrow> m \<le> int64_max \<Longrightarrow>
   no_wrap m (sends ds)"
  by (auto simp: no_wrap_def sends_def)

lemma sample_ParseURI:
  "ParseURI (\<lambda>_. False) ''bytestream://h:1/n'' = Inr (''h:1'', ''n'')"
  by code_simp

lemma digit_3: "digit_char (Suc (Suc (Suc 0))) = CHR ''3''"
  by code_simp

lemma sample_Stream:
  "Stream (\<lambda>_. False) (sample_grpc [''ab'', ''cd'']) (logged Buffer_Write) (sample_client 3) ()
     ''bytestream://h:1/n'' ([], []) =
   Some (Some (Errorf ''blob %s exceeds max size %d bytes'' [''n'', ''3'']), (''ab'', ''ab''),
     (sample_client 3)\<lparr>conns := [''h:1'' \<mapsto> 3]\<rparr>)"
  by (simp add: Stream_def sample_ParseURI dial_def sample_grpc_def sample_client_def
      outgoing_context_def recv_loop.simps sends_def logged_def Buffer_Write_def int64_def
      Itoa_def Utoa.simps digit_3 numeral_3_eq_3)

theorem Stream_within_limit_witness:
  "int (length ''ab'') \<le> MaxSizeBytes (sample_client 3) \<and>
   (''ab'' = [] \<or> (\<exists>conn x r stream j.
      ReadCall (sample_grpc [''ab'', ''cd'']) conn x r = Inr stream \<and> ''ab'' = received stream j))"
proof (rule Stream_within_limit [OF sample_Stream])
  show "0 < MaxSizeBytes (sample_client 3)" by (simp add: sample_client_def)
  show "no_wrap (MaxSizeBytes (sample_client 3)) stream"
    if "ReadCall (sample_grpc [''ab'', ''cd'']) conn x r = Inr stream" for conn x r stream
    using that by (auto simp: sample_grpc_def sample_client_def int64_max_def intro!: no_wrap_sends)
qed

text \<open>
  C33: The limit also ends the loop.  With a positive \<open>MaxSizeBytes\<close>, streaming returns whatever
  the server does, a server that sends for ever included, as long as the chunks it sends are not
  empty.
\<close>

theorem Stream_returns:
  assumes "0 < MaxSizeBytes c"
    and "\<And>conn x r stream. ReadCall g conn x r = Inr stream \<Longrightarrow>
      no_wrap (MaxSizeBytes c) stream \<and> (\<forall>j. stream j \<noteq> ReadData [])"
  shows "\<exists>res. Stream ip6 g wr c ctx uri w = Some res"
proof -
  have m: "MaxSizeBytes (snd (dial g c t)) = MaxSizeBytes c" for t
    by (simp add: dial_def split: option.splits sum.splits)
  have loop: "\<exists>res. recv_loop wr (MaxSizeBytes c) r t stream 0 0 w = Some res"
    if "ReadCall g conn x r = Inr stream" for conn x r t stream
    using assms(1) assms(2) [OF that] by (intro recv_loop_returns) auto
  show ?thesis
  proof (cases "ParseURI ip6 uri")
    case (Inr tr)
    obtain t r where tr: "tr = (t, r)" by (cases tr)
    obtain d c1 where d: "dial g c t = (d, c1)" by (cases "dial g c t")
    with m [of t] have c1: "MaxSizeBytes c1 = MaxSizeBytes c" by simp
    show ?thesis
      using Inr tr d c1 loop
      by (auto simp: Stream_def split: sum.splits option.splits) (metis option.distinct(1))
  qed (simp add: Stream_def)
qed

text \<open>A server that never stops.\<close>

definition endless_grpc :: "(unit, nat) grpc_api" where
  "endless_grpc = \<lparr>NewClient = (\<lambda>t i. Inr (length t)), AppendToOutgoingContext = (\<lambda>x k v. x),
     ReadCall = (\<lambda>conn x r. Inr (\<lambda>i. ReadData ''zz''))\<rparr>"

theorem Stream_returns_witness:
  "\<exists>res. Stream (\<lambda>_. False) endless_grpc Buffer_Write (sample_client 5) () ''bytestream://h:1/n'' []
     = Some res"
proof (rule Stream_returns)
  show "0 < MaxSizeBytes (sample_client 5)" by (simp add: sample_client_def)
  show "no_wrap (MaxSizeBytes (sample_client 5)) stream \<and> (\<forall>j. stream j \<noteq> ReadData [])"
    if "ReadCall endless_grpc conn x r = Inr stream" for conn x r stream
    using that by (auto simp: endless_grpc_def sample_client_def no_wrap_def int64_max_def)
qed

text \<open>
  \<open>Fetch\<close> against a server that sends some chunks and ends: it returns all of the bytes in
  order when they are within the limit or there is none, and the size error otherwise; the
  connection it used is kept for the next call.
\<close>

theorem Fetch_finite:
  assumes "ParseURI ip6 uri = Inr (target, name)" "conns c target = None"
    and "NewClient g target (Insecure c) = Inr conn"
    and "ReadCall g conn (outgoing_context g (Header c) ctx) name = Inr (sends ds)"
    and "int (length (concat ds)) \<le> int64_max"
  shows "Fetch ip6 g c ctx uri =
    Some (if 0 < MaxSizeBytes c \<and> MaxSizeBytes c < int (length (concat ds))
          then Inl (Errorf ''blob %s exceeds max size %d bytes'' [name, Itoa (MaxSizeBytes c)])
          else Inr (concat ds),
          c\<lparr>conns := (conns c)(target \<mapsto> conn)\<rparr>)"
proof -
  obtain buf where "recv_loop Buffer_Write (MaxSizeBytes c) name target (sends ds) 0 0 [] =
      Some (if 0 < MaxSizeBytes c \<and> MaxSizeBytes c < int (length (concat ds))
        then (Some (Errorf ''blob %s exceeds max size %d bytes''
                [name, Itoa (MaxSizeBytes c)]), buf)
        else (None, concat ds))"
    using recv_loop_sends [OF assms(5), of 0 0 "[]" "MaxSizeBytes c" name target] linear
    by auto
  with assms(1-4) show ?thesis
    by (simp add: Fetch_def Stream_def dial_def)
qed

theorem Fetch_finite_witness:
  "Fetch (\<lambda>_. False) (sample_grpc [''ab'', ''cd'']) (sample_client 4) () ''bytestream://h:1/n'' =
     Some (Inr ''abcd'', (sample_client 4)\<lparr>conns := [''h:1'' \<mapsto> 3]\<rparr>)"
proof -
  have "Fetch (\<lambda>_. False) (sample_grpc [''ab'', ''cd'']) (sample_client 4) () ''bytestream://h:1/n'' =
    Some (if 0 < MaxSizeBytes (sample_client 4) \<and>
            MaxSizeBytes (sample_client 4) < int (length (concat [''ab'', ''cd'']))
          then Inl (Errorf ''blob %s exceeds max size %d bytes''
                  [''n'', Itoa (MaxSizeBytes (sample_client 4))])
          else Inr (concat [''ab'', ''cd'']),
          (sample_client 4)\<lparr>conns := (conns (sample_client 4))(''h:1'' \<mapsto> 3)\<rparr>)"
    by (rule Fetch_finite [OF sample_ParseURI])
      (simp_all add: sample_client_def sample_grpc_def int64_max_def)
  then show ?thesis by (simp add: sample_client_def)
qed

text \<open>
  A target is dialled once: after a successful dial the same connection serves every later one,
  whatever gRPC would do then, and the other targets keep theirs.
\<close>

lemma dial_reuses:
  assumes "dial g c target = (Inr conn, c')"
  shows "dial g' c' target = (Inr conn, c')"
    and "t \<noteq> target \<Longrightarrow> conns c' t = conns c t"
  using assms by (auto simp: dial_def split: option.splits sum.splits)

end
