(* ===== verification/Backends.thy ===== *)
theory Backends
  imports Server
begin

text \<open>
  The backends behind one interface value.  In Go the event store holds a \<open>blobstore.Blobstore\<close> and
  every call goes to the backend that \<open>main\<close> put there; here the backends, which have states and
  writers of their own, are embedded into one state and one type of writers, and the contract of
  each carries over to its embedding.
\<close>

section \<open>Embedding a backend\<close>

text \<open>
  A backend over the part of a larger state that \<open>get\<close> reads and \<open>put\<close> replaces.  Its writers are
  the values \<open>mk v\<close>; a writer is only ever used with the backend that opened it.
\<close>

definition embed_store ::
  "('st \<Rightarrow> 's) \<Rightarrow> ('s \<Rightarrow> 'st \<Rightarrow> 'st) \<Rightarrow> ('v \<Rightarrow> 'w) \<Rightarrow> ('w \<Rightarrow> 'v option) \<Rightarrow> ('s, 'v) Blobstore \<Rightarrow>
   ('st, 'w) Blobstore" where
  "embed_store get put mk proj bs =
     \<lparr>op_BlobExists = (\<lambda>n st. case op_BlobExists bs n (get st) of (r, s) \<Rightarrow> (r, put s st)),
      op_ReadBlob = (\<lambda>n st. case op_ReadBlob bs n (get st) of (r, s) \<Rightarrow> (r, put s st)),
      op_WriteBlob = (\<lambda>n d st. case op_WriteBlob bs n d (get st) of (r, s) \<Rightarrow> (r, put s st)),
      op_DeleteBlob = (\<lambda>n st. case op_DeleteBlob bs n (get st) of (r, s) \<Rightarrow> (r, put s st)),
      op_Writer = (\<lambda>n st. case op_Writer bs n (get st) of (r, s) \<Rightarrow> (map_sum id mk r, put s st)),
      op_Write = (\<lambda>w p st. case proj w of
          None \<Rightarrow> None
        | Some v \<Rightarrow> map_option (\<lambda>(r, v', s). (r, mk v', put s st)) (op_Write bs v p (get st))),
      op_Close = (\<lambda>w st. case proj w of
          None \<Rightarrow> None
        | Some v \<Rightarrow> map_option (\<lambda>(r, s). (r, put s st)) (op_Close bs v (get st)))\<rparr>"

definition embed_view ::
  "('st \<Rightarrow> 's) \<Rightarrow> ('w \<Rightarrow> 'v option) \<Rightarrow> ('s, 'v) blob_view \<Rightarrow> ('st, 'w) blob_view" where
  "embed_view get proj V =
     \<lparr>v_inv = (\<lambda>st. v_inv V (get st)), v_ok = v_ok V,
      v_holds = (\<lambda>st. v_holds V (get st)), v_absent = (\<lambda>st. v_absent V (get st)),
      v_writing = (\<lambda>st w n cs. \<exists>v. proj w = Some v \<and> v_writing V (get st) v n cs),
      v_broken = (\<lambda>st w n. \<exists>v. proj w = Some v \<and> v_broken V (get st) v n)\<rparr>"

lemma embed_view_sel [simp]:
  "v_inv (embed_view get proj V) st \<longleftrightarrow> v_inv V (get st)"
  "v_ok (embed_view get proj V) = v_ok V"
  "v_holds (embed_view get proj V) st = v_holds V (get st)"
  "v_absent (embed_view get proj V) st = v_absent V (get st)"
  "v_writing (embed_view get proj V) st w n cs \<longleftrightarrow> (\<exists>v. proj w = Some v \<and> v_writing V (get st) v n cs)"
  "v_broken (embed_view get proj V) st w n \<longleftrightarrow> (\<exists>v. proj w = Some v \<and> v_broken V (get st) v n)"
  by (simp_all add: embed_view_def)

lemma same_at_embed: "same_at V m (get st) (get st') \<Longrightarrow> same_at (embed_view get proj V) m st st'"
  by (auto simp: same_at_def)

lemma kept_embed: "kept V n (get st) (get st') \<Longrightarrow> kept (embed_view get proj V) n st st'"
  by (auto simp: kept_def intro: same_at_embed)

definition embedding :: "('st \<Rightarrow> 's) \<Rightarrow> ('s \<Rightarrow> 'st \<Rightarrow> 'st) \<Rightarrow> ('v \<Rightarrow> 'w) \<Rightarrow> ('w \<Rightarrow> 'v option) \<Rightarrow> bool" where
  "embedding get put mk proj \<longleftrightarrow> (\<forall>s st. get (put s st) = s) \<and> (\<forall>v. proj (mk v) = Some v)"

lemma embedding_simps:
  assumes "embedding get put mk proj"
  shows "get (put s st) = s" "proj (mk v) = Some v"
  using assms by (simp_all add: embedding_def)

lemma map_sum_Inr: "map_sum id f x = Inr y \<longleftrightarrow> (\<exists>z. x = Inr z \<and> y = f z)"
  by (cases x) auto

context blobstore
begin

lemma embedded:
  assumes "embedding get put mk proj"
  shows "blobstore (embed_store get put mk proj bs) (embed_view get proj V)"
proof
  fix st n re st'
  assume "v_inv (embed_view get proj V) st" "v_ok (embed_view get proj V) n"
    "op_BlobExists (embed_store get put mk proj bs) n st = (re, st')"
  with exists_law [of "get st" n] show
    "kept (embed_view get proj V) n st st' \<and> same_at (embed_view get proj V) n st st' \<and>
     (\<forall>d. v_holds (embed_view get proj V) st n d \<longrightarrow> re \<noteq> Inr False) \<and>
     (v_absent (embed_view get proj V) st n \<longrightarrow> re \<noteq> Inr True)"
    by (auto simp: embed_store_def embedding_simps [OF assms] intro!: kept_embed same_at_embed split: prod.splits)
next
  fix st n rr st'
  assume "v_inv (embed_view get proj V) st" "v_ok (embed_view get proj V) n"
    "op_ReadBlob (embed_store get put mk proj bs) n st = (rr, st')"
  with read_law [of "get st" n] show "kept (embed_view get proj V) n st st' \<and>
     (\<forall>d. v_holds (embed_view get proj V) st n d \<longrightarrow>
        v_holds (embed_view get proj V) st' n d \<and> (\<forall>d'. rr = Inr d' \<longrightarrow> d' = d))"
    by (auto simp: embed_store_def embedding_simps [OF assms] intro!: kept_embed split: prod.splits)
next
  fix st n data rw st'
  assume "v_inv (embed_view get proj V) st" "v_ok (embed_view get proj V) n"
    "op_WriteBlob (embed_store get put mk proj bs) n data st = (rw, st')"
  with write_law [of "get st" n data] show "kept (embed_view get proj V) n st st' \<and>
     (\<forall>k. rw = Inr k \<longrightarrow> v_holds (embed_view get proj V) st' n data)"
    by (auto simp: embed_store_def embedding_simps [OF assms] intro!: kept_embed split: prod.splits)
next
  fix st n rd st'
  assume "v_inv (embed_view get proj V) st" "v_ok (embed_view get proj V) n"
    "op_DeleteBlob (embed_store get put mk proj bs) n st = (rd, st')"
  with delete_law [of "get st" n] show "kept (embed_view get proj V) n st st' \<and>
     (rd = None \<longrightarrow> v_absent (embed_view get proj V) st' n)"
    by (auto simp: embed_store_def embedding_simps [OF assms] intro!: kept_embed split: prod.splits)
next
  fix st n ro st'
  assume "v_inv (embed_view get proj V) st" "v_ok (embed_view get proj V) n"
    "op_Writer (embed_store get put mk proj bs) n st = (ro, st')"
  with writer_law [of "get st" n] show "kept (embed_view get proj V) n st st' \<and>
     (\<forall>w. ro = Inr w \<longrightarrow> v_writing (embed_view get proj V) st' w n [])"
    by (auto simp: embed_store_def embedding_simps [OF assms] map_sum_Inr intro!: kept_embed split: prod.splits)
next
  fix st n w cs p k err w' st'
  assume "v_inv (embed_view get proj V) st" "v_ok (embed_view get proj V) n"
    "v_writing (embed_view get proj V) st w n cs"
    "op_Write (embed_store get put mk proj bs) w p st = Some ((k, err), w', st')"
  with stream_law [of "get st" n _ cs p k err] show "kept (embed_view get proj V) n st st' \<and>
     (if err = None then v_writing (embed_view get proj V) st' w' n (cs @ [p])
      else v_broken (embed_view get proj V) st' w' n)"
    by (fastforce simp: embed_store_def embedding_simps [OF assms] intro!: kept_embed)
next
  fix st n w p k err w' st'
  assume "v_inv (embed_view get proj V) st" "v_ok (embed_view get proj V) n"
    "v_broken (embed_view get proj V) st w n"
    "op_Write (embed_store get put mk proj bs) w p st = Some ((k, err), w', st')"
  with stream_broken_law [of "get st" n _ p k err] show "kept (embed_view get proj V) n st st' \<and>
     err \<noteq> None \<and> v_broken (embed_view get proj V) st' w' n"
    by (fastforce simp: embed_store_def embedding_simps [OF assms] intro!: kept_embed)
next
  fix st n w cs err st'
  assume "v_inv (embed_view get proj V) st" "v_ok (embed_view get proj V) n"
    "v_writing (embed_view get proj V) st w n cs"
    "op_Close (embed_store get put mk proj bs) w st = Some (err, st')"
  with close_law [of "get st" n _ cs err] show "kept (embed_view get proj V) n st st' \<and>
     (err = None \<longrightarrow> v_holds (embed_view get proj V) st' n (concat cs))"
    by (fastforce simp: embed_store_def embedding_simps [OF assms] intro!: kept_embed)
next
  fix st n w err st'
  assume "v_inv (embed_view get proj V) st" "v_ok (embed_view get proj V) n"
    "v_broken (embed_view get proj V) st w n"
    "op_Close (embed_store get put mk proj bs) w st = Some (err, st')"
  with close_broken_law [of "get st" n _ err] show
    "kept (embed_view get proj V) n st st' \<and> err \<noteq> None"
    by (fastforce simp: embed_store_def embedding_simps [OF assms] intro!: kept_embed)
qed

end

context reliable_blobstore
begin

lemma embedded_reliable:
  assumes "embedding get put mk proj"
  shows "reliable_blobstore (embed_store get put mk proj bs) (embed_view get proj V) (\<lambda>st. live (get st))"
proof (intro reliable_blobstore.intro embedded [OF assms] reliable_blobstore_axioms.intro)
  fix st n
  assume "v_inv (embed_view get proj V) st" "live (get st)" "v_ok (embed_view get proj V) n"
  with live_exists [of "get st" n] show
    "\<exists>b st'. op_BlobExists (embed_store get put mk proj bs) n st = (Inr b, st') \<and> live (get st')"
    by (auto simp: embed_store_def embedding_simps [OF assms])
next
  fix st n d
  assume "v_inv (embed_view get proj V) st" "live (get st)" "v_ok (embed_view get proj V) n"
    "v_holds (embed_view get proj V) st n d"
  with live_read [of "get st" n d] show
    "\<exists>st'. op_ReadBlob (embed_store get put mk proj bs) n st = (Inr d, st') \<and> live (get st')"
    by (auto simp: embed_store_def embedding_simps [OF assms])
next
  fix st n
  assume "v_inv (embed_view get proj V) st" "live (get st)" "v_ok (embed_view get proj V) n"
  with live_writer [of "get st" n] show
    "\<exists>w st'. op_Writer (embed_store get put mk proj bs) n st = (Inr w, st') \<and> live (get st')"
    by (auto simp: embed_store_def embedding_simps [OF assms])
next
  fix st n w cs p
  assume "v_inv (embed_view get proj V) st" "live (get st)" "v_ok (embed_view get proj V) n"
    "v_writing (embed_view get proj V) st w n cs"
  with live_stream [of "get st" n _ cs p] show
    "\<exists>k w' st'. op_Write (embed_store get put mk proj bs) w p st = Some ((k, None), w', st') \<and>
       live (get st')"
    by (fastforce simp: embed_store_def embedding_simps [OF assms])
next
  fix st n w cs
  assume "v_inv (embed_view get proj V) st" "live (get st)" "v_ok (embed_view get proj V) n"
    "v_writing (embed_view get proj V) st w n cs"
  with live_close [of "get st" n _ cs] show
    "\<exists>st'. op_Close (embed_store get put mk proj bs) w st = Some (None, st') \<and> live (get st')"
    by (fastforce simp: embed_store_def embedding_simps [OF assms])
qed

end

section \<open>The backend of the service\<close>

text \<open>
  What \<open>newBlobstore\<close> makes: the disk store, the S3 store, or the disk cache in front of it.  The
  state of all three is that of the S3 service and the local file system.
\<close>

datatype 'svc backend =
    DiskBackend string
  | S3Backend S3Store
  | CachedBackend "('svc, streamWriter) DiskCache"

datatype backend_writer =
    DiskWriter compressFileWriter
  | S3Writer streamWriter
  | CachedWriter "streamWriter teeWriteCloser"

fun as_disk :: "backend_writer \<Rightarrow> compressFileWriter option" where
  "as_disk (DiskWriter w) = Some w"
| "as_disk _ = None"

fun as_s3 :: "backend_writer \<Rightarrow> streamWriter option" where
  "as_s3 (S3Writer w) = Some w"
| "as_s3 _ = None"

fun as_cached :: "backend_writer \<Rightarrow> streamWriter teeWriteCloser option" where
  "as_cached (CachedWriter w) = Some w"
| "as_cached _ = None"

definition put_fs :: "osfs \<Rightarrow> 'svc cache_state \<Rightarrow> 'svc cache_state" where
  "put_fs fs s = s\<lparr>dc_fs := fs\<rparr>"

definition put_svc :: "'svc \<Rightarrow> 'svc cache_state \<Rightarrow> 'svc cache_state" where
  "put_svc svc s = s\<lparr>dc_backing := svc\<rparr>"

definition put_all :: "'svc cache_state \<Rightarrow> 'svc cache_state \<Rightarrow> 'svc cache_state" where
  "put_all s s0 = s"

fun backend_ops ::
  "'svc s3_api \<Rightarrow> gzip_codec \<Rightarrow> 'svc backend \<Rightarrow> ('svc cache_state, backend_writer) Blobstore" where
  "backend_ops api gz (DiskBackend rootDir) =
     embed_store dc_fs put_fs DiskWriter as_disk (disk_ops gz rootDir)"
| "backend_ops api gz (S3Backend store) =
     embed_store dc_backing put_svc S3Writer as_s3 (s3_ops api gz (s3_bucket store))"
| "backend_ops api gz (CachedBackend c) =
     embed_store (\<lambda>s. s) put_all CachedWriter as_cached (cache_ops c)"

fun backend_view ::
  "'svc s3_api \<Rightarrow> ('svc \<Rightarrow> string \<Rightarrow> string \<rightharpoonup> bytes) \<Rightarrow> gzip_codec \<Rightarrow> string \<Rightarrow> 'svc backend \<Rightarrow>
   ('svc cache_state, backend_writer) blob_view" where
  "backend_view api obj gz bucket (DiskBackend rootDir) =
     embed_view dc_fs as_disk (disk_view gz rootDir)"
| "backend_view api obj gz bucket (S3Backend store) =
     embed_view dc_backing as_s3 (s3_view api obj gz (s3_bucket store))"
| "backend_view api obj gz bucket (CachedBackend c) =
     embed_view (\<lambda>s. s) as_cached (cache_view (s3_view api obj gz bucket) c)"

lemma embeddings:
  "embedding dc_fs put_fs DiskWriter as_disk"
  "embedding dc_backing put_svc S3Writer as_s3"
  "embedding (\<lambda>s. s) put_all CachedWriter as_cached"
  by (simp_all add: embedding_def put_fs_def put_svc_def put_all_def)

text \<open>A cache must be in front of the S3 store for the bucket of the view.\<close>

fun backend_ok :: "'svc s3_api \<Rightarrow> gzip_codec \<Rightarrow> string \<Rightarrow> 'svc backend \<Rightarrow> bool" where
  "backend_ok api gz bucket (CachedBackend c) \<longleftrightarrow> dc_store c = s3_ops api gz bucket"
| "backend_ok api gz bucket _ \<longleftrightarrow> True"

lemma backend_contract:
  assumes "backend_ok api gz bucket b"
  shows "blobstore (backend_ops api gz b) (backend_view api obj gz bucket b)"
  using assms s3.cached_blobstore [of _ api gz bucket obj]
  by (cases b)
    (auto intro: disk.embedded s3.embedded blobstore.embedded embeddings)

interpretation service_disk: reliable_blobstore
    "backend_ops api gz (DiskBackend rootDir)" "backend_view api obj gz bucket (DiskBackend rootDir)"
    "\<lambda>s. disk_live rootDir (dc_fs s)"
    for api obj gz bucket rootDir
  unfolding backend_ops.simps backend_view.simps
  by (rule live_disk.embedded_reliable) (rule embeddings)

end
