(* ===== verification/Postgres.thy ===== *)
theory Postgres
  imports Indexer
begin

text \<open>
  The Postgres index, \<open>src/index/postgres/postgres.go\<close>.  The database and its driver are
  parameters: the calls of \<open>database/sql\<close> that the code makes, with statements as syntax trees (an
  SQL text up to white space) and their arguments.  What PostgreSQL documents about the statements
  of this shape is the hypothesis \<open>sql_lawful\<close>, over the rows of the table by primary key, the
  matching of \<open>ILIKE\<close> and the resolution of \<open>TIMESTAMPTZ\<close>.
\<close>

section \<open>Statements and the database\<close>

datatype sqlval = SqlText string | SqlBool bool | SqlInt int | SqlTime gotime

text \<open>Conditions of a \<open>WHERE\<close> clause over columns; the number is that of a placeholder \<open>$n\<close>.\<close>

datatype sql_cond =
    ILikeAny "string list" nat
  | Holds string
  | HoldsNot string
  | Equals string nat
  | Less string nat
  | AtLeast string nat

text \<open>
  \<open>Select cols conds order limit\<close> orders by a column, descending, and has its limit as a
  placeholder; \<open>InsertOnConflict cols key sets\<close> has one placeholder for each column and sets the
  columns \<open>sets\<close> to the excluded values when a row with the key exists.
\<close>

datatype sql_stmt =
    CreateTable string "(string \<times> string) list" "(string \<times> string) list"
  | InsertOnConflict string "string list" string "string list"
  | Select "string list" string "sql_cond list" "string option" "nat option"

record 'db sql_api =
  sql_Open :: "string \<Rightarrow> string \<Rightarrow> goerror option"
  sql_Ping :: "'db \<Rightarrow> goerror option \<times> 'db"
  sql_Exec :: "sql_stmt \<Rightarrow> sqlval list \<Rightarrow> 'db \<Rightarrow> goerror option \<times> 'db"
  sql_Query :: "sql_stmt \<Rightarrow> sqlval list \<Rightarrow> 'db \<Rightarrow> (goerror + sqlval list list \<times> goerror option) \<times> 'db"
  sql_Close :: "'db \<Rightarrow> goerror option \<times> 'db"

section \<open>Operations\<close>

definition listSeparator :: char where
  "listSeparator = CHR 0x1F"

definition schema :: sql_stmt where
  "schema =
     CreateTable ''invocations''
       [(''invocation_id'', ''TEXT PRIMARY KEY''),
        (''command'', ''TEXT''), (''pattern'', ''TEXT''), (''tags'', ''TEXT''),
        (''user_name'', ''TEXT''), (''host'', ''TEXT''), (''role'', ''TEXT''),
        (''repo_url'', ''TEXT''), (''branch_name'', ''TEXT''), (''commit_sha'', ''TEXT''),
        (''parent_run_id'', ''TEXT''), (''run_id'', ''TEXT''), (''success'', ''BOOLEAN''),
        (''bazel_exit_code'', ''TEXT''), (''duration_usec'', ''BIGINT''),
        (''action_count'', ''BIGINT''), (''created_at'', ''TIMESTAMPTZ''),
        (''updated_at'', ''TIMESTAMPTZ'')]
       [(''invocations_created_at_idx'', ''created_at DESC''),
        (''invocations_repo_url_idx'', ''repo_url''),
        (''invocations_user_name_idx'', ''user_name'')]"

definition pg_New :: "'db sql_api \<Rightarrow> string \<Rightarrow> 'db \<Rightarrow> goerror option \<times> 'db" where
  "pg_New api dsn db =
     (case sql_Open api ''pgx'' dsn of
        Some e \<Rightarrow> (Some (WrapErr ''open postgres'' [] e), db)
      | None \<Rightarrow>
          (case sql_Ping api db of
             (Some e, db1) \<Rightarrow> (Some (WrapErr ''ping postgres'' [] e), db1)
           | (None, db1) \<Rightarrow>
               (case sql_Exec api schema [] db1 of
                  (Some e, db2) \<Rightarrow> (Some (WrapErr ''migrate schema'' [] e), db2)
                | (None, db2) \<Rightarrow> (None, db2))))"

definition pg_Close :: "'db sql_api \<Rightarrow> 'db \<Rightarrow> goerror option \<times> 'db" where
  "pg_Close api db = sql_Close api db"

text \<open>The columns, in the order in which both the insert and the selection name them.\<close>

definition selectColumns :: "string list" where
  "selectColumns =
     [''invocation_id'', ''command'', ''pattern'', ''tags'', ''user_name'', ''host'', ''role'',
      ''repo_url'', ''branch_name'', ''commit_sha'', ''parent_run_id'', ''run_id'',
      ''success'', ''bazel_exit_code'', ''duration_usec'', ''action_count'',
      ''created_at'', ''updated_at'']"

definition upsert_stmt :: sql_stmt where
  "upsert_stmt =
     InsertOnConflict ''invocations''
       [''invocation_id'', ''command'', ''pattern'', ''tags'', ''user_name'', ''host'', ''role'',
        ''repo_url'', ''branch_name'', ''commit_sha'', ''parent_run_id'', ''run_id'',
        ''success'', ''bazel_exit_code'', ''duration_usec'', ''action_count'',
        ''created_at'', ''updated_at'']
       ''invocation_id''
       [''command'', ''pattern'', ''tags'', ''user_name'', ''host'', ''role'', ''repo_url'',
        ''branch_name'', ''commit_sha'', ''parent_run_id'', ''run_id'', ''success'',
        ''bazel_exit_code'', ''duration_usec'', ''action_count'', ''updated_at'']"

definition upsert_args :: "Record \<Rightarrow> sqlval list" where
  "upsert_args rec =
     [SqlText (InvocationID rec), SqlText (Command rec),
      SqlText (Join (Pattern rec) [listSeparator]), SqlText (Join (Tags rec) [listSeparator]),
      SqlText (User rec), SqlText (Host rec), SqlText (Role rec),
      SqlText (RepoURL rec), SqlText (BranchName rec), SqlText (CommitSHA rec),
      SqlText (ParentRunID rec), SqlText (RunID rec),
      SqlBool (Success rec), SqlText (BazelExitCode rec), SqlInt (DurationUsec rec),
      SqlInt (ActionCount rec), SqlTime (CreatedAt rec), SqlTime (UpdatedAt rec)]"

definition pg_Upsert :: "'db sql_api \<Rightarrow> Record \<Rightarrow> 'db \<Rightarrow> goerror option \<times> 'db" where
  "pg_Upsert api rec db =
     (case sql_Exec api upsert_stmt (upsert_args rec) db of
        (Some e, db') \<Rightarrow> (Some (WrapErr ''upsert invocation %q'' [InvocationID rec] e), db')
      | (None, db') \<Rightarrow> (None, db'))"

text \<open>
  \<open>scanRecord\<close>: the columns of a row into a record.  \<open>Scan\<close> fails when the number of columns or the
  type of one does not fit.
\<close>

definition split_column :: "string \<Rightarrow> string list" where
  "split_column s = (if s \<noteq> [] then Split s listSeparator else [])"

fun text_of :: "sqlval \<Rightarrow> string" where
  "text_of (SqlText s) = s"
| "text_of _ = []"

fun bool_of :: "sqlval \<Rightarrow> bool" where
  "bool_of (SqlBool b) = b"
| "bool_of _ = False"

fun int_of_sql :: "sqlval \<Rightarrow> int" where
  "int_of_sql (SqlInt i) = i"
| "int_of_sql _ = 0"

fun time_of :: "sqlval \<Rightarrow> gotime" where
  "time_of (SqlTime t) = t"
| "time_of _ = 0"

datatype scan_dest = DestString | DestBool | DestInt64 | DestTime

fun converts :: "sqlval \<Rightarrow> scan_dest \<Rightarrow> bool" where
  "converts (SqlText s) d \<longleftrightarrow> d = DestString"
| "converts (SqlBool b) d \<longleftrightarrow> d = DestBool"
| "converts (SqlInt i) d \<longleftrightarrow> d = DestInt64"
| "converts (SqlTime t) d \<longleftrightarrow> d = DestTime"

definition scan_dests :: "scan_dest list" where
  "scan_dests =
     [DestString, DestString, DestString, DestString, DestString, DestString, DestString,
      DestString, DestString, DestString, DestString, DestString,
      DestBool, DestString, DestInt64, DestInt64, DestTime, DestTime]"

definition scanRecord :: "sqlval list \<Rightarrow> goerror + Record" where
  "scanRecord row =
     (if \<not> list_all2 converts row scan_dests then Inl (Errorf ''sql: Scan error'' [])
      else Inr
        \<lparr>InvocationID = text_of (row ! 0), Host = text_of (row ! 5), User = text_of (row ! 4),
         Role = text_of (row ! 6), RepoURL = text_of (row ! 7), BranchName = text_of (row ! 8),
         CommitSHA = text_of (row ! 9), Command = text_of (row ! 1),
         Pattern = split_column (text_of (row ! 2)), Tags = split_column (text_of (row ! 3)),
         ParentRunID = text_of (row ! 10), RunID = text_of (row ! 11),
         Success = bool_of (row ! 12), BazelExitCode = text_of (row ! 13),
         DurationUsec = int_of_sql (row ! 14), ActionCount = int_of_sql (row ! 15),
         CreatedAt = time_of (row ! 16), UpdatedAt = time_of (row ! 17)\<rparr>)"

text \<open>
  \<open>QueryRowContext\<close> and \<open>Row.Scan\<close>: the first row, \<open>sql.ErrNoRows\<close> when there is none; the rows are
  then read to their end, and an error on the way is reported by closing them.
\<close>

datatype row_result = ErrNoRows | RowErr goerror | RowOk Record

definition queryRow ::
  "'db sql_api \<Rightarrow> sql_stmt \<Rightarrow> sqlval list \<Rightarrow> 'db \<Rightarrow> row_result \<times> 'db" where
  "queryRow api q args db =
     (case sql_Query api q args db of
        (Inl e, db') \<Rightarrow> (RowErr e, db')
      | (Inr ([], Some e), db') \<Rightarrow> (RowErr e, db')
      | (Inr ([], None), db') \<Rightarrow> (ErrNoRows, db')
      | (Inr (row # rows, err), db') \<Rightarrow>
          (case scanRecord row of
             Inl e \<Rightarrow> (RowErr e, db')
           | Inr rec \<Rightarrow> (case err of Some e \<Rightarrow> RowErr e | None \<Rightarrow> RowOk rec, db')))"

definition pg_Get :: "'db sql_api \<Rightarrow> string \<Rightarrow> 'db \<Rightarrow> (goerror + Record option) \<times> 'db" where
  "pg_Get api invocationID db =
     (case queryRow api
             (Select selectColumns ''invocations'' [Equals ''invocation_id'' 1] None None)
             [SqlText invocationID] db of
        (ErrNoRows, db') \<Rightarrow> (Inr None, db')
      | (RowErr e, db') \<Rightarrow> (Inl (WrapErr ''get invocation %q'' [invocationID] e), db')
      | (RowOk rec, db') \<Rightarrow> (Inr (Some rec), db'))"

text \<open>The argument list and the conditions grow together: a condition names the last argument.\<close>

definition append_arg ::
  "sqlval \<Rightarrow> (nat \<Rightarrow> sql_cond) \<Rightarrow> sqlval list \<times> sql_cond list \<Rightarrow> sqlval list \<times> sql_cond list" where
  "append_arg v cond aw = (fst aw @ [v], snd aw @ [cond (length (fst aw) + 1)])"

definition searchColumns :: "string list" where
  "searchColumns =
     [''command'', ''pattern'', ''repo_url'', ''branch_name'', ''user_name'', ''commit_sha'']"

definition query_cond ::
  "ListOptions \<Rightarrow> sqlval list \<times> sql_cond list \<Rightarrow> sqlval list \<times> sql_cond list" where
  "query_cond opts aw =
     (if Query opts \<noteq> []
      then append_arg (SqlText (''%'' @ Query opts @ ''%'')) (ILikeAny searchColumns) aw else aw)"

definition status_cond ::
  "ListOptions \<Rightarrow> sqlval list \<times> sql_cond list \<Rightarrow> sqlval list \<times> sql_cond list" where
  "status_cond opts aw =
     (if Status opts = ''success'' then (fst aw, snd aw @ [Holds ''success''])
      else if Status opts = ''failure'' then (fst aw, snd aw @ [HoldsNot ''success''])
      else aw)"

definition time_cond ::
  "gotime option \<Rightarrow> (nat \<Rightarrow> sql_cond) \<Rightarrow> sqlval list \<times> sql_cond list \<Rightarrow>
   sqlval list \<times> sql_cond list" where
  "time_cond t cond aw = (case t of Some x \<Rightarrow> append_arg (SqlTime x) cond aw | None \<Rightarrow> aw)"

definition list_conds :: "ListOptions \<Rightarrow> sqlval list \<times> sql_cond list" where
  "list_conds opts =
     time_cond (Until opts) (Less ''created_at'')
       (time_cond (Since opts) (AtLeast ''created_at'')
         (time_cond (Before opts) (Less ''created_at'')
           (status_cond opts (query_cond opts ([], [])))))"

fun scan_rows :: "sqlval list list \<Rightarrow> Record list \<Rightarrow> goerror + Record list" where
  "scan_rows [] out = Inr out"
| "scan_rows (row # rows) out =
     (case scanRecord row of
        Inl e \<Rightarrow> Inl (WrapErr ''scan invocation'' [] e)
      | Inr rec \<Rightarrow> scan_rows rows (out @ [rec]))"

text \<open>The last arguments are the limit; an error while the rows are read is the error of the call.\<close>

definition pg_List :: "'db sql_api \<Rightarrow> ListOptions \<Rightarrow> 'db \<Rightarrow> (goerror + Record list) \<times> 'db" where
  "pg_List api opts db =
     (let (args, conds) = list_conds opts;
          limit = (if Limit opts \<le> 0 then 50 else Limit opts);
          args' = args @ [SqlInt limit]
      in case sql_Query api
                (Select selectColumns ''invocations'' conds (Some ''created_at'')
                   (Some (length args'))) args' db of
           (Inl e, db') \<Rightarrow> (Inl (WrapErr ''list invocations'' [] e), db')
         | (Inr (rows, err), db') \<Rightarrow>
             (case scan_rows rows [] of
                Inl e \<Rightarrow> (Inl e, db')
              | Inr out \<Rightarrow> (case err of Some e \<Rightarrow> (Inl e, db') | None \<Rightarrow> (Inr out, db'))))"

definition pg_indexer :: "'db sql_api \<Rightarrow> 'db Indexer" where
  "pg_indexer api =
     \<lparr>ix_Upsert = pg_Upsert api, ix_Get = pg_Get api, ix_List = pg_List api\<rparr>"

section \<open>What the database documents\<close>

type_synonym sqlrow = "string \<rightharpoonup> sqlval"

text \<open>A time is stored, and compared, with the resolution of the column type.\<close>

fun to_pg :: "(gotime \<Rightarrow> gotime) \<Rightarrow> sqlval \<Rightarrow> sqlval" where
  "to_pg pgt (SqlTime t) = SqlTime (pgt t)"
| "to_pg pgt v = v"

definition arg_at :: "(gotime \<Rightarrow> gotime) \<Rightarrow> sqlval list \<Rightarrow> nat \<Rightarrow> sqlval" where
  "arg_at pgt args n = to_pg pgt (args ! (n - 1))"

fun ilike_val :: "(string \<Rightarrow> string \<Rightarrow> bool) \<Rightarrow> sqlval option \<Rightarrow> sqlval \<Rightarrow> bool" where
  "ilike_val ilike (Some (SqlText s)) (SqlText p) = ilike s p"
| "ilike_val ilike _ _ = False"

fun time_cmp :: "(gotime \<Rightarrow> gotime \<Rightarrow> bool) \<Rightarrow> sqlval option \<Rightarrow> sqlval \<Rightarrow> bool" where
  "time_cmp cmp (Some (SqlTime a)) (SqlTime b) = cmp a b"
| "time_cmp cmp _ _ = False"

fun cond_holds ::
  "(string \<Rightarrow> string \<Rightarrow> bool) \<Rightarrow> (gotime \<Rightarrow> gotime) \<Rightarrow> sqlval list \<Rightarrow> sqlrow \<Rightarrow> sql_cond \<Rightarrow> bool" where
  "cond_holds ilike pgt args row (ILikeAny cols n) =
     list_ex (\<lambda>c. ilike_val ilike (row c) (arg_at pgt args n)) cols"
| "cond_holds ilike pgt args row (Holds c) \<longleftrightarrow> row c = Some (SqlBool True)"
| "cond_holds ilike pgt args row (HoldsNot c) \<longleftrightarrow> row c = Some (SqlBool False)"
| "cond_holds ilike pgt args row (Equals c n) \<longleftrightarrow> row c = Some (arg_at pgt args n)"
| "cond_holds ilike pgt args row (Less c n) = time_cmp (<) (row c) (arg_at pgt args n)"
| "cond_holds ilike pgt args row (AtLeast c n) = time_cmp (\<ge>) (row c) (arg_at pgt args n)"

definition insert_row :: "(gotime \<Rightarrow> gotime) \<Rightarrow> string list \<Rightarrow> sqlval list \<Rightarrow> sqlrow" where
  "insert_row pgt cols args = map_of (zip cols (map (to_pg pgt) args))"

definition project :: "string list \<Rightarrow> sqlrow \<Rightarrow> sqlval list" where
  "project cols row = map (\<lambda>c. the (row c)) cols"

fun limit_rows :: "nat option \<Rightarrow> sqlval list \<Rightarrow> 'a list \<Rightarrow> 'a list" where
  "limit_rows None args xs = xs"
| "limit_rows (Some n) args xs = (case args ! (n - 1) of SqlInt k \<Rightarrow> take (nat k) xs | _ \<Rightarrow> xs)"

fun descending :: "string option \<Rightarrow> sqlrow list \<Rightarrow> bool" where
  "descending None rows = True"
| "descending (Some c) rows =
     sorted_wrt (\<lambda>a b. \<forall>x y. a c = Some (SqlTime x) \<longrightarrow> b c = Some (SqlTime y) \<longrightarrow> y \<le> x) rows"

text \<open>
  \<open>tbl\<close> is the content of the table \<open>invocations\<close> by primary key.  A successful insert adds the row
  or, on conflict, overwrites the named columns of the old one; no insert touches another row.  A
  query changes nothing, and one that succeeds yields the rows that satisfy its conditions, ordered
  and limited as it says.
\<close>

definition sql_lawful ::
  "'db sql_api \<Rightarrow> ('db \<Rightarrow> string \<rightharpoonup> sqlrow) \<Rightarrow> (string \<Rightarrow> string \<Rightarrow> bool) \<Rightarrow> (gotime \<Rightarrow> gotime) \<Rightarrow> bool" where
  "sql_lawful api tbl ilike pgt \<longleftrightarrow>
     (\<forall>cols key sets args db e db' k.
        sql_Exec api (InsertOnConflict ''invocations'' cols key sets) args db = (e, db') \<longrightarrow>
        insert_row pgt cols args key = Some (SqlText k) \<longrightarrow>
        (\<forall>i. i \<noteq> k \<longrightarrow> tbl db' i = tbl db i) \<and>
        (e = None \<longrightarrow> tbl db' k = Some (case tbl db k of
             None \<Rightarrow> insert_row pgt cols args
           | Some old \<Rightarrow> old ++ (insert_row pgt cols args |` set sets))) \<and>
        (e \<noteq> None \<longrightarrow> tbl db' k = tbl db k \<or> tbl db' k = Some (case tbl db k of
             None \<Rightarrow> insert_row pgt cols args
           | Some old \<Rightarrow> old ++ (insert_row pgt cols args |` set sets)))) \<and>
     (\<forall>cols conds ord lim args db r db'.
        sql_Query api (Select cols ''invocations'' conds ord lim) args db = (r, db') \<longrightarrow>
        tbl db' = tbl db \<and>
        (\<forall>rows. r = Inr (rows, None) \<longrightarrow>
           (\<exists>ks. distinct ks \<and>
              set ks = {k. \<exists>row. tbl db k = Some row \<and> list_all (cond_holds ilike pgt args row) conds} \<and>
              descending ord (map (\<lambda>k. the (tbl db k)) ks) \<and>
              rows = limit_rows lim args (map (\<lambda>k. project cols (the (tbl db k))) ks)))) \<and>
     (\<forall>t. pgt (pgt t) = pgt t) \<and> (\<forall>t u. t \<le> u \<longrightarrow> pgt t \<le> pgt u)"

section \<open>Rows and records\<close>

definition row_of :: "(gotime \<Rightarrow> gotime) \<Rightarrow> Record \<Rightarrow> sqlrow" where
  "row_of pgt r = insert_row pgt selectColumns (upsert_args r)"

text \<open>What the columns keep of a record.\<close>

definition kept_record :: "(gotime \<Rightarrow> gotime) \<Rightarrow> Record \<Rightarrow> Record" where
  "kept_record pgt r =
     r\<lparr>Pattern := split_column (Join (Pattern r) [listSeparator]),
       Tags := split_column (Join (Tags r) [listSeparator]),
       CreatedAt := pgt (CreatedAt r), UpdatedAt := pgt (UpdatedAt r)\<rparr>"

definition record_of :: "sqlrow \<Rightarrow> Record" where
  "record_of row = projr (scanRecord (project selectColumns row))"

lemma row_of_columns:
  "row_of pgt r =
    [''invocation_id'' \<mapsto> SqlText (InvocationID r), ''command'' \<mapsto> SqlText (Command r),
     ''pattern'' \<mapsto> SqlText (Join (Pattern r) [listSeparator]),
     ''tags'' \<mapsto> SqlText (Join (Tags r) [listSeparator]),
     ''user_name'' \<mapsto> SqlText (User r), ''host'' \<mapsto> SqlText (Host r), ''role'' \<mapsto> SqlText (Role r),
     ''repo_url'' \<mapsto> SqlText (RepoURL r), ''branch_name'' \<mapsto> SqlText (BranchName r),
     ''commit_sha'' \<mapsto> SqlText (CommitSHA r), ''parent_run_id'' \<mapsto> SqlText (ParentRunID r),
     ''run_id'' \<mapsto> SqlText (RunID r), ''success'' \<mapsto> SqlBool (Success r),
     ''bazel_exit_code'' \<mapsto> SqlText (BazelExitCode r), ''duration_usec'' \<mapsto> SqlInt (DurationUsec r),
     ''action_count'' \<mapsto> SqlInt (ActionCount r), ''created_at'' \<mapsto> SqlTime (pgt (CreatedAt r)),
     ''updated_at'' \<mapsto> SqlTime (pgt (UpdatedAt r))]"
  unfolding row_of_def insert_row_def selectColumns_def upsert_args_def
  by (simp add: fun_upd_twist)

lemma row_of_at [simp]:
  "row_of pgt r ''invocation_id'' = Some (SqlText (InvocationID r))"
  "row_of pgt r ''created_at'' = Some (SqlTime (pgt (CreatedAt r)))"
  by (simp_all add: row_of_columns)

lemma project_row:
  "project selectColumns (row_of pgt r) = map (to_pg pgt) (upsert_args r)"
  by (simp add: row_of_columns project_def selectColumns_def upsert_args_def)

lemma scan_row: "scanRecord (project selectColumns (row_of pgt r)) = Inr (kept_record pgt r)"
  unfolding project_row
  by (simp add: upsert_args_def scanRecord_def scan_dests_def kept_record_def)

lemma record_of_row [simp]: "record_of (row_of pgt r) = kept_record pgt r"
  by (simp add: record_of_def scan_row)

text \<open>On a conflict every column but the key and the creation time is taken from the new record.\<close>

lemma conflict_row:
  assumes "InvocationID r = InvocationID old"
  shows "row_of pgt old ++
      (row_of pgt r |` set [''command'', ''pattern'', ''tags'', ''user_name'', ''host'', ''role'',
        ''repo_url'', ''branch_name'', ''commit_sha'', ''parent_run_id'', ''run_id'', ''success'',
        ''bazel_exit_code'', ''duration_usec'', ''action_count'', ''updated_at'']) =
    row_of pgt (r\<lparr>CreatedAt := CreatedAt old\<rparr>)"
proof
  fix c
  show "(row_of pgt old ++
      (row_of pgt r |` set [''command'', ''pattern'', ''tags'', ''user_name'', ''host'', ''role'',
        ''repo_url'', ''branch_name'', ''commit_sha'', ''parent_run_id'', ''run_id'', ''success'',
        ''bazel_exit_code'', ''duration_usec'', ''action_count'', ''updated_at''])) c =
    row_of pgt (r\<lparr>CreatedAt := CreatedAt old\<rparr>) c"
  proof (cases "c \<in> set selectColumns")
    case True
    then show ?thesis
      unfolding selectColumns_def using assms
      by (simp only: set_simps insert_iff empty_iff) 
        (elim disjE FalseE; simp add: row_of_columns map_add_def restrict_map_def)
  next
    case False
    then have "row_of pgt q c = None" for q
      by (simp add: row_of_columns selectColumns_def)
    then show ?thesis by (simp add: map_add_def restrict_map_def)
  qed
qed

lemma kept_record_simps [simp]:
  "InvocationID (kept_record pgt r) = InvocationID r"
  "CreatedAt (kept_record pgt r) = pgt (CreatedAt r)"
  by (simp_all add: kept_record_def)

lemma kept_record_created:
  "kept_record pgt (r\<lparr>CreatedAt := t\<rparr>) = (kept_record pgt r)\<lparr>CreatedAt := pgt t\<rparr>"
  by (simp add: kept_record_def)

lemma Join_split_column [simp]: "Join (split_column s) [listSeparator] = s"
  by (simp add: split_column_def)

section \<open>The conditions of a listing\<close>

text \<open>Which records a listing selects, over the records as they are kept.\<close>

definition search_texts :: "Record \<Rightarrow> string list" where
  "search_texts r =
     [Command r, Join (Pattern r) [listSeparator], RepoURL r, BranchName r, User r, CommitSHA r]"

definition pg_matches ::
  "(string \<Rightarrow> string \<Rightarrow> bool) \<Rightarrow> (gotime \<Rightarrow> gotime) \<Rightarrow> ListOptions \<Rightarrow> Record \<Rightarrow> bool" where
  "pg_matches ilike pgt opts r \<longleftrightarrow>
     (Query opts \<noteq> [] \<longrightarrow> list_ex (\<lambda>s. ilike s (''%'' @ Query opts @ ''%'')) (search_texts r)) \<and>
     (Status opts = ''success'' \<longrightarrow> Success r) \<and> (Status opts = ''failure'' \<longrightarrow> \<not> Success r) \<and>
     (\<forall>t. Before opts = Some t \<longrightarrow> CreatedAt r < pgt t) \<and>
     (\<forall>t. Since opts = Some t \<longrightarrow> pgt t \<le> CreatedAt r) \<and>
     (\<forall>t. Until opts = Some t \<longrightarrow> CreatedAt r < pgt t)"

text \<open>
  The placeholders of the conditions stay within the arguments as both grow, so a later argument
  changes no earlier condition.
\<close>

fun placeholder :: "sql_cond \<Rightarrow> nat" where
  "placeholder (ILikeAny cols n) = n"
| "placeholder (Equals c n) = n"
| "placeholder (Less c n) = n"
| "placeholder (AtLeast c n) = n"
| "placeholder _ = 1"

definition numbered :: "sqlval list \<times> sql_cond list \<Rightarrow> bool" where
  "numbered aw \<longleftrightarrow>
     (\<forall>c \<in> set (snd aw). 0 < placeholder c \<and> (placeholder c \<le> length (fst aw) \<or>
        (\<exists>x. c = Holds x \<or> c = HoldsNot x)))"

definition all_hold ::
  "(string \<Rightarrow> string \<Rightarrow> bool) \<Rightarrow> (gotime \<Rightarrow> gotime) \<Rightarrow> sqlrow \<Rightarrow> sqlval list \<times> sql_cond list \<Rightarrow> bool" where
  "all_hold ilike pgt row aw \<longleftrightarrow> list_all (cond_holds ilike pgt (fst aw) row) (snd aw)"

lemma arg_at_append [simp]:
  "0 < n \<Longrightarrow> n \<le> length args \<Longrightarrow> arg_at pgt (args @ vs) n = arg_at pgt args n"
  by (cases n) (auto simp: arg_at_def nth_append)

lemma arg_at_last [simp]: "arg_at pgt (args @ [v]) (Suc (length args)) = to_pg pgt v"
  by (simp add: arg_at_def)

lemma cond_holds_append:
  assumes "0 < placeholder c" "placeholder c \<le> length args \<or> (\<exists>x. c = Holds x \<or> c = HoldsNot x)"
  shows "cond_holds ilike pgt (args @ vs) row c = cond_holds ilike pgt args row c"
  using assms by (cases c) auto

lemma numbered_more:
  assumes "numbered aw"
  shows "list_all (cond_holds ilike pgt (fst aw @ vs) row) (snd aw) = all_hold ilike pgt row aw"
  using assms cond_holds_append [of _ "fst aw" ilike pgt vs row]
  by (auto simp: numbered_def all_hold_def list_all_iff)

lemma append_arg_step:
  assumes "numbered aw" "placeholder (cond (length (fst aw) + 1)) = length (fst aw) + 1"
  shows "numbered (append_arg v cond aw)"
    and "all_hold ilike pgt row (append_arg v cond aw) \<longleftrightarrow>
      all_hold ilike pgt row aw \<and>
      cond_holds ilike pgt (fst aw @ [v]) row (cond (length (fst aw) + 1))"
  using assms numbered_more [OF assms(1), of ilike pgt "[v]" row]
  by (auto simp: numbered_def append_arg_def all_hold_def)

lemma query_cond_step:
  assumes "numbered aw"
  shows "numbered (query_cond opts aw)"
    and "all_hold ilike pgt (row_of pgt r) (query_cond opts aw) \<longleftrightarrow>
      all_hold ilike pgt (row_of pgt r) aw \<and>
      (Query opts \<noteq> [] \<longrightarrow> list_ex (\<lambda>s. ilike s (''%'' @ Query opts @ ''%'')) (search_texts r))"
  using append_arg_step [OF assms, of "ILikeAny searchColumns"] assms
  by (auto simp: query_cond_def searchColumns_def row_of_columns search_texts_def)

lemma status_cond_step:
  assumes "numbered aw"
  shows "numbered (status_cond opts aw)"
    and "all_hold ilike pgt (row_of pgt r) (status_cond opts aw) \<longleftrightarrow>
      all_hold ilike pgt (row_of pgt r) aw \<and>
      (Status opts = ''success'' \<longrightarrow> Success r) \<and> (Status opts = ''failure'' \<longrightarrow> \<not> Success r)"
  using assms by (auto simp: status_cond_def all_hold_def numbered_def row_of_columns)

lemma time_cond_step:
  assumes "numbered aw" "mk = Less \<and> cmp = (<) \<or> mk = AtLeast \<and> cmp = (\<ge>)"
  shows "numbered (time_cond t (mk ''created_at'') aw)"
    and "all_hold ilike pgt (row_of pgt r) (time_cond t (mk ''created_at'') aw) \<longleftrightarrow>
      all_hold ilike pgt (row_of pgt r) aw \<and>
      (\<forall>x. t = Some x \<longrightarrow> cmp (pgt (CreatedAt r)) (pgt x))"
  using append_arg_step [OF assms(1), of "mk ''created_at''"] assms
  by (auto simp: time_cond_def row_of_columns split: option.splits)

lemma list_conds_hold:
  "numbered (list_conds opts)"
  "all_hold ilike pgt (row_of pgt r) (list_conds opts) \<longleftrightarrow> pg_matches ilike pgt opts (kept_record pgt r)"
proof -
  have "numbered ([], [])" by (simp add: numbered_def)
  note q = query_cond_step [OF this, where opts = opts]
  note s = status_cond_step [OF q(1), where opts = opts]
  note b = time_cond_step [OF s(1), where mk = Less and cmp = "(<)" and t = "Before opts", simplified]
  note c = time_cond_step [OF b(1), where mk = AtLeast and cmp = "(\<ge>)" and t = "Since opts", simplified]
  note u = time_cond_step [OF c(1), where mk = Less and cmp = "(<)" and t = "Until opts", simplified]
  show "numbered (list_conds opts)" using u(1) by (simp add: list_conds_def)
  have "all_hold ilike pgt (row_of pgt r) ([], [])" by (simp add: all_hold_def)
  then show "all_hold ilike pgt (row_of pgt r) (list_conds opts) \<longleftrightarrow>
      pg_matches ilike pgt opts (kept_record pgt r)"
    unfolding list_conds_def u(2) c(2) b(2) s(2) q(2)
    by (simp add: pg_matches_def search_texts_def kept_record_def conj_ac)
qed

section \<open>The contract\<close>

definition pg_view ::
  "'db sql_api \<Rightarrow> ('db \<Rightarrow> string \<rightharpoonup> sqlrow) \<Rightarrow> (string \<Rightarrow> string \<Rightarrow> bool) \<Rightarrow> (gotime \<Rightarrow> gotime) \<Rightarrow>
   'db index_view" where
  "pg_view api tbl ilike pgt =
     \<lparr>xv_inv = (\<lambda>db. sql_lawful api tbl ilike pgt \<and>
        (\<forall>k row. tbl db k = Some row \<longrightarrow> (\<exists>r. InvocationID r = k \<and> row = row_of pgt r))),
      xv_recs = (\<lambda>db k. map_option record_of (tbl db k)),
      xv_kept = (\<lambda>db. kept_record pgt),
      xv_matches = (\<lambda>db. pg_matches ilike pgt)\<rparr>"

lemma pg_view_simps [simp]:
  "xv_inv (pg_view api tbl ilike pgt) db \<longleftrightarrow> sql_lawful api tbl ilike pgt \<and>
     (\<forall>k row. tbl db k = Some row \<longrightarrow> (\<exists>r. InvocationID r = k \<and> row = row_of pgt r))"
  "xv_recs (pg_view api tbl ilike pgt) db k = map_option record_of (tbl db k)"
  "xv_kept (pg_view api tbl ilike pgt) db = kept_record pgt"
  "xv_matches (pg_view api tbl ilike pgt) db = pg_matches ilike pgt"
  by (simp_all add: pg_view_def)

lemma pg_indexer_simps [simp]:
  "ix_Upsert (pg_indexer api) = pg_Upsert api" "ix_Get (pg_indexer api) = pg_Get api"
  "ix_List (pg_indexer api) = pg_List api"
  by (simp_all add: pg_indexer_def)

lemma sql_insert:
  assumes "sql_lawful api tbl ilike pgt"
    and "sql_Exec api (InsertOnConflict ''invocations'' cols key sets) args db = (e, db')"
    and "insert_row pgt cols args key = Some (SqlText k)"
  shows "i \<noteq> k \<Longrightarrow> tbl db' i = tbl db i"
    and "e = None \<Longrightarrow> tbl db' k = Some (case tbl db k of None \<Rightarrow> insert_row pgt cols args
           | Some old \<Rightarrow> old ++ (insert_row pgt cols args |` set sets))"
    and "tbl db' k = tbl db k \<or> tbl db' k = Some (case tbl db k of None \<Rightarrow> insert_row pgt cols args
           | Some old \<Rightarrow> old ++ (insert_row pgt cols args |` set sets))"
  using assms(1) [unfolded sql_lawful_def, THEN conjunct1, rule_format, OF assms(2,3)] by auto

lemma sql_select:
  assumes "sql_lawful api tbl ilike pgt"
    and "sql_Query api (Select cols ''invocations'' conds ord lim) args db = (r, db')"
  shows "tbl db' = tbl db"
    and "r = Inr (rows, None) \<Longrightarrow>
      \<exists>ks. distinct ks \<and>
        set ks = {k. \<exists>row. tbl db k = Some row \<and> list_all (cond_holds ilike pgt args row) conds} \<and>
        descending ord (map (\<lambda>k. the (tbl db k)) ks) \<and>
        rows = limit_rows lim args (map (\<lambda>k. project cols (the (tbl db k))) ks)"
  using assms(1) [unfolded sql_lawful_def, THEN conjunct2, THEN conjunct1, rule_format,
      OF assms(2)] by auto

lemma pg_Upsert_table:
  assumes "xv_inv (pg_view api tbl ilike pgt) db" "pg_Upsert api rec db = (e, db')"
  defines "row \<equiv> row_of pgt (case tbl db (InvocationID rec) of None \<Rightarrow> rec
      | Some old \<Rightarrow> rec\<lparr>CreatedAt := CreatedAt (record_of old)\<rparr>)"
  shows "i \<noteq> InvocationID rec \<Longrightarrow> tbl db' i = tbl db i"
    and "e = None \<Longrightarrow> tbl db' (InvocationID rec) = Some row"
    and "tbl db' (InvocationID rec) = tbl db (InvocationID rec) \<or>
      tbl db' (InvocationID rec) = Some row"
proof -
  let ?sets = "[''command'', ''pattern'', ''tags'', ''user_name'', ''host'', ''role'',
    ''repo_url'', ''branch_name'', ''commit_sha'', ''parent_run_id'', ''run_id'', ''success'',
    ''bazel_exit_code'', ''duration_usec'', ''action_count'', ''updated_at'']"
  from assms(1) have l: "sql_lawful api tbl ilike pgt" by simp
  then have pp: "pgt (pgt t) = pgt t" for t by (simp add: sql_lawful_def)
  obtain e' where x: "sql_Exec api upsert_stmt (upsert_args rec) db = (e', db')" "e' = None \<longleftrightarrow> e = None"
    using assms(2) by (auto simp: pg_Upsert_def split: prod.splits option.splits)
  have key: "insert_row pgt selectColumns (upsert_args rec) ''invocation_id'' =
      Some (SqlText (InvocationID rec))"
    using row_of_columns [of pgt rec] by (simp add: row_of_def)
  have r: "(case tbl db (InvocationID rec) of None \<Rightarrow> insert_row pgt selectColumns (upsert_args rec)
      | Some old \<Rightarrow> old ++ (insert_row pgt selectColumns (upsert_args rec) |` set ?sets)) = row"
  proof (cases "tbl db (InvocationID rec)")
    case (Some old)
    then obtain o1 where o1: "InvocationID o1 = InvocationID rec" "old = row_of pgt o1"
      using assms(1) by auto
    have "row_of pgt (rec\<lparr>CreatedAt := pgt (CreatedAt o1)\<rparr>) = row_of pgt (rec\<lparr>CreatedAt := CreatedAt o1\<rparr>)"
      by (simp add: row_of_columns pp)
    with Some o1 conflict_row [of rec o1 pgt] show ?thesis
      unfolding row_of_def [of pgt rec, symmetric] row_def by simp
  qed (simp add: row_def row_of_def)
  note ins = sql_insert [OF l x(1) [unfolded upsert_stmt_def, folded selectColumns_def] key, unfolded r]
  show "i \<noteq> InvocationID rec \<Longrightarrow> tbl db' i = tbl db i" by (rule ins(1))
  show "e = None \<Longrightarrow> tbl db' (InvocationID rec) = Some row" using ins(2) x(2) by simp
  show "tbl db' (InvocationID rec) = tbl db (InvocationID rec) \<or>
      tbl db' (InvocationID rec) = Some row" by (rule ins(3))
qed

lemma pg_Upsert_law:
  assumes "xv_inv (pg_view api tbl ilike pgt) db" "pg_Upsert api rec db = (e, db')"
  shows "xv_inv (pg_view api tbl ilike pgt) db'"
    and "i \<noteq> InvocationID rec \<Longrightarrow> tbl db' i = tbl db i"
    and "e = None \<Longrightarrow> map_option record_of (tbl db' (InvocationID rec)) =
      Some (upserted (kept_record pgt) (map_option record_of (tbl db (InvocationID rec))) rec)"
proof -
  note t = pg_Upsert_table [OF assms]
  from assms(1) have pp: "pgt (pgt t) = pgt t" for t by (simp add: sql_lawful_def)
  show "i \<noteq> InvocationID rec \<Longrightarrow> tbl db' i = tbl db i" by (rule t(1))
  show "xv_inv (pg_view api tbl ilike pgt) db'"
    unfolding pg_view_simps
  proof (intro conjI allI impI)
    show "sql_lawful api tbl ilike pgt" using assms(1) by simp
    fix k row assume k: "tbl db' k = Some row"
    show "\<exists>r. InvocationID r = k \<and> row = row_of pgt r"
    proof (cases "k = InvocationID rec")
      case False
      with k t(1) assms(1) show ?thesis by simp
    next
      case True
      from t(3) True k consider "tbl db k = Some row" | "row = row_of pgt rec"
        | c where "row = row_of pgt (rec\<lparr>CreatedAt := c\<rparr>)"
        by (auto split: option.splits)
      then show ?thesis
      proof cases
        case 1
        with assms(1) show ?thesis by simp
      next
        case 2
        with True show ?thesis by blast
      next
        case 3
        with True show ?thesis by (intro exI [of _ "rec\<lparr>CreatedAt := c\<rparr>"]) simp
      qed
    qed
  qed
  assume e: "e = None"
  show "map_option record_of (tbl db' (InvocationID rec)) =
      Some (upserted (kept_record pgt) (map_option record_of (tbl db (InvocationID rec))) rec)"
  proof (cases "tbl db (InvocationID rec)")
    case (Some old)
    then obtain o1 where "old = row_of pgt o1" using assms(1) by auto
    with Some t(2) [OF e] pp show ?thesis by (simp add: upserted_def kept_record_created)
  qed (use t(2) [OF e] in \<open>simp add: upserted_def\<close>)
qed

lemma pg_Get_law:
  assumes "xv_inv (pg_view api tbl ilike pgt) db" "pg_Get api k db = (g, db')"
  shows "tbl db' = tbl db" and "g = Inr x \<Longrightarrow> x = map_option record_of (tbl db k)"
proof -
  let ?q = "Select selectColumns ''invocations'' [Equals ''invocation_id'' 1] None None"
  from assms(1) have l: "sql_lawful api tbl ilike pgt" by simp
  obtain r where r: "sql_Query api ?q [SqlText k] db = (r, db')"
    using assms(2)
    by (auto simp: pg_Get_def queryRow_def split: prod.splits sum.splits list.splits option.splits
        row_result.splits)
  note s = sql_select [OF l r]
  show "tbl db' = tbl db" by (rule s(1))
  assume g: "g = Inr x"
  then obtain rows where rows: "r = Inr (rows, None)" "rows = [] \<and> x = None \<or>
      (\<exists>row rest rec. rows = row # rest \<and> scanRecord row = Inr rec \<and> x = Some rec)"
    using assms(2) r
    by (auto simp: pg_Get_def queryRow_def
        split: prod.splits sum.splits list.splits option.splits row_result.splits)
  from s(2) [OF rows(1)] obtain ks where ks: "distinct ks"
    "set ks = {i. \<exists>row. tbl db i = Some row \<and> row ''invocation_id'' = Some (SqlText k)}"
    "rows = map (\<lambda>k. project selectColumns (the (tbl db k))) ks"
    by (auto simp: arg_at_def)
  have key: "row ''invocation_id'' = Some (SqlText i)" if t: "tbl db i = Some row" for i row
  proof -
    from assms(1) t obtain r where "InvocationID r = i" "row = row_of pgt r" by auto
    then show ?thesis by (simp add: row_of_columns)
  qed
  have "(\<exists>row. tbl db i = Some row \<and> row ''invocation_id'' = Some (SqlText k)) \<longleftrightarrow>
      tbl db i \<noteq> None \<and> i = k" for i
    using key [of i] by (cases "tbl db i") auto
  with ks(2) have set: "set ks = (if tbl db k = None then {} else {k})" by auto
  show "x = map_option record_of (tbl db k)"
  proof (cases "tbl db k")
    case None
    with set ks(3) rows(2) show ?thesis by simp
  next
    case (Some row)
    then obtain q where q: "row = row_of pgt q" using assms(1) by auto
    from Some set have k: "set ks = {k}" by simp
    then have "length ks = Suc 0" using distinct_card [OF ks(1)] by simp
    then obtain a where "ks = [a]" unfolding length_Suc_conv by blast
    with k have "ks = [k]" by simp
    with ks(3) rows(2) Some q show ?thesis by (auto simp: scan_row)
  qed
qed

lemma scan_rows_map:
  "list_all2 (\<lambda>row r. scanRecord row = Inr r) rows rs \<Longrightarrow> scan_rows rows out = Inr (out @ rs)"
  by (induction rows rs arbitrary: out rule: list_all2_induct) auto

lemma pg_List_law:
  assumes "xv_inv (pg_view api tbl ilike pgt) db" "pg_List api opts db = (l, db')"
  shows "tbl db' = tbl db"
    and "l = Inr rs \<Longrightarrow>
      \<exists>all. newest_first (pg_matches ilike pgt opts) (\<lambda>k. map_option record_of (tbl db k)) all \<and>
        rs = take (effective_limit opts) all"
proof -
  obtain args conds where ac: "list_conds opts = (args, conds)" by force
  let ?lim = "if Limit opts \<le> 0 then 50 else Limit opts"
  let ?args = "args @ [SqlInt ?lim]"
  let ?q = "Select selectColumns ''invocations'' conds (Some ''created_at'') (Some (length ?args))"
  from assms(1) have law: "sql_lawful api tbl ilike pgt" by simp
  obtain r where r: "sql_Query api ?q ?args db = (r, db')"
    using assms(2) ac
    by (auto simp: pg_List_def Let_def split: prod.splits sum.splits option.splits)
  note s = sql_select [OF law r]
  show "tbl db' = tbl db" by (rule s(1))
  assume "l = Inr rs"
  then obtain rows where rows: "r = Inr (rows, None)" "scan_rows rows [] = Inr rs"
    using assms(2) ac r
    by (auto simp: pg_List_def Let_def split: prod.splits sum.splits option.splits)
  have holds: "list_all (cond_holds ilike pgt ?args row) conds \<longleftrightarrow>
      pg_matches ilike pgt opts (record_of row)" if t: "tbl db k = Some row" for k row
  proof -
    from assms(1) t obtain q where "row = row_of pgt q" by auto
    then show ?thesis
      using numbered_more [OF list_conds_hold(1) [of opts]] list_conds_hold(2) [of ilike pgt q opts] ac
      by simp
  qed
  from s(2) [OF rows(1)] obtain ks where ks: "distinct ks"
    "set ks = {k. \<exists>row. tbl db k = Some row \<and> list_all (cond_holds ilike pgt ?args row) conds}"
    "descending (Some ''created_at'') (map (\<lambda>k. the (tbl db k)) ks)"
    "rows = take (nat ?lim) (map (\<lambda>k. project selectColumns (the (tbl db k))) ks)"
    by auto
  have sel: "set ks = {k. \<exists>row. tbl db k = Some row \<and> pg_matches ilike pgt opts (record_of row)}"
    unfolding ks(2) using holds by blast
  let ?rec = "\<lambda>k. record_of (the (tbl db k))"
  have kept: "\<exists>q. the (tbl db k) = row_of pgt q \<and> InvocationID q = k" if "k \<in> set ks" for k
    using that ks(2) assms(1) by fastforce
  have scan: "scanRecord (project selectColumns (the (tbl db k))) = Inr (?rec k)"
    and iid: "InvocationID (?rec k) = k"
    and time: "the (tbl db k) ''created_at'' = Some (SqlTime (CreatedAt (?rec k)))"
    if "k \<in> set ks" for k
    using kept [OF that] by (auto simp: scan_row)
  have "newest_first (pg_matches ilike pgt opts) (\<lambda>k. map_option record_of (tbl db k)) (map ?rec ks)"
    unfolding newest_first_def
  proof (intro conjI)
    show "distinct (map ?rec ks)"
      using ks(1) iid by (auto simp: distinct_map intro: inj_on_inverseI)
    show "set (map ?rec ks) =
        {r \<in> ran (\<lambda>k. map_option record_of (tbl db k)). pg_matches ilike pgt opts r}"
      unfolding set_map sel ran_def by (auto simp: image_iff) (metis option.sel)+
    show "sorted_wrt (\<lambda>a b. CreatedAt b \<le> CreatedAt a) (map ?rec ks)"
      using ks(3) time unfolding descending.simps sorted_wrt_map
      by (auto elim!: sorted_wrt_mono_rel [rotated])
  qed
  moreover have "list_all2 (\<lambda>row r. scanRecord row = Inr r) rows
      (take (effective_limit opts) (map ?rec ks))"
    unfolding ks(4) effective_limit_def
    by (auto simp: list_all2_conv_all_nth scan)
  from scan_rows_map [OF this, of "[]"] rows(2)
  have "rs = take (effective_limit opts) (map ?rec ks)" by simp
  ultimately show "\<exists>all. newest_first (pg_matches ilike pgt opts)
      (\<lambda>k. map_option record_of (tbl db k)) all \<and> rs = take (effective_limit opts) all" by blast
qed

interpretation pg: indexer "pg_indexer api" "pg_view api tbl ilike pgt" for api tbl ilike pgt
proof
  fix db r e db'
  assume a: "xv_inv (pg_view api tbl ilike pgt) db" "ix_Upsert (pg_indexer api) r db = (e, db')"
  note u = pg_Upsert_law [OF a(1) a(2) [unfolded pg_indexer_simps]]
  show "xv_inv (pg_view api tbl ilike pgt) db' \<and>
       xv_kept (pg_view api tbl ilike pgt) db' = xv_kept (pg_view api tbl ilike pgt) db \<and>
       xv_matches (pg_view api tbl ilike pgt) db' = xv_matches (pg_view api tbl ilike pgt) db \<and>
       (\<forall>i. i \<noteq> InvocationID r \<longrightarrow>
          xv_recs (pg_view api tbl ilike pgt) db' i = xv_recs (pg_view api tbl ilike pgt) db i) \<and>
       (e = None \<longrightarrow> xv_recs (pg_view api tbl ilike pgt) db' (InvocationID r) =
          Some (upserted (xv_kept (pg_view api tbl ilike pgt) db)
            (xv_recs (pg_view api tbl ilike pgt) db (InvocationID r)) r))"
    using u by simp
next
  fix db i g db'
  assume a: "xv_inv (pg_view api tbl ilike pgt) db" "ix_Get (pg_indexer api) i db = (g, db')"
  note u = pg_Get_law [OF a(1) a(2) [unfolded pg_indexer_simps]]
  show "xv_inv (pg_view api tbl ilike pgt) db' \<and>
       xv_kept (pg_view api tbl ilike pgt) db' = xv_kept (pg_view api tbl ilike pgt) db \<and>
       xv_matches (pg_view api tbl ilike pgt) db' = xv_matches (pg_view api tbl ilike pgt) db \<and>
       xv_recs (pg_view api tbl ilike pgt) db' = xv_recs (pg_view api tbl ilike pgt) db \<and>
       (\<forall>x. g = Inr x \<longrightarrow> x = xv_recs (pg_view api tbl ilike pgt) db i)"
    using u a(1) by auto
next
  fix db opts l db'
  assume a: "xv_inv (pg_view api tbl ilike pgt) db" "ix_List (pg_indexer api) opts db = (l, db')"
  note u = pg_List_law [OF a(1) a(2) [unfolded pg_indexer_simps]]
  show "xv_inv (pg_view api tbl ilike pgt) db' \<and>
       xv_kept (pg_view api tbl ilike pgt) db' = xv_kept (pg_view api tbl ilike pgt) db \<and>
       xv_matches (pg_view api tbl ilike pgt) db' = xv_matches (pg_view api tbl ilike pgt) db \<and>
       xv_recs (pg_view api tbl ilike pgt) db' = xv_recs (pg_view api tbl ilike pgt) db \<and>
       (\<forall>rs. l = Inr rs \<longrightarrow>
          (\<exists>all. newest_first (xv_matches (pg_view api tbl ilike pgt) db opts)
             (xv_recs (pg_view api tbl ilike pgt) db) all \<and>
            rs = take (effective_limit opts) all))"
    using u a(1) by (auto simp: fun_eq_iff pg_view_def)
next
  fix db i r j q opts
  assume a: "xv_inv (pg_view api tbl ilike pgt) db"
    "xv_recs (pg_view api tbl ilike pgt) db i = Some r"
  then obtain q1 where "r = kept_record pgt q1" by fastforce
  moreover from a(1) have "pgt (pgt t) = pgt t" for t by (simp add: sql_lawful_def)
  ultimately have "pgt (CreatedAt r) = CreatedAt r" by simp
  then show "xv_matches (pg_view api tbl ilike pgt) db (opts\<lparr>Before := Some (CreatedAt r)\<rparr>) q \<longleftrightarrow>
      xv_matches (pg_view api tbl ilike pgt) db (opts\<lparr>Before := None\<rparr>) q \<and> CreatedAt q < CreatedAt r"
    by (auto simp: pg_matches_def)
qed

text \<open>A database that answers every upsert and every selection of invocations.\<close>

definition sql_up :: "'db sql_api \<Rightarrow> bool" where
  "sql_up api \<longleftrightarrow>
     (\<forall>r db. fst (sql_Exec api upsert_stmt (upsert_args r) db) = None) \<and>
     (\<forall>conds ord lim args db. \<exists>rows.
        fst (sql_Query api (Select selectColumns ''invocations'' conds ord lim) args db) = Inr (rows, None))"

definition pg_up_view ::
  "'db sql_api \<Rightarrow> ('db \<Rightarrow> string \<rightharpoonup> sqlrow) \<Rightarrow> (string \<Rightarrow> string \<Rightarrow> bool) \<Rightarrow> (gotime \<Rightarrow> gotime) \<Rightarrow>
   'db index_view" where
  "pg_up_view api tbl ilike pgt = (pg_view api tbl ilike pgt)
     \<lparr>xv_inv := \<lambda>db. xv_inv (pg_view api tbl ilike pgt) db \<and> sql_up api\<rparr>"

lemma pg_up_view_simps [simp]:
  "xv_inv (pg_up_view api tbl ilike pgt) db \<longleftrightarrow> xv_inv (pg_view api tbl ilike pgt) db \<and> sql_up api"
  "xv_recs (pg_up_view api tbl ilike pgt) = xv_recs (pg_view api tbl ilike pgt)"
  "xv_kept (pg_up_view api tbl ilike pgt) = xv_kept (pg_view api tbl ilike pgt)"
  "xv_matches (pg_up_view api tbl ilike pgt) = xv_matches (pg_view api tbl ilike pgt)"
  by (simp_all add: pg_up_view_def)

lemma pg_Get_up:
  assumes "xv_inv (pg_view api tbl ilike pgt) db" "sql_up api"
  shows "\<exists>x. fst (pg_Get api k db) = Inr x"
proof -
  let ?q = "Select selectColumns ''invocations'' [Equals ''invocation_id'' 1] None None"
  obtain rows db' where r: "sql_Query api ?q [SqlText k] db = (Inr (rows, None), db')"
    using assms(2) unfolding sql_up_def by (metis prod.collapse)
  from assms(1) have "sql_lawful api tbl ilike pgt" by simp
  from sql_select(2) [OF this r refl] obtain ks where ks:
    "set ks = {i. \<exists>row. tbl db i = Some row \<and>
       list_all (cond_holds ilike pgt [SqlText k] row) [Equals ''invocation_id'' 1]}"
    "rows = map (\<lambda>k. project selectColumns (the (tbl db k))) ks" by auto
  have "\<exists>q. the (tbl db i) = row_of pgt q" if "i \<in> set ks" for i
    using that assms(1) unfolding ks(1) by force
  then have "\<exists>q. scanRecord row = Inr q" if "row \<in> set rows" for row
    using that unfolding ks(2) by (auto simp: scan_row) (metis scan_row)
  then show ?thesis
    using r by (cases rows) (fastforce simp: pg_Get_def queryRow_def)+
qed

interpretation pg_up: live_indexer "pg_indexer api" "pg_up_view api tbl ilike pgt" for api tbl ilike pgt
proof (rule live_indexer.intro)
  show "indexer (pg_indexer api) (pg_up_view api tbl ilike pgt)"
    unfolding pg_up_view_def by (rule pg.guarded)
  show "live_indexer_axioms (pg_indexer api) (pg_up_view api tbl ilike pgt)"
  proof
    fix db r
    assume "xv_inv (pg_up_view api tbl ilike pgt) db"
    then have "fst (sql_Exec api upsert_stmt (upsert_args r) db) = None"
      by (simp add: sql_up_def del: pg_view_simps)
    then show "fst (ix_Upsert (pg_indexer api) r db) = None"
      by (auto simp: pg_Upsert_def split: prod.splits option.splits)
  next
    fix db i
    assume "xv_inv (pg_up_view api tbl ilike pgt) db"
    then show "\<exists>x. fst (ix_Get (pg_indexer api) i db) = Inr x"
      using pg_Get_up [of api tbl ilike pgt db i] by (simp del: pg_view_simps)
  qed
qed

section \<open>Properties\<close>

text \<open>
  A list column gives the list back when no element holds the separator, except for the list of
  one empty string, which becomes the empty list.
\<close>

lemma split_column_Join:
  assumes "\<And>w. w \<in> set ws \<Longrightarrow> listSeparator \<notin> set w" "ws \<noteq> [[]]"
  shows "split_column (Join ws [listSeparator]) = ws"
  using assms Split_Join [of ws listSeparator]
  by (cases "ws = []") (auto simp: split_column_def Join_eq_Nil_iff)

text \<open>A database for examples: the rows by key, newest first on request.\<close>

fun sample_time :: "sqlval option \<Rightarrow> int" where
  "sample_time (Some (SqlTime t)) = - t"
| "sample_time _ = 0"

fun sample_exec ::
  "sql_stmt \<Rightarrow> sqlval list \<Rightarrow> (string \<times> sqlrow) list \<Rightarrow> goerror option \<times> (string \<times> sqlrow) list" where
  "sample_exec (InsertOnConflict t cols key sets) args db =
     (case insert_row (\<lambda>t. t) cols args key of
        Some (SqlText k) \<Rightarrow>
          (None, (k, case map_of db k of
             None \<Rightarrow> insert_row (\<lambda>t. t) cols args
           | Some old \<Rightarrow> old ++ (insert_row (\<lambda>t. t) cols args |` set sets)) # db)
      | _ \<Rightarrow> (Some (OSErr ''no key''), db))"
| "sample_exec s args db = (None, db)"

definition sample_ilike :: "string \<Rightarrow> string \<Rightarrow> bool" where
  "sample_ilike s p = Contains s (drop 1 (butlast p))"

fun sample_query ::
  "sql_stmt \<Rightarrow> sqlval list \<Rightarrow> (string \<times> sqlrow) list \<Rightarrow>
   (goerror + sqlval list list \<times> goerror option) \<times> (string \<times> sqlrow) list" where
  "sample_query (Select cols t conds ord lim) args db =
     (let sel = filter (\<lambda>k. list_all (cond_holds sample_ilike (\<lambda>t. t) args (the (map_of db k))) conds)
            (remdups (map fst db));
          ks = (case ord of None \<Rightarrow> sel
                | Some c \<Rightarrow> sort_key (\<lambda>k. sample_time (the (map_of db k) c)) sel)
      in (Inr (limit_rows lim args (map (\<lambda>k. project cols (the (map_of db k))) ks), None), db))"
| "sample_query s args db = (Inl (OSErr ''syntax error''), db)"

definition sample_sql :: "(string \<times> sqlrow) list sql_api" where
  "sample_sql = \<lparr>sql_Open = (\<lambda>d n. None), sql_Ping = (\<lambda>db. (None, db)), sql_Exec = sample_exec,
     sql_Query = sample_query, sql_Close = (\<lambda>db. (None, db))\<rparr>"

lemma sample_descending:
  "descending (Some c) (map r (sort_key (\<lambda>k. sample_time (r k c)) ks))"
proof -
  have "sorted_wrt (\<lambda>a b. sample_time (r a c) \<le> sample_time (r b c))
      (sort_key (\<lambda>k. sample_time (r k c)) ks)"
    using sorted_sort_key [of "\<lambda>k. sample_time (r k c)" ks] by (simp add: sorted_map)
  then show ?thesis
    unfolding descending.simps sorted_wrt_map by (rule sorted_wrt_mono_rel [rotated]) auto
qed

lemma sample_sql_lawful: "sql_lawful sample_sql map_of sample_ilike (\<lambda>t. t)"
proof -
  have ins: "(\<forall>i. i \<noteq> k \<longrightarrow> map_of db' i = map_of db i) \<and> e = None \<and>
      map_of db' k = Some (case map_of db k of None \<Rightarrow> insert_row (\<lambda>t. t) cols args
           | Some old \<Rightarrow> old ++ (insert_row (\<lambda>t. t) cols args |` set sets))"
    if "sample_exec (InsertOnConflict ''invocations'' cols key sets) args db = (e, db')"
      "insert_row (\<lambda>t. t) cols args key = Some (SqlText k)" for cols key sets args db e db' k
    using that by auto
  have sel: "db' = db \<and> (\<forall>rows. r = Inr (rows, None) \<longrightarrow> (\<exists>ks. distinct ks \<and>
        set ks = {k. \<exists>row. map_of db k = Some row \<and>
          list_all (cond_holds sample_ilike (\<lambda>t. t) args row) conds} \<and>
        descending ord (map (\<lambda>k. the (map_of db k)) ks) \<and>
        rows = limit_rows lim args (map (\<lambda>k. project cols (the (map_of db k))) ks)))"
    if q: "sample_query (Select cols ''invocations'' conds ord lim) args db = (r, db')"
    for cols conds ord lim args db r db'
  proof -
    let ?sel = "filter (\<lambda>k. list_all (cond_holds sample_ilike (\<lambda>t. t) args (the (map_of db k))) conds)
        (remdups (map fst db))"
    let ?ks = "case ord of None \<Rightarrow> ?sel
        | Some c \<Rightarrow> sort_key (\<lambda>k. sample_time (the (map_of db k) c)) ?sel"
    have set: "set ?ks = {k. \<exists>row. map_of db k = Some row \<and>
          list_all (cond_holds sample_ilike (\<lambda>t. t) args row) conds}"
      by (auto split: option.splits simp: dom_map_of_conv_image_fst [symmetric] dest: map_of_SomeD)
    have "distinct ?ks" by (cases ord) auto
    moreover have "descending ord (map (\<lambda>k. the (map_of db k)) ?ks)"
      using sample_descending [of _ "\<lambda>k. the (map_of db k)" ?sel] by (cases ord) auto
    ultimately show ?thesis using q set by (auto simp: Let_def)
  qed
  have e: "sql_Exec sample_sql = sample_exec" "sql_Query sample_sql = sample_query"
    by (simp_all add: sample_sql_def)
  show ?thesis
    unfolding sql_lawful_def e
  proof (intro conjI allI impI, goal_cases)
    case 1
    with ins show ?case by blast
  next
    case 2
    with ins show ?case by blast
  next
    case 3
    with ins show ?case by blast
  next
    case 4
    with sel show ?case by blast
  next
    case 5
    from sel [OF 5(1)] 5(2) show ?case by blast
  qed simp_all
qed

definition no_opts :: ListOptions where
  "no_opts = \<lparr>Limit = 0, Query = [], Status = [], Before = None, Since = None, Until = None\<rparr>"

definition sample_record :: "string \<Rightarrow> gotime \<Rightarrow> Record" where
  "sample_record i t = (new_Record i t)\<lparr>Pattern := [''//a/...'', ''//b''], UpdatedAt := t\<rparr>"

definition sample_rows :: "Record list \<Rightarrow> (string \<times> sqlrow) list" where
  "sample_rows rs = map (\<lambda>r. (InvocationID r, row_of (\<lambda>t. t) r)) rs"

lemma sample_rows_inv: "xv_inv (pg_view sample_sql map_of sample_ilike (\<lambda>t. t)) (sample_rows rs)"
  using sample_sql_lawful by (auto simp: sample_rows_def dest!: map_of_SomeD)

text \<open>
  C30: Storing and fetching a summary.  After a successful \<open>Upsert\<close>, a \<open>Get\<close> that succeeds returns
  the record itself, patterns and tags included, with the times at the resolution of the database;
  the creation time is the one the index already had, if it had the invocation.  The patterns and
  tags must not contain the separator, and must not be a list of one empty string.
\<close>

theorem pg_upsert_then_get:
  assumes "xv_inv (pg_view api tbl ilike pgt) db"
    and "pg_Upsert api r db = (None, db1)" "pg_Get api (InvocationID r) db1 = (Inr x, db2)"
    and "\<And>w. w \<in> set (Pattern r) \<union> set (Tags r) \<Longrightarrow> listSeparator \<notin> set w"
    and "Pattern r \<noteq> [[]]" "Tags r \<noteq> [[]]"
  shows "x = Some (r\<lparr>CreatedAt := (case tbl db (InvocationID r) of
                         None \<Rightarrow> pgt (CreatedAt r) | Some old \<Rightarrow> CreatedAt (record_of old)),
                     UpdatedAt := pgt (UpdatedAt r)\<rparr>)"
proof -
  have "kept_record pgt r = r\<lparr>CreatedAt := pgt (CreatedAt r), UpdatedAt := pgt (UpdatedAt r)\<rparr>"
    using assms(4-6) by (simp add: kept_record_def split_column_Join)
  moreover have "x = Some (upserted (kept_record pgt) (map_option record_of (tbl db (InvocationID r))) r)"
    using pg.upsert_then_get [of api tbl ilike pgt db r db1 x db2] assms(1-3) by simp
  ultimately show ?thesis by (auto simp: upserted_def split: option.splits)
qed

text \<open>
  C31: Paging.  When no two matching records have the same creation time, a page of \<open>List\<close> and the
  page asked for with \<open>Before\<close> set to the creation time of its last record are, one after the
  other, the single page of twice the limit: nothing is skipped and nothing is repeated.
\<close>

theorem pg_two_pages:
  assumes "xv_inv (pg_view api tbl ilike pgt) db" "Before opts = None"
    and "pg_List api opts db = (Inr page, db1)" "page \<noteq> []"
    and "pg_List api (opts\<lparr>Before := Some (CreatedAt (last page))\<rparr>) db1 = (Inr page', db2)"
    and "inj_on CreatedAt
      {r \<in> ran (\<lambda>k. map_option record_of (tbl db k)). pg_matches ilike pgt opts r}"
  shows "\<exists>all. newest_first (pg_matches ilike pgt opts) (\<lambda>k. map_option record_of (tbl db k)) all \<and>
    page @ page' = take (2 * effective_limit opts) all"
  using pg.two_pages [of api tbl ilike pgt db opts page db1 page' db2] assms
  by (simp add: pg_view_def)

lemma sample_exec_again:
  "sample_exec upsert_stmt (upsert_args r) db = (None, (InvocationID r, 
     case map_of db (InvocationID r) of None \<Rightarrow> row_of (\<lambda>t. t) r
       | Some old \<Rightarrow> old ++ (row_of (\<lambda>t. t) r |` (set selectColumns - {''invocation_id'', ''created_at''}))) # db)"
proof -
  have key: "insert_row (\<lambda>t. t) selectColumns (upsert_args r) ''invocation_id'' =
      Some (SqlText (InvocationID r))"
    using row_of_at(1) [of "\<lambda>t. t" r] by (simp only: row_of_def)
  have sets: "set [''command'', ''pattern'', ''tags'', ''user_name'', ''host'', ''role'', ''repo_url'',
        ''branch_name'', ''commit_sha'', ''parent_run_id'', ''run_id'', ''success'',
        ''bazel_exit_code'', ''duration_usec'', ''action_count'', ''updated_at''] =
      set selectColumns - {''invocation_id'', ''created_at''}"
    by (auto simp: selectColumns_def)
  show ?thesis
    unfolding upsert_stmt_def selectColumns_def [symmetric] sample_exec.simps key sets
    by (simp add: row_of_def split: option.splits)
qed

text \<open>The example database answers from the rows it holds.\<close>

lemma sample_sql_simps [simp]: "sql_Exec sample_sql = sample_exec" "sql_Query sample_sql = sample_query"
  by (simp_all add: sample_sql_def)

lemma sample_get:
  "pg_Get sample_sql (InvocationID r) ((InvocationID r, row_of (\<lambda>t. t) r) # sample_rows [r']) =
     (Inr (Some (kept_record (\<lambda>t. t) r)), (InvocationID r, row_of (\<lambda>t. t) r) # sample_rows [r'])"
  if "InvocationID r' = InvocationID r"
  using that by (simp add: pg_Get_def queryRow_def sample_rows_def arg_at_def scan_row)

theorem pg_upsert_then_get_witness:
  "\<exists>db1 db2. pg_Upsert sample_sql (sample_record ''inv'' 9) (sample_rows [sample_record ''inv'' 3]) = (None, db1) \<and>
     pg_Get sample_sql ''inv'' db1 =
       (Inr (Some ((sample_record ''inv'' 9)\<lparr>CreatedAt := 3\<rparr>)), db2)"
proof -
  let ?r = "sample_record ''inv'' 9" and ?o = "sample_record ''inv'' 3"
  have i: "InvocationID ?r = ''inv''" "InvocationID ?o = ''inv''"
    by (simp_all add: sample_record_def new_Record_def)
  let ?q = "?r\<lparr>CreatedAt := 3\<rparr>"
  let ?db1 = "(InvocationID ?q, row_of (\<lambda>t. t) ?q) # sample_rows [?o]"
  have "row_of (\<lambda>t. t) ?o ++ (row_of (\<lambda>t. t) ?r |` (set selectColumns - {''invocation_id'', ''created_at''})) =
      row_of (\<lambda>t. t) ?q"
  proof -
    have "set selectColumns - {''invocation_id'', ''created_at''} =
      set [''command'', ''pattern'', ''tags'', ''user_name'', ''host'', ''role'', ''repo_url'',
        ''branch_name'', ''commit_sha'', ''parent_run_id'', ''run_id'', ''success'',
        ''bazel_exit_code'', ''duration_usec'', ''action_count'', ''updated_at'']"
      by (auto simp: selectColumns_def)
    moreover have "CreatedAt ?o = 3" by (simp add: sample_record_def new_Record_def)
    ultimately show ?thesis using conflict_row [of ?r ?o "\<lambda>t. t"] i by simp
  qed
  then have u: "pg_Upsert sample_sql ?r (sample_rows [?o]) = (None, ?db1)"
    using i by (simp add: pg_Upsert_def sample_exec_again sample_rows_def)
  obtain x where g: "pg_Get sample_sql (InvocationID ?r) ?db1 = (Inr x, ?db1)"
    using sample_get [of ?o ?q] i by simp
  have sep: "listSeparator \<notin> set w" if "w \<in> set (Pattern ?r) \<union> set (Tags ?r)" for w
    using that by (auto simp: sample_record_def new_Record_def listSeparator_def)
  have "x = Some (?r\<lparr>CreatedAt := (case map_of (sample_rows [?o]) (InvocationID ?r) of
        None \<Rightarrow> CreatedAt ?r | Some old \<Rightarrow> CreatedAt (record_of old)), UpdatedAt := UpdatedAt ?r\<rparr>)"
    by (rule pg_upsert_then_get [OF sample_rows_inv u g sep])
      (simp_all add: sample_record_def new_Record_def)
  also have "\<dots> = Some (?r\<lparr>CreatedAt := 3\<rparr>)"
    using i by (simp add: sample_rows_def) (simp add: sample_record_def new_Record_def)
  finally show ?thesis using u g i by auto
qed

lemma sample_list:
  "pg_List sample_sql (no_opts\<lparr>Limit := 1\<rparr>) (sample_rows [sample_record ''a'' 10, sample_record ''b'' 20]) =
     (Inr [sample_record ''b'' 20], sample_rows [sample_record ''a'' 10, sample_record ''b'' 20])"
  "pg_List sample_sql (no_opts\<lparr>Limit := 1, Before := Some 20\<rparr>)
       (sample_rows [sample_record ''a'' 10, sample_record ''b'' 20]) =
     (Inr [sample_record ''a'' 10], sample_rows [sample_record ''a'' 10, sample_record ''b'' 20])"
proof -
  have k: "kept_record (\<lambda>t. t) (sample_record i t) = sample_record i t" for i t
    by (simp add: kept_record_def sample_record_def new_Record_def split_column_def listSeparator_def)
  have c: "InvocationID (sample_record i t) = i" "CreatedAt (sample_record i t) = t" for i t
    by (simp_all add: sample_record_def new_Record_def)
  show "pg_List sample_sql (no_opts\<lparr>Limit := 1\<rparr>) (sample_rows [sample_record ''a'' 10, sample_record ''b'' 20]) =
     (Inr [sample_record ''b'' 20], sample_rows [sample_record ''a'' 10, sample_record ''b'' 20])"
    by (simp add: pg_List_def no_opts_def list_conds_def time_cond_def status_cond_def query_cond_def
        sample_rows_def c scan_row k)
  show "pg_List sample_sql (no_opts\<lparr>Limit := 1, Before := Some 20\<rparr>)
       (sample_rows [sample_record ''a'' 10, sample_record ''b'' 20]) =
     (Inr [sample_record ''a'' 10], sample_rows [sample_record ''a'' 10, sample_record ''b'' 20])"
    by (simp add: pg_List_def no_opts_def list_conds_def time_cond_def status_cond_def query_cond_def
        sample_rows_def c scan_row k append_arg_def arg_at_def)
qed

theorem pg_two_pages_witness:
  "\<exists>all. newest_first (pg_matches sample_ilike (\<lambda>t. t) (no_opts\<lparr>Limit := 1\<rparr>))
      (\<lambda>k. map_option record_of
        (map_of (sample_rows [sample_record ''a'' 10, sample_record ''b'' 20]) k)) all \<and>
    [sample_record ''b'' 20] @ [sample_record ''a'' 10] =
      take (2 * effective_limit (no_opts\<lparr>Limit := 1\<rparr>)) all"
proof (rule pg_two_pages [OF sample_rows_inv _ sample_list(1)])
  have c: "CreatedAt (sample_record ''b'' 20) = 20"
    by (simp add: sample_record_def new_Record_def)
  show "pg_List sample_sql
      ((no_opts\<lparr>Limit := 1\<rparr>)\<lparr>Before := Some (CreatedAt (last [sample_record ''b'' 20]))\<rparr>)
      (sample_rows [sample_record ''a'' 10, sample_record ''b'' 20]) =
     (Inr [sample_record ''a'' 10], sample_rows [sample_record ''a'' 10, sample_record ''b'' 20])"
    using sample_list(2) c by simp
  show "inj_on CreatedAt {r \<in> ran (\<lambda>k. map_option record_of
        (map_of (sample_rows [sample_record ''a'' 10, sample_record ''b'' 20]) k)).
      pg_matches sample_ilike (\<lambda>t. t) (no_opts\<lparr>Limit := 1\<rparr>) r}"
    by (auto simp: inj_on_def ran_def sample_rows_def sample_record_def new_Record_def split: if_splits)
qed (simp_all add: no_opts_def)

end
