(* ===== verification/Base64.thy ===== *)
theory Base64
  imports GoUrl
begin

text \<open>
  Go's \<open>base64.RawURLEncoding\<close>: the URL-safe alphabet without padding.  The decoder skips carriage
  returns and line feeds and does not insist that the unused bits of the last digit are zero, as
  the library does.
\<close>

definition b64_alphabet :: string where
  "b64_alphabet = ''ABCDEFGHIJKLMNOPQRSTUVWXYZabcdefghijklmnopqrstuvwxyz0123456789-_''"

definition b64_digit :: "nat \<Rightarrow> char" where
  "b64_digit n = b64_alphabet ! (n mod 64)"

fun index_of :: "char \<Rightarrow> string \<Rightarrow> nat option" where
  "index_of c [] = None"
| "index_of c (x # xs) = (if c = x then Some 0 else map_option Suc (index_of c xs))"

fun b64_encode :: "bytes \<Rightarrow> string" where
  "b64_encode (a # b # c # r) =
     [b64_digit (code a div 4), b64_digit (code a mod 4 * 16 + code b div 16),
      b64_digit (code b mod 16 * 4 + code c div 64), b64_digit (code c)] @ b64_encode r"
| "b64_encode [a, b] =
     [b64_digit (code a div 4), b64_digit (code a mod 4 * 16 + code b div 16),
      b64_digit (code b mod 16 * 4)]"
| "b64_encode [a] = [b64_digit (code a div 4), b64_digit (code a mod 4 * 16)]"
| "b64_encode [] = []"

text \<open>The digits of a text, and the bytes of a list of digits; a single digit left over is an error.\<close>

fun b64_values :: "string \<Rightarrow> nat list option" where
  "b64_values [] = Some []"
| "b64_values (c # s) =
     (if c = CHR 0x0D \<or> c = CHR 0x0A then b64_values s
      else case index_of c b64_alphabet of
        None \<Rightarrow> None
      | Some v \<Rightarrow> map_option (Cons v) (b64_values s))"

fun b64_bytes :: "nat list \<Rightarrow> bytes option" where
  "b64_bytes (p # q # r # s # vs) =
     map_option (append [char_of (p * 4 + q div 16), char_of (q mod 16 * 16 + r div 4),
       char_of (r mod 4 * 64 + s)]) (b64_bytes vs)"
| "b64_bytes [p, q, r] = Some [char_of (p * 4 + q div 16), char_of (q mod 16 * 16 + r div 4)]"
| "b64_bytes [p, q] = Some [char_of (p * 4 + q div 16)]"
| "b64_bytes [p] = None"
| "b64_bytes [] = Some []"

definition b64_decode :: "string \<Rightarrow> goerror + bytes" where
  "b64_decode s =
     (case Option.bind (b64_values s) b64_bytes of
        None \<Rightarrow> Inl (TypedErr ''base64.CorruptInputError'' s)
      | Some d \<Rightarrow> Inr d)"

section \<open>Decoding what was encoded\<close>

lemma code_less [simp]: "code c < 256"
  unfolding code_def by (metis mod_less_divisor of_char_mod_256 zero_less_numeral)

lemma char_of_code [simp]: "char_of (code c) = c"
  by (simp add: code_def)

lemma index_digit: "n < 64 \<Longrightarrow> index_of (b64_digit n) b64_alphabet = Some n"
proof -
  have "\<forall>n \<in> set [0..<64]. index_of (b64_digit n) b64_alphabet = Some n" by code_simp
  then show "n < 64 \<Longrightarrow> index_of (b64_digit n) b64_alphabet = Some n" by simp
qed

lemma digit_not_newline: "b64_digit n \<noteq> CHR 0x0D \<and> b64_digit n \<noteq> CHR 0x0A"
proof -
  have "\<forall>n \<in> set [0..<64]. b64_digit n \<noteq> CHR 0x0D \<and> b64_digit n \<noteq> CHR 0x0A" by code_simp
  then have "b64_digit (n mod 64) \<noteq> CHR 0x0D \<and> b64_digit (n mod 64) \<noteq> CHR 0x0A" by simp
  then show ?thesis by (simp add: b64_digit_def)
qed

lemma b64_digit_mod: "b64_digit n = b64_digit (n mod 64)"
  by (simp add: b64_digit_def)

lemma b64_values_digit [simp]:
  "b64_values (b64_digit n # s) = map_option (Cons (n mod 64)) (b64_values s)"
  using index_digit [of "n mod 64"] digit_not_newline [of n]
  by (simp add: b64_digit_mod [of n, symmetric])

lemma small_mod: "n < 64 \<Longrightarrow> n mod (64 :: nat) = n"
  by simp

text \<open>Eight bits in six: what the digits of a group keep of each byte.\<close>

lemma byte_div: "code a div 4 < 64" "code b div 16 < 16" "code c div 64 < 4"
  using code_less [of a] code_less [of b] code_less [of c]
  by (auto intro: less_mult_imp_div_less simp del: code_less)

lemma code_parts:
  "code a div 4 < 64" "code a mod 4 * 16 + code b div 16 < 64"
  "code b mod 16 * 4 + code c div 64 < 64" "code a mod 4 * 16 < 64" "code b mod 16 * 4 < 64"
proof -
  have "code a mod 4 < 4" "code b mod 16 < 16" by simp_all
  with byte_div(1) [of a] byte_div(2) [of b] byte_div(3) [of c] show
    "code a div 4 < 64" "code a mod 4 * 16 + code b div 16 < 64"
    "code b mod 16 * 4 + code c div 64 < 64" "code a mod 4 * 16 < 64" "code b mod 16 * 4 < 64"
    by linarith+
qed

lemma code_join:
  "code a div 4 * 4 + (code a mod 4 * 16 + code b div 16) div 16 = code a"
  "(code a mod 4 * 16 + code b div 16) mod 16 * 16 + (code b mod 16 * 4 + code c div 64) div 4 = code b"
  "(code b mod 16 * 4 + code c div 64) mod 4 * 64 + code c mod 64 = code c"
  "code a div 4 * 4 + (code a mod 4 * 16) div 16 = code a"
  "(code a mod 4 * 16 + code b div 16) mod 16 * 16 + (code b mod 16 * 4) div 4 = code b"
proof -
  have "(code a mod 4 * 16 + code b div 16) div 16 = code a mod 4"
    "(code a mod 4 * 16 + code b div 16) mod 16 = code b div 16"
    using byte_div(2) [of b] by simp_all
  moreover have "(code b mod 16 * 4 + code c div 64) div 4 = code b mod 16"
    "(code b mod 16 * 4 + code c div 64) mod 4 = code c div 64"
    using byte_div(3) [of c] by simp_all
  ultimately show
    "code a div 4 * 4 + (code a mod 4 * 16 + code b div 16) div 16 = code a"
    "(code a mod 4 * 16 + code b div 16) mod 16 * 16 + (code b mod 16 * 4 + code c div 64) div 4 = code b"
    "(code b mod 16 * 4 + code c div 64) mod 4 * 64 + code c mod 64 = code c"
    "code a div 4 * 4 + (code a mod 4 * 16) div 16 = code a"
    "(code a mod 4 * 16 + code b div 16) mod 16 * 16 + (code b mod 16 * 4) div 4 = code b"
    by simp_all
qed

lemma b64_decode_encode [simp]: "b64_decode (b64_encode d) = Inr d"
proof -
  have "Option.bind (b64_values (b64_encode d)) b64_bytes = Some d"
  proof (induction d rule: b64_encode.induct)
    case (1 a b c r)
    then obtain vs where "b64_values (b64_encode r) = Some vs" "b64_bytes vs = Some r"
      by (cases "b64_values (b64_encode r)") auto
    then show ?case by (simp add: small_mod code_parts code_join byte_div del: b64_values.simps(2))
  qed (simp_all add: small_mod code_parts code_join byte_div del: b64_values.simps(2))
  then show ?thesis by (simp add: b64_decode_def)
qed

text \<open>The encoding only uses the characters of the alphabet, and different data encode differently.\<close>

lemma b64_digit_in: "b64_digit n \<in> set b64_alphabet"
  unfolding b64_digit_def by (rule nth_mem) (simp add: b64_alphabet_def)

lemma set_b64_encode: "set (b64_encode d) \<subseteq> set b64_alphabet"
  by (induction d rule: b64_encode.induct) (auto simp: b64_digit_in)

lemma b64_encode_inject [simp]: "b64_encode d = b64_encode d' \<longleftrightarrow> d = d'"
  by (metis b64_decode_encode sum.inject(2))

end
