(* ===== verification/Http.thy ===== *)
theory Http
  imports GoUrl OsFs
begin

text \<open>
  The parts of Go's \<open>net/http\<close>, \<open>net/url\<close>, \<open>path\<close> and \<open>strconv\<close> packages that the web server calls: a
  request with its query parameters and cookies, a response writer whose writes may fail, \<open>Error\<close>,
  \<open>NotFound\<close>, \<open>Redirect\<close>, \<open>SetCookie\<close>, and the patterns of a \<open>ServeMux\<close>.
\<close>

section \<open>Numbers\<close>

text \<open>\<open>strconv.ParseInt(s, 10, 64)\<close>, which is also what \<open>Atoi\<close> computes on 64-bit machines.\<close>

definition digits_value :: "string \<Rightarrow> int" where
  "digits_value s = foldl (\<lambda>n c. 10 * n + int (code c - 48)) 0 s"

definition num_error :: "string \<Rightarrow> goerror" where
  "num_error s = TypedErr ''*strconv.NumError'' s"

definition ParseInt :: "string \<Rightarrow> goerror + int" where
  "ParseInt s =
     (let neg = HasPrefix s ''-'';
          ds = (if neg \<or> HasPrefix s ''+'' then drop 1 s else s)
      in if ds = [] \<or> \<not> list_all is_digit ds then Inl (num_error s)
         else let n = (if neg then - digits_value ds else digits_value ds)
              in if n < int64_min \<or> int64_max < n then Inl (num_error s) else Inr n)"

section \<open>Requests\<close>

text \<open>
  The parameters of a query string, in order: parts with a semicolon or a bad escape are dropped.
  \<open>Query().Get\<close> gives the first value of a key, or nothing.
\<close>

definition query_pair :: "string \<Rightarrow> (string \<times> string) option" where
  "query_pair part =
     (if part = [] \<or> CHR '';'' \<in> set part then None
      else case cut_total part CHR ''='' of
        (k, v) \<Rightarrow>
          (case (unescape encodeQueryComponent k, unescape encodeQueryComponent v) of
             (Inr k', Inr v') \<Rightarrow> Some (k', v')
           | _ \<Rightarrow> None))"

definition query_pairs :: "string \<Rightarrow> (string \<times> string) list" where
  "query_pairs raw = List.map_filter query_pair (Split raw CHR ''&'')"

definition Query_Get :: "URL \<Rightarrow> string \<Rightarrow> string" where
  "Query_Get u key = (case map_of (query_pairs (RawQuery u)) key of Some v \<Rightarrow> v | None \<Rightarrow> [])"

definition RequestURI :: "URL \<Rightarrow> string" where
  "RequestURI u =
     (if Opaque u = [] then (if EscapedPath u = [] then ''/'' else EscapedPath u)
      else if HasPrefix (Opaque u) ''//'' then Scheme u @ '':'' @ Opaque u
      else Opaque u) @
     (if ForceQuery u \<or> RawQuery u \<noteq> [] then ''?'' @ RawQuery u else [])"

record Request =
  rq_Method :: string
  rq_URL :: URL
  rq_Cookies :: "(string \<times> string) list"

definition request_cookie :: "Request \<Rightarrow> string \<Rightarrow> string option" where
  "request_cookie r name = map_of (rq_Cookies r) name"

section \<open>Responses\<close>

record Cookie =
  ck_Name :: string
  ck_Value :: string
  ck_Path :: string
  ck_HttpOnly :: bool
  ck_Secure :: bool
  ck_SameSite :: string
  ck_Expires :: "gotime option"
  ck_MaxAge :: int

text \<open>
  \<open>rs_Header\<close> and \<open>rs_Cookies\<close> are what the handler has set; the first \<open>WriteHeader\<close> sends them
  (\<open>rs_Sent\<close>), later changes and later status codes are lost.  A write may fail after some bytes:
  each write takes the next fault.
\<close>

record Response =
  rs_Header :: "(string \<times> string) list"
  rs_Cookies :: "Cookie list"
  rs_Status :: "nat option"
  rs_Sent :: "(string \<times> string) list \<times> Cookie list"
  rs_Body :: bytes
  rs_faults :: "fault option list"

definition new_response :: "fault option list \<Rightarrow> Response" where
  "new_response faults =
     \<lparr>rs_Header = [], rs_Cookies = [], rs_Status = None, rs_Sent = ([], []), rs_Body = [],
      rs_faults = faults\<rparr>"

definition Header_Del :: "string \<Rightarrow> Response \<Rightarrow> Response" where
  "Header_Del k w = w\<lparr>rs_Header := filter (\<lambda>(k', v). k' \<noteq> k) (rs_Header w)\<rparr>"

definition Header_Set :: "string \<Rightarrow> string \<Rightarrow> Response \<Rightarrow> Response" where
  "Header_Set k v w =
     w\<lparr>rs_Header := (k, v) # filter (\<lambda>(k', v). k' \<noteq> k) (rs_Header w)\<rparr>"

definition Header_Get :: "string \<Rightarrow> Response \<Rightarrow> string" where
  "Header_Get k w = (case map_of (rs_Header w) k of Some v \<Rightarrow> v | None \<Rightarrow> [])"

definition SetCookie :: "Cookie \<Rightarrow> Response \<Rightarrow> Response" where
  "SetCookie ck w = w\<lparr>rs_Cookies := rs_Cookies w @ [ck]\<rparr>"

definition WriteHeader :: "nat \<Rightarrow> Response \<Rightarrow> Response" where
  "WriteHeader c w =
     (case rs_Status w of
        Some _ \<Rightarrow> w
      | None \<Rightarrow> w\<lparr>rs_Status := Some c, rs_Sent := (rs_Header w, rs_Cookies w)\<rparr>)"

definition rs_Write :: "bytes \<Rightarrow> Response \<Rightarrow> (nat \<times> goerror option) \<times> Response" where
  "rs_Write p w0 =
     (let w = WriteHeader 200 w0
      in case rs_faults w of
           Some (e, k) # fs \<Rightarrow>
             ((min k (length p), Some e), w\<lparr>rs_Body := rs_Body w @ take k p, rs_faults := fs\<rparr>)
         | fs \<Rightarrow> ((length p, None), w\<lparr>rs_Body := rs_Body w @ p, rs_faults := tl fs\<rparr>))"

text \<open>\<open>http.Error\<close> and \<open>http.NotFound\<close>.\<close>

definition http_Error :: "string \<Rightarrow> nat \<Rightarrow> Response \<Rightarrow> Response" where
  "http_Error msg c w =
     snd (rs_Write (msg @ [CHR 0x0A])
       (WriteHeader c
         (Header_Set ''X-Content-Type-Options'' ''nosniff''
           (Header_Set ''Content-Type'' ''text/plain; charset=utf-8''
             (Header_Del ''Content-Length'' w)))))"

definition http_NotFound :: "Response \<Rightarrow> Response" where
  "http_NotFound w = http_Error ''404 page not found'' 404 w"

text \<open>
  \<open>http.Redirect\<close>: a target without scheme and host is made absolute and cleaned before it becomes
  the \<open>Location\<close>.
\<close>

definition html_escape :: "string \<Rightarrow> string" where
  "html_escape s = concat (map (\<lambda>c.
     if c = CHR ''&'' then ''&amp;'' else if c = CHR ''<'' then ''&lt;''
     else if c = CHR ''>'' then ''&gt;'' else if c = CHR 0x22 then ''&#34;''
     else if c = CHR 0x27 then ''&#39;'' else [c]) s)"

definition hex_escape_non_ascii :: "string \<Rightarrow> string" where
  "hex_escape_non_ascii s = concat (map (\<lambda>c.
     if 128 \<le> code c
     then [CHR ''%'', to_lower (hexdigit (code c div 16)), to_lower (hexdigit (code c mod 16))]
     else [c]) s)"

definition path_dir :: "string \<Rightarrow> string" where
  "path_dir p = (case cut_last p CHR ''/'' of Some (d, f) \<Rightarrow> d @ ''/'' | None \<Rightarrow> [])"

definition clean_keep_slash :: "string \<Rightarrow> string" where
  "clean_keep_slash p =
     (if HasSuffix p ''/'' \<and> \<not> HasSuffix (Clean p) ''/'' then Clean p @ ''/'' else Clean p)"

definition redirect_location :: "(string \<Rightarrow> bool) \<Rightarrow> Request \<Rightarrow> string \<Rightarrow> string" where
  "redirect_location ip6 r target =
     (case url_Parse ip6 target of
        Inl e \<Rightarrow> target
      | Inr u \<Rightarrow>
          if Scheme u = [] \<and> UrlHost u = [] then
            (let oldpath = (if UrlPath (rq_URL r) = [] then ''/'' else UrlPath (rq_URL r));
                 full = (if HasPrefix target ''/'' then target else path_dir oldpath @ target);
                 p = takeWhile (\<lambda>c. c \<noteq> CHR ''?'') full;
                 q = dropWhile (\<lambda>c. c \<noteq> CHR ''?'') full
             in clean_keep_slash p @ q)
          else target)"

definition status_text :: "nat \<Rightarrow> string" where
  "status_text c = (if c = 302 then ''Found'' else if c = 307 then ''Temporary Redirect'' else [])"

definition http_Redirect ::
  "(string \<Rightarrow> bool) \<Rightarrow> Request \<Rightarrow> string \<Rightarrow> nat \<Rightarrow> Response \<Rightarrow> Response" where
  "http_Redirect ip6 r target c w =
     (let loc = redirect_location ip6 r target;
          hadCT = map_of (rs_Header w) ''Content-Type'' \<noteq> None;
          w1 = Header_Set ''Location'' (hex_escape_non_ascii loc) w;
          w2 = (if \<not> hadCT \<and> rq_Method r \<in> {''GET'', ''HEAD''}
                then Header_Set ''Content-Type'' ''text/html; charset=utf-8'' w1 else w1);
          w3 = WriteHeader c w2
      in if \<not> hadCT \<and> rq_Method r = ''GET''
         then snd (rs_Write (''<a href='' @ [CHR 0x22] @ html_escape loc @ [CHR 0x22] @ ''>'' @
                     status_text c @ ''</a>.'' @ [CHR 0x0A, CHR 0x0A]) w3)
         else w3)"

section \<open>Routing\<close>

text \<open>An \<open>http.Handler\<close> over a state; \<^term>\<open>None\<close> stands for never returning.\<close>

type_synonym 'st handler = "Request \<Rightarrow> Response \<Rightarrow> 'st \<Rightarrow> (Response \<times> 'st) option"

text \<open>
  A pattern of a \<open>ServeMux\<close>: literal segments and wildcards for one segment each; a pattern that
  ends in a slash matches the whole subtree, one that ends in \<open>{$}\<close> its root only.
\<close>

datatype segment = Lit string | Wild string

datatype pattern_end = Exact | Subtree | RootOnly

record pattern =
  pat_segments :: "segment list"
  pat_end :: pattern_end

fun match_segments :: "segment list \<Rightarrow> string list \<Rightarrow> ((string \<times> string) list \<times> string list) option" where
  "match_segments [] rest = Some ([], rest)"
| "match_segments (Lit l # ss) (x # xs) = (if x = l then match_segments ss xs else None)"
| "match_segments (Wild n # ss) (x # xs) =
     (if x = [] then None
      else case match_segments ss xs of
        None \<Rightarrow> None
      | Some (vs, rest) \<Rightarrow> Some ((n, x) # vs, rest))"
| "match_segments (s # ss) [] = None"

definition match_pattern :: "pattern \<Rightarrow> string list \<Rightarrow> (string \<times> string) list option" where
  "match_pattern p segs =
     (case match_segments (pat_segments p) segs of
        None \<Rightarrow> None
      | Some (vs, rest) \<Rightarrow>
          (if (case pat_end p of Exact \<Rightarrow> rest = [] | Subtree \<Rightarrow> rest \<noteq> [] | RootOnly \<Rightarrow> rest = [[]])
           then Some vs else None))"

text \<open>The segments of a cleaned escaped path, each of them unescaped.\<close>

definition path_segments :: "string \<Rightarrow> string list" where
  "path_segments p =
     map (\<lambda>s. case unescape encodePath s of Inr t \<Rightarrow> t | Inl e \<Rightarrow> s) (Split (drop 1 p) CHR ''/'')"

definition mux_path :: "URL \<Rightarrow> string" where
  "mux_path u =
     (let p = EscapedPath u; q = (if HasPrefix p ''/'' then p else ''/'' @ p)
      in clean_keep_slash q)"

text \<open>
  Dispatching: a path that is not clean, or that lacks only the slash of a subtree, is redirected;
  otherwise the first pattern that matches the path and the method is taken (no two patterns of
  the program that are listed in this order conflict), and its wildcards are the path values.  The
  method \<open>GET\<close> of a pattern also stands for \<open>HEAD\<close>.
\<close>

datatype 'h mux_result =
    MuxRedirect string
  | MuxHandler 'h "(string \<times> string) list"
  | MuxMethodNotAllowed
  | MuxNotFound

definition method_matches :: "string option \<Rightarrow> string \<Rightarrow> bool" where
  "method_matches m method \<longleftrightarrow>
     (case m of None \<Rightarrow> True | Some x \<Rightarrow> method = x \<or> x = ''GET'' \<and> method = ''HEAD'')"

fun mux_find ::
  "(string option \<times> pattern \<times> 'h) list \<Rightarrow> string \<Rightarrow> string list \<Rightarrow> ('h \<times> (string \<times> string) list) option" where
  "mux_find [] method segs = None"
| "mux_find ((m, p, h) # routes) method segs =
     (case match_pattern p segs of
        Some vs \<Rightarrow> if method_matches m method then Some (h, vs) else mux_find routes method segs
      | None \<Rightarrow> mux_find routes method segs)"

definition mux_dispatch ::
  "(string option \<times> pattern \<times> 'h) list \<Rightarrow> Request \<Rightarrow> 'h mux_result" where
  "mux_dispatch routes r =
     (let p = mux_path (rq_URL r);
          segs = path_segments p
      in case mux_find routes (rq_Method r) segs of
           Some (h, vs) \<Rightarrow>
             if p \<noteq> EscapedPath (rq_URL r) then MuxRedirect p else MuxHandler h vs
         | None \<Rightarrow>
             if mux_find routes (rq_Method r) (segs @ [[]]) \<noteq> None then MuxRedirect (p @ ''/'')
             else if p \<noteq> EscapedPath (rq_URL r) then MuxRedirect p
             else if list_ex (\<lambda>(m, q, h). match_pattern q segs \<noteq> None) routes
             then MuxMethodNotAllowed
             else MuxNotFound)"

text \<open>The responses the mux itself gives.\<close>

definition mux_redirect :: "(string \<Rightarrow> bool) \<Rightarrow> Request \<Rightarrow> string \<Rightarrow> Response \<Rightarrow> Response" where
  "mux_redirect ip6 r p w =
     http_Redirect ip6 r
       (url_String (empty_URL\<lparr>UrlPath := p, RawQuery := RawQuery (rq_URL r)\<rparr>)) 307 w"

definition mux_not_allowed :: "Response \<Rightarrow> Response" where
  "mux_not_allowed w = http_Error ''Method Not Allowed'' 405 w"

section \<open>Lemmas\<close>

text \<open>Only \<open>SetCookie\<close> sets cookies.\<close>

lemma cookies_frame [simp, frame]:
  "rs_Cookies (Header_Set k v w) = rs_Cookies w" "rs_Cookies (Header_Del k w) = rs_Cookies w"
  "rs_Cookies (WriteHeader c w) = rs_Cookies w" "rs_Cookies (SetCookie ck w) = rs_Cookies w @ [ck]"
  by (simp_all add: Header_Set_def Header_Del_def WriteHeader_def SetCookie_def split: option.splits)

lemma cookies_Write [simp, frame]: "rs_Cookies (snd (rs_Write p w)) = rs_Cookies w"
  using cookies_frame(3) [of 200 w]
  by (auto simp: rs_Write_def Let_def simp del: cookies_frame(3) split: list.splits option.splits)

lemma cookies_Write_eq: "rs_Write p w = (r, w') \<Longrightarrow> rs_Cookies w' = rs_Cookies w"
  by (metis cookies_Write snd_conv)

lemma cookies_http [simp, frame]:
  "rs_Cookies (http_Error msg c w) = rs_Cookies w" "rs_Cookies (http_NotFound w) = rs_Cookies w"
  "rs_Cookies (http_Redirect ip6 r t c w) = rs_Cookies w"
  "rs_Cookies (mux_redirect ip6 r p w) = rs_Cookies w"
  "rs_Cookies (mux_not_allowed w) = rs_Cookies w"
  by (simp_all add: http_Error_def http_NotFound_def http_Redirect_def mux_redirect_def
      mux_not_allowed_def Let_def)

section \<open>Plain request paths\<close>

text \<open>
  A path of plain elements is clean, and its segments are those elements.  A query behind it has
  no part in routing.
\<close>

definition plain_elem :: "string \<Rightarrow> bool" where
  "plain_elem e \<longleftrightarrow> path_elem e \<and> e \<noteq> dotdot \<and> list_all unreserved e"

definition plain_url :: "string list \<Rightarrow> URL" where
  "plain_url es = empty_URL\<lparr>UrlPath := slash # Join es [slash]\<rparr>"

lemma plain_path_Join: "\<forall>e \<in> set es. plain_elem e \<Longrightarrow> plain_path (slash # Join es [slash])"
proof (induction es)
  case (Cons e es)
  then show ?case
    by (cases "es = []") (auto simp: plain_path_def Join_Cons plain_elem_def slash_def list_all_iff)
qed (simp add: plain_path_def slash_def)

lemma plain_url_mux:
  assumes "\<forall>e \<in> set es. plain_elem e" "es \<noteq> []"
  shows "mux_path (plain_url es) = slash # Join es [slash]"
    and "EscapedPath (plain_url es) = slash # Join es [slash]"
    and "path_segments (slash # Join es [slash]) = es"
proof -
  let ?p = "slash # Join es [slash]"
  have e: "\<forall>e \<in> set es. path_elem e" "dotdot \<notin> set es" using assms(1) by (auto simp: plain_elem_def)
  have "path_elems ?p = es" using path_elems_append [of "[]" "Join es [slash]"] path_elems_Join [OF e(1)] by simp
  then have "clean_elems ?p = es" using e(2) by (simp add: clean_elems_def clean_steps_no_dotdot)
  then have c: "Clean ?p = ?p" by (simp add: Clean_def render_path_def rooted_def)
  show ep: "EscapedPath (plain_url es) = ?p"
    using plain_path_escape [OF plain_path_Join [OF assms(1)]]
    by (simp add: EscapedPath_def plain_url_def empty_URL_def slash_def)
  show "mux_path (plain_url es) = ?p"
    using c by (simp add: mux_path_def ep clean_keep_slash_def HasPrefix_def slash_def Let_def)
  have "unescape encodePath e = Inr e" if "e \<in> set es" for e
  proof -
    have "plain_path e" using assms(1) that by (auto simp: plain_elem_def plain_path_def list_all_iff)
    then show ?thesis by (rule plain_path_escape)
  qed
  moreover have "Split (Join es [slash]) slash = es"
    using e(1) assms(2) by (intro Split_Join) (auto simp: path_elem_def)
  ultimately show "path_segments ?p = es"
    by (simp add: path_segments_def slash_def [symmetric] map_idI)
qed

lemma plain_dispatch:
  assumes "\<forall>e \<in> set es. plain_elem e" "es \<noteq> []" "rq_URL r = plain_url es"
    and "mux_find routes (rq_Method r) es = Some (h, vs)"
  shows "mux_dispatch routes r = MuxHandler h vs"
  using assms plain_url_mux [OF assms(1,2)] by (simp add: mux_dispatch_def Let_def)

definition query_char :: "char \<Rightarrow> bool" where
  "query_char c \<longleftrightarrow> unreserved c \<or> c \<in> set ''=&%+''"

definition plain_target :: "string list \<Rightarrow> string \<Rightarrow> URL" where
  "plain_target es q = (plain_url es)\<lparr>RawQuery := q\<rparr>"

definition target_text :: "string list \<Rightarrow> string \<Rightarrow> string" where
  "target_text es q = slash # Join es [slash] @ (if q = [] then [] else ''?'' @ q)"

lemma EscapedPath_query [simp]: "EscapedPath (u\<lparr>RawQuery := q\<rparr>) = EscapedPath u"
  by (simp add: EscapedPath_def)

lemma mux_dispatch_cong:
  assumes "EscapedPath (rq_URL r) = EscapedPath (rq_URL r')" "rq_Method r = rq_Method r'"
  shows "mux_dispatch routes r = mux_dispatch routes r'"
  unfolding mux_dispatch_def mux_path_def assms by simp

lemma mux_dispatch_query:
  assumes "rq_URL r = u\<lparr>RawQuery := q\<rparr>"
  shows "mux_dispatch routes r = mux_dispatch routes (r\<lparr>rq_URL := u\<rparr>)"
  by (rule mux_dispatch_cong) (simp_all add: assms)

lemma RequestURI_plain:
  assumes "\<forall>e \<in> set es. plain_elem e" "es \<noteq> []"
  shows "RequestURI (plain_target es q) = target_text es q"
proof -
  have "EscapedPath (plain_target es q) = slash # Join es [slash]"
    using plain_url_mux(2) [OF assms] by (simp add: plain_target_def)
  moreover have "Opaque (plain_target es q) = []" "ForceQuery (plain_target es q) = False"
    "RawQuery (plain_target es q) = q"
    by (simp_all add: plain_target_def plain_url_def empty_URL_def)
  ultimately show ?thesis by (simp add: RequestURI_def target_text_def)
qed

lemma query_char_printable: "query_char c \<Longrightarrow> 32 \<le> code c \<and> code c \<noteq> 127"
  using unreserved_printable by (auto simp: query_char_def code_def)

lemma plain_elem_start:
  "\<forall>e \<in> set es. plain_elem e \<Longrightarrow> es \<noteq> [] \<Longrightarrow> \<exists>c s. Join es [slash] = c # s \<and> unreserved c"
proof (cases es)
  case (Cons e es')
  assume "\<forall>e \<in> set es. plain_elem e"
  with Cons have "e \<noteq> []" "list_all unreserved e" by (auto simp: plain_elem_def path_elem_def)
  with Cons show ?thesis by (cases es'; cases e) auto
qed simp

lemma url_Parse_target:
  assumes "\<forall>e \<in> set es. plain_elem e" "es \<noteq> []" "list_all query_char q"
  shows "url_Parse ip6 (target_text es q) = Inr (plain_target es q)"
proof -
  let ?p = "slash # Join es [slash]" and ?t = "target_text es q"
  have p: "plain_path ?p" by (rule plain_path_Join [OF assms(1)])
  have pc: "unreserved c \<or> c = CHR ''/''" if "c \<in> set ?p" for c
    using p that by (auto simp: plain_path_def list_all_iff)
  have qc: "query_char c" if "c \<in> set q" for c using assms(3) that by (simp add: list_all_iff)
  have mem: "c \<in> set ?p \<or> c = CHR ''?'' \<or> c \<in> set q" if "c \<in> set ?t" for c
    using that by (auto simp: target_text_def split: if_splits)
  have nq: "\<not> query_char CHR ''#''" by code_simp
  have "CHR ''#'' \<notin> set ?t"
    using mem [of "CHR ''#''"] pc [of "CHR ''#''"] qc [of "CHR ''#''"] nq by auto
  then have hash: "cut_total ?t CHR ''#'' = (?t, [])" by (simp add: cut_total_def Cut_None_iff [THEN iffD2])
  have "32 \<le> code c \<and> code c \<noteq> 127" if "c \<in> set ?t" for c
  proof -
    have "code CHR ''/'' = 47" "code CHR ''?'' = 63" by (simp_all add: code_def)
    then show ?thesis
      using mem [OF that] pc [of c] qc [of c] unreserved_printable [of c] query_char_printable [of c]
      by (elim disjE) auto
  qed
  then have ctl: "\<not> containsCTLByte ?t"
    unfolding containsCTLByte_def list_ex_iff by (metis not_le)
  obtain c s where cs: "Join es [slash] = c # s" "unreserved c"
    using plain_elem_start [OF assms(1,2)] by blast
  then have t: "?t = slash # c # (s @ (if q = [] then [] else ''?'' @ q))" by (simp add: target_text_def)
  have c: "c \<noteq> slash" using cs(2) by (auto simp: slash_def)
  have sch: "getScheme ?t = Inr ([], ?t)"
    unfolding t by (simp add: getScheme_def slash_def is_lower_def is_upper_def is_digit_def less_eq_char_def)
  have "CHR ''?'' \<notin> set ?p" using pc [of "CHR ''?''"] by auto
  then have split: "split_query ?t = (?p, False, q)"
    using Cut_append [of "CHR ''?''" ?p q]
    by (auto simp: split_query_def target_text_def Cut_None_iff [THEN iffD2])
  have star: "?t \<noteq> ''*''" unfolding t by (simp add: slash_def)
  have pre: "HasPrefix ?p ''/''" "\<not> HasPrefix ?p ''//''"
    using cs(1) c by (simp_all add: HasPrefix_def slash_def)
  have "url_Parse ip6 ?t = parse_hier ip6 (empty_URL\<lparr>Scheme := ToLower [], ForceQuery := False, RawQuery := q\<rparr>) ?p"
    using hash ctl sch split star pre(1) by (simp add: url_Parse_def parse_ref_def split: sum.splits)
  also have "\<dots> = Inr (plain_target es q)"
    using pre plain_path_escape [OF p]
    by (simp add: parse_hier_def setPath_def ToLower_def plain_target_def plain_url_def empty_URL_def)
  finally show ?thesis .
qed

lemma redirect_target:
  assumes "\<forall>e \<in> set es. plain_elem e" "es \<noteq> []" "list_all query_char q"
  shows "redirect_location ip6 r (target_text es q) = target_text es q"
    and "hex_escape_non_ascii (target_text es q) = target_text es q"
proof -
  let ?p = "slash # Join es [slash]"
  have pc: "unreserved c \<or> c = CHR ''/''" if "c \<in> set ?p" for c
    using plain_path_Join [OF assms(1)] that by (auto simp: plain_path_def list_all_iff)
  have "clean_keep_slash ?p = ?p"
    using plain_url_mux(1,2) [OF assms(1,2)] by (simp add: mux_path_def HasPrefix_def slash_def)
  moreover have "c \<noteq> CHR ''?''" if "c \<in> set ?p" for c using pc [OF that] by auto
  then have "takeWhile (\<lambda>c. c \<noteq> CHR ''?'') (target_text es q) = ?p"
    "dropWhile (\<lambda>c. c \<noteq> CHR ''?'') (target_text es q) = (if q = [] then [] else ''?'' @ q)"
    by (auto simp: target_text_def takeWhile_append dropWhile_append)
  moreover have "HasPrefix (target_text es q) ''/''" by (simp add: target_text_def HasPrefix_def slash_def)
  moreover have "Scheme (plain_target es q) = []" "UrlHost (plain_target es q) = []"
    by (simp_all add: plain_target_def plain_url_def empty_URL_def)
  ultimately show "redirect_location ip6 r (target_text es q) = target_text es q"
    unfolding redirect_location_def url_Parse_target [OF assms] by (simp add: Let_def target_text_def)
  have asc: "code c < 128" if "unreserved c \<or> c \<in> set ''/?=&%+''" for c
    using that by (auto simp: unreserved_def is_alnum_def is_lower_def is_upper_def is_digit_def
        less_eq_char_def code_def)
  have "code c < 128" if "c \<in> set (target_text es q)" for c
    using that pc [of c] assms(3)
    by (intro asc) (auto simp: target_text_def query_char_def list_all_iff split: if_splits)
  then have "map (\<lambda>c. if 128 \<le> code c
      then [CHR ''%'', to_lower (hexdigit (code c div 16)), to_lower (hexdigit (code c mod 16))]
      else [c]) (target_text es q) = map (\<lambda>c. [c]) (target_text es q)"
    by (intro map_cong refl) (simp add: not_le)
  then show "hex_escape_non_ascii (target_text es q) = target_text es q"
    unfolding hex_escape_non_ascii_def by (simp only: concat_map_singleton map_ident)
qed

section \<open>Escaped query values\<close>

lemma hexdigit_unhex: "n < 16 \<Longrightarrow> unhex (hexdigit n) = Some n \<and> unreserved (hexdigit n)"
proof -
  have "list_all (\<lambda>n. unhex (hexdigit n) = Some n \<and> unreserved (hexdigit n)) [0..<16]" by code_simp
  then show "n < 16 \<Longrightarrow> ?thesis" by (simp add: list_all_iff)
qed

lemma code_hex: "code c div 16 < 16" "code c mod 16 < 16" "char_of (16 * (code c div 16) + code c mod 16) = c"
proof -
  have "(of_char c :: nat) < 256"
    using nat_of_char_less_256 [of c] by simp
  then show "code c div 16 < 16" "code c mod 16 < 16" "char_of (16 * (code c div 16) + code c mod 16) = c"
    by (simp_all add: code_def less_mult_imp_div_less)
qed

lemma unescape_escape_char:
  "unescape encodeQueryComponent (escape_char encodeQueryComponent c @ s) =
     map_sum id (Cons c) (unescape encodeQueryComponent s)"
proof (cases "shouldEscape c encodeQueryComponent")
  case False
  then have "c \<noteq> CHR ''%''" "c \<noteq> CHR ''+''"
    by (auto simp: shouldEscape_def is_alnum_def is_lower_def is_upper_def is_digit_def less_eq_char_def)
  with False show ?thesis by (simp add: escape_char_def)
next
  case True
  then show ?thesis
    using hexdigit_unhex [OF code_hex(1) [of c]] hexdigit_unhex [OF code_hex(2) [of c]] code_hex(3) [of c]
    by (simp add: escape_char_def bad_escape_def)
qed

lemma unescape_QueryEscape: "unescape encodeQueryComponent (QueryEscape s) = Inr s"
  unfolding QueryEscape_def escape_def
  by (induction s) (simp_all add: unescape_escape_char del: unescape.simps(2))

lemma QueryEscape_chars: "c \<in> set (QueryEscape s) \<Longrightarrow> unreserved c \<or> c = CHR ''%'' \<or> c = CHR ''+''"
proof -
  have "unreserved c \<or> c = CHR ''%'' \<or> c = CHR ''+''" if "c \<in> set (escape_char encodeQueryComponent d)" for d
    using that hexdigit_unhex [OF code_hex(1) [of d]] hexdigit_unhex [OF code_hex(2) [of d]]
    by (auto simp: escape_char_def shouldEscape_def unreserved_def split: if_splits)
  then show "c \<in> set (QueryEscape s) \<Longrightarrow> ?thesis" by (auto simp: QueryEscape_def escape_def)
qed

lemma query_pairs_single:
  assumes "list_all unreserved k" "k \<noteq> []"
  shows "query_pairs (k @ ''='' @ QueryEscape v) = [(k, v)]"
proof -
  have k: "unreserved c" if "c \<in> set k" for c using assms(1) that by (simp add: list_all_iff)
  have n: "\<not> unreserved CHR ''&''" "\<not> unreserved CHR '';''" "\<not> unreserved CHR ''=''" by code_simp+
  have "CHR ''&'' \<notin> set (k @ ''='' @ QueryEscape v)" "CHR '';'' \<notin> set (k @ ''='' @ QueryEscape v)"
    "CHR ''='' \<notin> set k"
    using k n QueryEscape_chars [of "CHR ''&''" v] QueryEscape_chars [of "CHR '';''" v] by auto
  moreover have "unescape encodeQueryComponent k = Inr k"
    using k k [of "CHR ''%''"] k [of "CHR ''+''"] by (intro unescape_plain) (auto simp: list_all_iff)
  ultimately show ?thesis
    using unescape_QueryEscape [of v] Cut_append [of "CHR ''=''" k "QueryEscape v"]
    by (simp add: query_pairs_def query_pair_def Split_id cut_total_def List.map_filter_def)
qed

end
