(* ===== verification/AuthSession.thy ===== *)
theory AuthSession
  imports Base64 Http
begin

text \<open>
  The configuration of single sign-on (\<open>src/auth/config.go\<close>) and the session cookies
  (\<open>src/auth/session.go\<close>).  AES-GCM and SHA-256 are parameters, with what authenticated encryption
  documents: opening what was sealed gives the text back, and nothing else opens.  So is
  \<open>encoding/json\<close> on the two types of cookie contents.
\<close>

section \<open>Configuration\<close>

text \<open>\<open>os.Getenv\<close>: a variable that is not set reads as the empty string.\<close>

type_synonym environ = "string \<Rightarrow> string"

record Config =
  IssuerURL :: string
  ClientID :: string
  ClientSecret :: string
  RedirectURL :: string
  Scopes :: "string list"
  SessionSecret :: string
  InsecureCookies :: bool

definition defaultScopes :: "string list" where
  "defaultScopes = [''openid'', ''profile'', ''email'']"

definition minSessionSecretLen :: nat where
  "minSessionSecretLen = 16"

definition missing_vars :: "environ \<Rightarrow> string list" where
  "missing_vars env = filter (\<lambda>v. env v = [])
     [''BEP_OIDC_ISSUER_URL'', ''BEP_OIDC_CLIENT_ID'', ''BEP_OIDC_CLIENT_SECRET'',
      ''BEP_OIDC_REDIRECT_URL'', ''BEP_SESSION_SECRET'']"

definition ConfigFromEnv :: "environ \<Rightarrow> goerror + Config option" where
  "ConfigFromEnv env =
     (if env ''BEP_OIDC_ISSUER_URL'' = [] \<and> env ''BEP_OIDC_CLIENT_ID'' = [] then Inr None
      else if missing_vars env \<noteq> [] then
        Inl (Errorf ''auth: incomplete OIDC configuration, missing %s'' [Join (missing_vars env) '', ''])
      else if length (env ''BEP_SESSION_SECRET'') < minSessionSecretLen then
        Inl (Errorf ''auth: BEP_SESSION_SECRET must be at least %d bytes''
               [Itoa (int minSessionSecretLen)])
      else Inr (Some
        \<lparr>IssuerURL = env ''BEP_OIDC_ISSUER_URL'', ClientID = env ''BEP_OIDC_CLIENT_ID'',
         ClientSecret = env ''BEP_OIDC_CLIENT_SECRET'', RedirectURL = env ''BEP_OIDC_REDIRECT_URL'',
         Scopes = (if env ''BEP_OIDC_SCOPES'' \<noteq> [] then Fields (env ''BEP_OIDC_SCOPES'')
                   else defaultScopes),
         SessionSecret = env ''BEP_SESSION_SECRET'',
         InsecureCookies = (env ''BEP_INSECURE_COOKIES'' = ''true'')\<rparr>))"

section \<open>Cookie contents and their codec\<close>

record Session =
  Email :: string
  SessionName :: string
  Expiry :: gotime

record loginState =
  State :: string
  Nonce :: string
  ReturnPath :: string

definition sessionLifetime :: int where
  "sessionLifetime = 24 * 3600 * 1000000000"

definition loginStateLifetime :: int where
  "loginStateLifetime = 10 * 60 * 1000000000"

definition sessionCookieName :: string where
  "sessionCookieName = ''bepper_session''"

definition loginStateCookieName :: string where
  "loginStateCookieName = ''bepper_oidc_state''"

record crypto_api =
  Sum256 :: "bytes \<Rightarrow> bytes"
  NewGCM :: "bytes \<Rightarrow> goerror option"
  NonceSize :: nat
  Seal :: "bytes \<Rightarrow> bytes \<Rightarrow> bytes \<Rightarrow> bytes"
  Open :: "bytes \<Rightarrow> bytes \<Rightarrow> bytes \<Rightarrow> goerror + bytes"

definition aead_lawful :: "crypto_api \<Rightarrow> bool" where
  "aead_lawful cr \<longleftrightarrow> 0 < NonceSize cr \<and>
     (\<forall>k n p. Open cr k n (Seal cr k n p) = Inr p) \<and>
     (\<forall>k n c p. Open cr k n c = Inr p \<longrightarrow> c = Seal cr k n p)"

record 'v json_codec =
  js_Marshal :: "'v \<Rightarrow> goerror + bytes"
  js_Unmarshal :: "bytes \<Rightarrow> goerror + 'v"

record sessionCodec =
  codec_key :: bytes

definition newSessionCodec :: "crypto_api \<Rightarrow> string \<Rightarrow> sessionCodec" where
  "newSessionCodec cr secret = \<lparr>codec_key = Sum256 cr secret\<rparr>"

definition gcm :: "crypto_api \<Rightarrow> sessionCodec \<Rightarrow> goerror + bytes" where
  "gcm cr c = (case NewGCM cr (codec_key c) of Some e \<Rightarrow> Inl e | None \<Rightarrow> Inr (codec_key c))"

text \<open>\<open>rnd n\<close> is what \<open>rand.Read\<close> does with a slice of \<open>n\<close> bytes.\<close>

definition encodeValue ::
  "crypto_api \<Rightarrow> 'v json_codec \<Rightarrow> (nat \<Rightarrow> goerror + bytes) \<Rightarrow> sessionCodec \<Rightarrow> 'v \<Rightarrow> goerror + string" where
  "encodeValue cr js rnd c v =
     (case js_Marshal js v of
        Inl e \<Rightarrow> Inl e
      | Inr plaintext \<Rightarrow>
          (case gcm cr c of
             Inl e \<Rightarrow> Inl e
           | Inr key \<Rightarrow>
               (case rnd (NonceSize cr) of
                  Inl e \<Rightarrow> Inl e
                | Inr nonce \<Rightarrow> Inr (b64_encode (nonce @ Seal cr key nonce plaintext)))))"

definition decodeValue :: "crypto_api \<Rightarrow> 'v json_codec \<Rightarrow> sessionCodec \<Rightarrow> string \<Rightarrow> goerror + 'v" where
  "decodeValue cr js c raw =
     (case b64_decode raw of
        Inl e \<Rightarrow> Inl e
      | Inr data \<Rightarrow>
          (case gcm cr c of
             Inl e \<Rightarrow> Inl e
           | Inr key \<Rightarrow>
               if length data < NonceSize cr then Inl (Errorf ''auth: cookie payload too short'' [])
               else (case Open cr key (take (NonceSize cr) data) (drop (NonceSize cr) data) of
                  Inl e \<Rightarrow> Inl e
                | Inr plaintext \<Rightarrow> js_Unmarshal js plaintext)))"

definition ErrSessionExpired :: goerror where
  "ErrSessionExpired = Errorf ''auth: session expired'' []"

definition decodeSession ::
  "crypto_api \<Rightarrow> Session json_codec \<Rightarrow> gotime \<Rightarrow> sessionCodec \<Rightarrow> string \<Rightarrow> goerror + Session" where
  "decodeSession cr js now c raw =
     (case decodeValue cr js c raw of
        Inl e \<Rightarrow> Inl e
      | Inr s \<Rightarrow> if Expiry s < now then Inl ErrSessionExpired else Inr s)"

section \<open>Cookies\<close>

definition session_cookie :: "bool \<Rightarrow> string \<Rightarrow> gotime \<Rightarrow> Cookie" where
  "session_cookie secure raw expiry =
     \<lparr>ck_Name = sessionCookieName, ck_Value = raw, ck_Path = ''/'', ck_HttpOnly = True,
      ck_Secure = secure, ck_SameSite = ''Lax'', ck_Expires = Some expiry, ck_MaxAge = 0\<rparr>"

definition setSessionCookie ::
  "crypto_api \<Rightarrow> Session json_codec \<Rightarrow> (nat \<Rightarrow> goerror + bytes) \<Rightarrow> sessionCodec \<Rightarrow> bool \<Rightarrow> Session \<Rightarrow>
   Response \<Rightarrow> goerror option \<times> Response" where
  "setSessionCookie cr js rnd c secure s w =
     (case encodeValue cr js rnd c s of
        Inl e \<Rightarrow> (Some (WrapErr ''auth: encode session'' [] e), w)
      | Inr raw \<Rightarrow> (None, SetCookie (session_cookie secure raw (Expiry s)) w))"

definition clearSessionCookie :: "bool \<Rightarrow> Response \<Rightarrow> Response" where
  "clearSessionCookie secure w =
     SetCookie \<lparr>ck_Name = sessionCookieName, ck_Value = [], ck_Path = ''/'', ck_HttpOnly = True,
       ck_Secure = secure, ck_SameSite = ''Lax'', ck_Expires = None, ck_MaxAge = - 1\<rparr> w"

definition sessionFromRequest ::
  "crypto_api \<Rightarrow> Session json_codec \<Rightarrow> gotime \<Rightarrow> Request \<Rightarrow> sessionCodec \<Rightarrow> Session option" where
  "sessionFromRequest cr js now r c =
     (case request_cookie r sessionCookieName of
        None \<Rightarrow> None
      | Some raw \<Rightarrow> (case decodeSession cr js now c raw of Inl e \<Rightarrow> None | Inr s \<Rightarrow> Some s))"

definition login_state_cookie :: "bool \<Rightarrow> string \<Rightarrow> Cookie" where
  "login_state_cookie secure raw =
     \<lparr>ck_Name = loginStateCookieName, ck_Value = raw, ck_Path = ''/auth'', ck_HttpOnly = True,
      ck_Secure = secure, ck_SameSite = ''Lax'', ck_Expires = None,
      ck_MaxAge = loginStateLifetime div 1000000000\<rparr>"

definition setLoginStateCookie ::
  "crypto_api \<Rightarrow> loginState json_codec \<Rightarrow> (nat \<Rightarrow> goerror + bytes) \<Rightarrow> sessionCodec \<Rightarrow> bool \<Rightarrow>
   loginState \<Rightarrow> Response \<Rightarrow> goerror option \<times> Response" where
  "setLoginStateCookie cr js rnd c secure ls w =
     (case encodeValue cr js rnd c ls of
        Inl e \<Rightarrow> (Some (WrapErr ''auth: encode login state'' [] e), w)
      | Inr raw \<Rightarrow> (None, SetCookie (login_state_cookie secure raw) w))"

definition clearLoginStateCookie :: "bool \<Rightarrow> Response \<Rightarrow> Response" where
  "clearLoginStateCookie secure w =
     SetCookie \<lparr>ck_Name = loginStateCookieName, ck_Value = [], ck_Path = ''/auth'',
       ck_HttpOnly = True, ck_Secure = secure, ck_SameSite = ''Lax'', ck_Expires = None,
       ck_MaxAge = - 1\<rparr> w"

definition loginStateFromRequest ::
  "crypto_api \<Rightarrow> loginState json_codec \<Rightarrow> Request \<Rightarrow> sessionCodec \<Rightarrow> loginState option" where
  "loginStateFromRequest cr js r c =
     (case request_cookie r loginStateCookieName of
        None \<Rightarrow> None
      | Some raw \<Rightarrow> (case decodeValue cr js c raw of Inl e \<Rightarrow> None | Inr ls \<Rightarrow> Some ls))"

section \<open>The codec\<close>

definition marshals_back :: "'v json_codec \<Rightarrow> 'v \<Rightarrow> bool" where
  "marshals_back js v \<longleftrightarrow> (\<forall>b. js_Marshal js v = Inr b \<longrightarrow> js_Unmarshal js b = Inr v)"

text \<open>\<open>rand.Read\<close> fills the whole slice.\<close>

definition fills :: "(nat \<Rightarrow> goerror + bytes) \<Rightarrow> bool" where
  "fills rnd \<longleftrightarrow> (\<forall>n b. rnd n = Inr b \<longrightarrow> length b = n)"

text \<open>What a value that decodes must have been made from.\<close>

definition sealed_in :: "crypto_api \<Rightarrow> sessionCodec \<Rightarrow> string \<Rightarrow> bytes \<Rightarrow> bool" where
  "sealed_in cr c raw plaintext \<longleftrightarrow>
     (\<exists>nonce. length nonce = NonceSize cr \<and>
        b64_decode raw = Inr (nonce @ Seal cr (codec_key c) nonce plaintext))"

lemma encodeValue_sealed:
  assumes "encodeValue cr js rnd c v = Inr raw" "fills rnd"
  shows "\<exists>p. js_Marshal js v = Inr p \<and> sealed_in cr c raw p"
  using assms
  by (fastforce simp: encodeValue_def gcm_def sealed_in_def fills_def split: sum.splits option.splits)

lemma decodeValue_sealed:
  assumes "decodeValue cr js c raw = Inr v" "aead_lawful cr"
  shows "\<exists>p. sealed_in cr c raw p \<and> js_Unmarshal js p = Inr v"
proof -
  from assms(1) obtain d p where d: "b64_decode raw = Inr d" "NonceSize cr \<le> length d"
    "Open cr (codec_key c) (take (NonceSize cr) d) (drop (NonceSize cr) d) = Inr p"
    "js_Unmarshal js p = Inr v"
    by (auto simp: decodeValue_def gcm_def split: sum.splits option.splits if_splits)
  then have "drop (NonceSize cr) d = Seal cr (codec_key c) (take (NonceSize cr) d) p"
    using assms(2) by (simp add: aead_lawful_def)
  then have "d = take (NonceSize cr) d @ Seal cr (codec_key c) (take (NonceSize cr) d) p"
    by (metis append_take_drop_id)
  with d show ?thesis
    unfolding sealed_in_def by (metis length_take min.absorb2)
qed

lemma sealed_in_unique:
  assumes "sealed_in cr c raw p" "sealed_in cr c raw q" "aead_lawful cr"
  shows "p = q"
  using assms unfolding sealed_in_def aead_lawful_def
  by (metis append_eq_append_conv sum.inject(2))

lemma decodeValue_of_sealed:
  assumes "sealed_in cr c raw p" "aead_lawful cr" "NewGCM cr (codec_key c) = None"
  shows "decodeValue cr js c raw = js_Unmarshal js p"
  using assms by (auto simp: decodeValue_def gcm_def sealed_in_def aead_lawful_def)

text \<open>
  C35: A cookie is read back.  A session that was encoded into a cookie and comes back in a request
  is decoded to the same session until its expiry, and is rejected as expired after that.
\<close>

theorem session_cookie_round_trip:
  assumes "aead_lawful cr" "fills rnd" "marshals_back js s"
    and "setSessionCookie cr js rnd c secure s w = (None, w')"
    and "request_cookie r sessionCookieName = Some (ck_Value (last (rs_Cookies w')))"
  shows "sessionFromRequest cr js now r c = (if Expiry s < now then None else Some s)"
proof -
  from assms(4) obtain raw where raw: "encodeValue cr js rnd c s = Inr raw"
    "w' = SetCookie (session_cookie secure raw (Expiry s)) w"
    by (auto simp: setSessionCookie_def split: sum.splits)
  from raw(1) have g: "NewGCM cr (codec_key c) = None"
    by (auto simp: encodeValue_def gcm_def split: sum.splits option.splits)
  obtain p where p: "js_Marshal js s = Inr p" "sealed_in cr c raw p"
    using encodeValue_sealed [OF raw(1) assms(2)] by auto
  have "decodeValue cr js c raw = Inr s"
    using decodeValue_of_sealed [OF p(2) assms(1) g, of js] p(1) assms(3) by (simp add: marshals_back_def)
  moreover have "request_cookie r sessionCookieName = Some raw"
    using assms(5) raw(2) by (simp add: SetCookie_def session_cookie_def)
  ultimately show ?thesis by (simp add: sessionFromRequest_def decodeSession_def)
qed

text \<open>Authenticated encryption and a JSON codec for examples.\<close>

definition sample_crypto :: crypto_api where
  "sample_crypto =
     \<lparr>Sum256 = (\<lambda>s. s), NewGCM = (\<lambda>k. None), NonceSize = 2, Seal = (\<lambda>k n p. k @ n @ p),
      Open = (\<lambda>k n c. if HasPrefix c (k @ n) then Inr (drop (length (k @ n)) c)
                      else Inl (Errorf ''cipher: message authentication failed'' []))\<rparr>"

lemma sample_crypto_lawful: "aead_lawful sample_crypto"
  by (auto simp: aead_lawful_def sample_crypto_def HasPrefix_def prefix_def split: if_splits)

definition sample_rand :: "nat \<Rightarrow> goerror + bytes" where
  "sample_rand n = Inr (replicate n CHR ''r'')"

lemma sample_rand_fills: "fills sample_rand"
  by (auto simp: fills_def sample_rand_def)

definition sample_session :: Session where
  "sample_session = \<lparr>Email = ''ann@example'', SessionName = ''Ann'', Expiry = 100\<rparr>"

definition sample_session_json :: "Session json_codec" where
  "sample_session_json =
     \<lparr>js_Marshal = (\<lambda>s. if s = sample_session then Inr ''s'' else Inl (Errorf ''no'' [])),
      js_Unmarshal = (\<lambda>b. if b = ''s'' then Inr sample_session else Inl (Errorf ''no'' []))\<rparr>"

theorem session_cookie_round_trip_witness:
  "sessionFromRequest sample_crypto sample_session_json 100
     \<lparr>rq_Method = ''GET'', rq_URL = empty_URL, rq_Cookies = [(''bepper_session'', b64_encode ''rrkeyrrs'')]\<rparr>
     \<lparr>codec_key = ''key''\<rparr> = Some sample_session"
proof -
  let ?c = "\<lparr>codec_key = ''key''\<rparr>"
  let ?r = "\<lparr>rq_Method = ''GET'', rq_URL = empty_URL, rq_Cookies = [(''bepper_session'', b64_encode ''rrkeyrrs'')]\<rparr>"
  have s: "setSessionCookie sample_crypto sample_session_json sample_rand ?c True sample_session (new_response [])
      = (None, SetCookie (session_cookie True (b64_encode ''rrkeyrrs'') 100) (new_response []))"
    by (simp add: setSessionCookie_def encodeValue_def gcm_def sample_crypto_def sample_session_json_def
        sample_rand_def numeral_2_eq_2 del: b64_encode.simps) (simp add: sample_session_def)
  have "sessionFromRequest sample_crypto sample_session_json 100 ?r ?c =
      (if Expiry sample_session < 100 then None else Some sample_session)"
  proof (rule session_cookie_round_trip [OF sample_crypto_lawful sample_rand_fills _ s])
    show "marshals_back sample_session_json sample_session"
      by (simp add: marshals_back_def sample_session_json_def)
    show "request_cookie ?r sessionCookieName = Some (ck_Value (last (rs_Cookies
        (SetCookie (session_cookie True (b64_encode ''rrkeyrrs'') 100) (new_response [])))))"
      by (simp add: request_cookie_def sessionCookieName_def SetCookie_def session_cookie_def
          del: b64_encode.simps)
  qed
  then show ?thesis by (simp add: sample_session_def)
qed

end
