(* ===== verification/Auth.thy ===== *)
theory Auth
  imports AuthSession
begin

text \<open>
  The authenticator (\<open>src/auth/oidc.go\<close>) and its HTTP surface (\<open>src/auth/middleware.go\<close>): the gate
  in front of the web UI, login, callback, logout, and the return path.  The identity provider and
  the OAuth libraries are parameters, as are the clock and the random source of each request; so is
  the rendering of the HTML page here, which \<open>LoginPage\<close> defines.
\<close>

section \<open>The authenticator\<close>

record oauth2_Config =
  oa_ClientID :: string
  oa_ClientSecret :: string
  oa_RedirectURL :: string
  oa_Endpoint :: string
  oa_Scopes :: "string list"

record Authenticator =
  oauth2Config :: oauth2_Config
  verifier :: "string \<times> string"
  codec :: sessionCodec
  secureCookies :: bool

text \<open>A verified ID token: its nonce, and what decoding its e-mail and name claims gives.\<close>

record id_token =
  id_Nonce :: string
  id_Claims :: "goerror + string \<times> string"

text \<open>
  \<open>Exchange\<close> gives the ID token of the token response, if it has one.  \<open>Verify\<close> is the verifier of a
  provider and a client.
\<close>

record oidc_api =
  NewProvider :: "string \<Rightarrow> goerror + string"
  AuthCodeURL :: "oauth2_Config \<Rightarrow> string \<Rightarrow> string \<Rightarrow> string"
  Exchange :: "oauth2_Config \<Rightarrow> string \<Rightarrow> goerror + string option"
  Verify :: "string \<times> string \<Rightarrow> string \<Rightarrow> goerror + id_token"

definition auth_New :: "oidc_api \<Rightarrow> crypto_api \<Rightarrow> Config \<Rightarrow> goerror + Authenticator" where
  "auth_New oidc cr cfg =
     (case NewProvider oidc (IssuerURL cfg) of
        Inl e \<Rightarrow> Inl (WrapErr ''auth: OIDC discovery against %q failed'' [IssuerURL cfg] e)
      | Inr endpoint \<Rightarrow>
          Inr \<lparr>oauth2Config = \<lparr>oa_ClientID = ClientID cfg, oa_ClientSecret = ClientSecret cfg,
                 oa_RedirectURL = RedirectURL cfg, oa_Endpoint = endpoint, oa_Scopes = Scopes cfg\<rparr>,
               verifier = (IssuerURL cfg, ClientID cfg),
               codec = newSessionCodec cr (SessionSecret cfg),
               secureCookies = (\<not> InsecureCookies cfg)\<rparr>)"

section \<open>Pages\<close>

record pageData =
  Tagline :: string
  ButtonLabel :: string
  ButtonHref :: string

text \<open>
  What a request meets: the libraries, the clock, the random source (the outcome of its i-th read of
  n bytes), the pieces in which the page template writes its output, and the JSON encoder for the
  answer of \<open>/auth/me\<close>.
\<close>

record auth_env =
  ae_ip6 :: "string \<Rightarrow> bool"
  ae_crypto :: crypto_api
  ae_session_json :: "Session json_codec"
  ae_login_json :: "loginState json_codec"
  ae_oidc :: oidc_api
  ae_rand :: "nat \<Rightarrow> nat \<Rightarrow> goerror + bytes"
  ae_now :: gotime
  ae_page :: "pageData \<Rightarrow> bytes list"
  ae_me_json :: "string \<times> string \<Rightarrow> goerror + bytes"

fun write_pieces :: "bytes list \<Rightarrow> Response \<Rightarrow> Response" where
  "write_pieces [] w = w"
| "write_pieces (p # ps) w =
     (case rs_Write p w of
        ((n, Some e), w') \<Rightarrow> w'
      | ((n, None), w') \<Rightarrow> write_pieces ps w')"

definition renderLoginPage :: "auth_env \<Rightarrow> Request \<Rightarrow> Response \<Rightarrow> Response" where
  "renderLoginPage env r w =
     write_pieces (ae_page env
         \<lparr>Tagline = ''Sign in to view build invocations.'', ButtonLabel = ''Log in'',
          ButtonHref = ''/auth/login?return='' @ QueryEscape (RequestURI (rq_URL r))\<rparr>)
       (Header_Set ''Content-Type'' ''text/html; charset=utf-8'' w)"

section \<open>Login and callback\<close>

definition validateReturnPath :: "(string \<Rightarrow> bool) \<Rightarrow> string \<Rightarrow> string" where
  "validateReturnPath ip6 p =
     (if p = [] \<or> \<not> HasPrefix p ''/'' \<or> HasPrefix p ''//'' then ''/''
      else case url_Parse ip6 p of
        Inl e \<Rightarrow> ''/''
      | Inr u \<Rightarrow> if UrlHost u \<noteq> [] \<or> Scheme u \<noteq> [] then ''/'' else p)"

definition randomToken :: "(nat \<Rightarrow> goerror + bytes) \<Rightarrow> nat \<Rightarrow> goerror + string" where
  "randomToken rnd n = (case rnd n of Inl e \<Rightarrow> Inl e | Inr b \<Rightarrow> Inr (b64_encode b))"

definition internal_error :: "Response \<Rightarrow> Response" where
  "internal_error w = http_Error ''internal error'' 500 w"

definition handleLogin :: "auth_env \<Rightarrow> Authenticator \<Rightarrow> Request \<Rightarrow> Response \<Rightarrow> Response" where
  "handleLogin env a r w =
     (let returnPath = validateReturnPath (ae_ip6 env) (Query_Get (rq_URL r) ''return'')
      in case randomToken (ae_rand env 0) 32 of
           Inl e \<Rightarrow> internal_error w
         | Inr state \<Rightarrow>
             (case randomToken (ae_rand env 1) 32 of
                Inl e \<Rightarrow> internal_error w
              | Inr nonce \<Rightarrow>
                  (case setLoginStateCookie (ae_crypto env) (ae_login_json env) (ae_rand env 2)
                          (codec a) (secureCookies a)
                          \<lparr>State = state, Nonce = nonce, ReturnPath = returnPath\<rparr> w of
                     (Some e, w') \<Rightarrow> internal_error w'
                   | (None, w') \<Rightarrow>
                       http_Redirect (ae_ip6 env) r
                         (AuthCodeURL (ae_oidc env) (oauth2Config a) state nonce) 302 w')))"

definition auth_failed :: "Response \<Rightarrow> Response" where
  "auth_failed w = http_Error ''authentication failed'' 401 w"

text \<open>The part of \<open>handleCallback\<close> after the checks of the request: the ID token and its claims.\<close>

definition verify_code ::
  "auth_env \<Rightarrow> Authenticator \<Rightarrow> loginState \<Rightarrow> string \<Rightarrow> (string \<times> string) option" where
  "verify_code env a ls authcode =
     (case Exchange (ae_oidc env) (oauth2Config a) authcode of
        Inl e \<Rightarrow> None
      | Inr None \<Rightarrow> None
      | Inr (Some rawIDToken) \<Rightarrow>
          (case Verify (ae_oidc env) (verifier a) rawIDToken of
             Inl e \<Rightarrow> None
           | Inr idToken \<Rightarrow>
               if id_Nonce idToken \<noteq> Nonce ls then None
               else (case id_Claims idToken of Inl e \<Rightarrow> None | Inr claims \<Rightarrow> Some claims)))"

definition handleCallback :: "auth_env \<Rightarrow> Authenticator \<Rightarrow> Request \<Rightarrow> Response \<Rightarrow> Response" where
  "handleCallback env a r w0 =
     (let w = clearLoginStateCookie (secureCookies a) w0;
          authcode = Query_Get (rq_URL r) ''code''
      in case loginStateFromRequest (ae_crypto env) (ae_login_json env) r (codec a) of
           None \<Rightarrow> http_Error ''missing or expired login state'' 400 w
         | Some ls \<Rightarrow>
             if State ls \<noteq> Query_Get (rq_URL r) ''state'' then http_Error ''state mismatch'' 400 w
             else if authcode = [] then http_Error ''missing code'' 400 w
             else (case verify_code env a ls authcode of
               None \<Rightarrow> auth_failed w
             | Some (email, name) \<Rightarrow>
                 (case setSessionCookie (ae_crypto env) (ae_session_json env) (ae_rand env 0)
                         (codec a) (secureCookies a)
                         \<lparr>Email = email, SessionName = name,
                          Expiry = ae_now env + sessionLifetime\<rparr> w of
                    (Some e, w') \<Rightarrow> internal_error w'
                  | (None, w') \<Rightarrow> http_Redirect (ae_ip6 env) r (ReturnPath ls) 302 w')))"

definition handleLogout :: "auth_env \<Rightarrow> Authenticator \<Rightarrow> Response \<Rightarrow> Response" where
  "handleLogout env a w =
     write_pieces (ae_page env
         \<lparr>Tagline = ''You have been logged out.'', ButtonLabel = ''Log back in'',
          ButtonHref = ''/auth/login''\<rparr>)
       (Header_Set ''Content-Type'' ''text/html; charset=utf-8''
         (clearSessionCookie (secureCookies a) w))"

definition request_session :: "auth_env \<Rightarrow> Authenticator \<Rightarrow> Request \<Rightarrow> Session option" where
  "request_session env a r =
     sessionFromRequest (ae_crypto env) (ae_session_json env) (ae_now env) r (codec a)"

definition handleMe :: "auth_env \<Rightarrow> Authenticator \<Rightarrow> Request \<Rightarrow> Response \<Rightarrow> Response" where
  "handleMe env a r w =
     (case request_session env a r of
        None \<Rightarrow> http_Error ''unauthorized'' 401 w
      | Some s \<Rightarrow>
          (let w' = Header_Set ''Content-Type'' ''application/json'' w
           in case ae_me_json env (Email s, SessionName s) of
                Inl e \<Rightarrow> w'
              | Inr b \<Rightarrow> snd (rs_Write (b @ [CHR 0x0A]) w')))"

section \<open>The gate\<close>

definition requireSession :: "auth_env \<Rightarrow> Authenticator \<Rightarrow> 'st handler \<Rightarrow> 'st handler" where
  "requireSession env a next r w st =
     (if request_session env a r \<noteq> None then next r w st
      else if HasPrefix (UrlPath (rq_URL r)) ''/api/''
      then Some (http_Error ''unauthorized'' 401 w, st)
      else Some (renderLoginPage env r w, st))"

datatype auth_route = RouteLogin | RouteCallback | RouteLogout | RouteMe | RouteNext

definition auth_routes :: "(string option \<times> pattern \<times> auth_route) list" where
  "auth_routes =
     [(Some ''GET'', \<lparr>pat_segments = [Lit ''auth'', Lit ''login''], pat_end = Exact\<rparr>, RouteLogin),
      (Some ''GET'', \<lparr>pat_segments = [Lit ''auth'', Lit ''callback''], pat_end = Exact\<rparr>, RouteCallback),
      (Some ''GET'', \<lparr>pat_segments = [Lit ''auth'', Lit ''logout''], pat_end = Exact\<rparr>, RouteLogout),
      (Some ''GET'', \<lparr>pat_segments = [Lit ''auth'', Lit ''me''], pat_end = Exact\<rparr>, RouteMe),
      (None, \<lparr>pat_segments = [], pat_end = Subtree\<rparr>, RouteNext)]"

definition Wrap :: "auth_env \<Rightarrow> Authenticator \<Rightarrow> 'st handler \<Rightarrow> 'st handler" where
  "Wrap env a next r w st =
     (case mux_dispatch auth_routes r of
        MuxRedirect p \<Rightarrow> Some (mux_redirect (ae_ip6 env) r p w, st)
      | MuxMethodNotAllowed \<Rightarrow> Some (mux_not_allowed w, st)
      | MuxNotFound \<Rightarrow> Some (http_NotFound w, st)
      | MuxHandler RouteLogin vs \<Rightarrow> Some (handleLogin env a r w, st)
      | MuxHandler RouteCallback vs \<Rightarrow> Some (handleCallback env a r w, st)
      | MuxHandler RouteLogout vs \<Rightarrow> Some (handleLogout env a w, st)
      | MuxHandler RouteMe vs \<Rightarrow> Some (handleMe env a r w, st)
      | MuxHandler RouteNext vs \<Rightarrow> requireSession env a next r w st)"

section \<open>Lemmas\<close>

lemma cookies_pieces [simp, frame]: "rs_Cookies (write_pieces ps w) = rs_Cookies w"
proof (induction ps arbitrary: w)
  case (Cons p ps)
  then show ?case by (auto dest: cookies_Write_eq split: prod.splits option.splits)
qed simp

lemma cookies_responses [simp, frame]:
  "rs_Cookies (internal_error w) = rs_Cookies w" "rs_Cookies (auth_failed w) = rs_Cookies w"
  "rs_Cookies (renderLoginPage env r w) = rs_Cookies w"
  "rs_Cookies (handleMe env a r w) = rs_Cookies w"
  by (simp_all add: internal_error_def auth_failed_def renderLoginPage_def handleMe_def Let_def
      split: option.splits sum.splits)

section \<open>Where sessions come from\<close>

text \<open>
  A callback request that proves a login: its state cookie and its state parameter agree, and its
  code was exchanged for an ID token that verifies, has the nonce of the state cookie, and makes
  the claims of the session.
\<close>

definition verified_login ::
  "auth_env \<Rightarrow> Authenticator \<Rightarrow> Request \<Rightarrow> loginState \<Rightarrow> Session \<Rightarrow> bool" where
  "verified_login env a r ls s \<longleftrightarrow>
     (\<exists>vs. mux_dispatch auth_routes r = MuxHandler RouteCallback vs) \<and>
     loginStateFromRequest (ae_crypto env) (ae_login_json env) r (codec a) = Some ls \<and>
     State ls = Query_Get (rq_URL r) ''state'' \<and> Query_Get (rq_URL r) ''code'' \<noteq> [] \<and>
     verify_code env a ls (Query_Get (rq_URL r) ''code'') = Some (Email s, SessionName s) \<and>
     Expiry s = ae_now env + sessionLifetime"

definition session_issued :: "auth_env \<Rightarrow> Authenticator \<Rightarrow> Request \<Rightarrow> Session \<Rightarrow> string \<Rightarrow> bool" where
  "session_issued env a r s raw \<longleftrightarrow>
     encodeValue (ae_crypto env) (ae_session_json env) (ae_rand env 0) (codec a) s = Inr raw \<and>
     (\<exists>ls. verified_login env a r ls s)"

definition login_issued :: "auth_env \<Rightarrow> Authenticator \<Rightarrow> Request \<Rightarrow> loginState \<Rightarrow> string \<Rightarrow> bool" where
  "login_issued env a r ls raw \<longleftrightarrow>
     (\<exists>vs. mux_dispatch auth_routes r = MuxHandler RouteLogin vs) \<and>
     randomToken (ae_rand env 0) 32 = Inr (State ls) \<and>
     randomToken (ae_rand env 1) 32 = Inr (Nonce ls) \<and>
     encodeValue (ae_crypto env) (ae_login_json env) (ae_rand env 2) (codec a) ls = Inr raw"

lemma handleLogin_cookies:
  assumes "mux_dispatch auth_routes r = MuxHandler RouteLogin vs"
    and "ck \<in> set (rs_Cookies (handleLogin env a r w))" "ck \<notin> set (rs_Cookies w)"
  shows "\<exists>ls. login_issued env a r ls (ck_Value ck)"
  using assms
  by (auto simp: handleLogin_def setLoginStateCookie_def login_state_cookie_def login_issued_def
      Let_def split: sum.splits intro!: exI [of _ "\<lparr>State = x, Nonce = y, ReturnPath = z\<rparr>" for x y z])

lemma handleCallback_cookies:
  assumes "mux_dispatch auth_routes r = MuxHandler RouteCallback vs"
    and "ck \<in> set (rs_Cookies (handleCallback env a r w))" "ck \<notin> set (rs_Cookies w)"
  shows "ck_Value ck = [] \<or> (\<exists>s. session_issued env a r s (ck_Value ck))"
proof (cases "ck_Value ck = []")
  case False
  then have n: "ck \<noteq> \<lparr>ck_Name = loginStateCookieName, ck_Value = [], ck_Path = ''/auth'',
       ck_HttpOnly = True, ck_Secure = secureCookies a, ck_SameSite = ''Lax'', ck_Expires = None,
       ck_MaxAge = - 1\<rparr>" by auto
  obtain ls email name raw where ls:
    "loginStateFromRequest (ae_crypto env) (ae_login_json env) r (codec a) = Some ls"
    "State ls = Query_Get (rq_URL r) ''state''" "Query_Get (rq_URL r) ''code'' \<noteq> []"
    "verify_code env a ls (Query_Get (rq_URL r) ''code'') = Some (email, name)"
    "encodeValue (ae_crypto env) (ae_session_json env) (ae_rand env 0) (codec a)
       \<lparr>Email = email, SessionName = name, Expiry = ae_now env + sessionLifetime\<rparr> = Inr raw"
    "ck_Value ck = raw"
    using assms(2,3) n
    by (auto simp: handleCallback_def clearLoginStateCookie_def setSessionCookie_def
        session_cookie_def Let_def split: option.splits sum.splits if_splits)
  then have "session_issued env a r
      \<lparr>Email = email, SessionName = name, Expiry = ae_now env + sessionLifetime\<rparr> (ck_Value ck)"
    using assms(1) by (auto simp: session_issued_def verified_login_def)
  then show ?thesis by blast
qed simp

lemma handleLogout_cookies:
  "ck \<in> set (rs_Cookies (handleLogout env a w)) \<Longrightarrow> ck \<notin> set (rs_Cookies w) \<Longrightarrow> ck_Value ck = []"
  by (auto simp: handleLogout_def clearSessionCookie_def)

text \<open>A handler behind the gate that sets no cookies of its own.\<close>

definition sets_no_cookies :: "'st handler \<Rightarrow> bool" where
  "sets_no_cookies next \<longleftrightarrow>
     (\<forall>r w st w' st'. next r w st = Some (w', st') \<longrightarrow> rs_Cookies w' = rs_Cookies w)"

lemma Wrap_cookies:
  assumes "Wrap env a next r (new_response fs) st = Some (w, st')" "sets_no_cookies next"
    and "ck \<in> set (rs_Cookies w)"
  shows "ck_Value ck = [] \<or> (\<exists>ls. login_issued env a r ls (ck_Value ck)) \<or>
    (\<exists>s. session_issued env a r s (ck_Value ck))"
proof -
  have none: "rs_Cookies (new_response fs) = []" by (simp add: new_response_def)
  then have new: "ck \<notin> set (rs_Cookies (new_response fs))" by simp
  show ?thesis
  proof (cases "mux_dispatch auth_routes r")
    case (MuxHandler route vs)
    show ?thesis
    proof (cases route)
      case RouteNext
      then have "rs_Cookies w = []"
        using assms(1) assms(2) [unfolded sets_no_cookies_def, rule_format, of r "new_response fs" st w st']
          MuxHandler
        by (auto simp: Wrap_def requireSession_def none split: if_splits)
      with assms(3) show ?thesis by simp
    qed (use assms MuxHandler new in
        \<open>auto simp: Wrap_def none dest: handleLogin_cookies handleCallback_cookies
          handleLogout_cookies\<close>)
  qed (use assms new in \<open>auto simp: Wrap_def none\<close>)
qed

text \<open>
  Runs of a server, as the requests served and their responses.  \<open>genuine\<close> is the promise of
  authenticated encryption towards an outsider: a cookie value that opens holds a ciphertext that
  the server has handed out before.  The decoder accepts several texts for one ciphertext, so it
  is the decoded data that has been handed out.
\<close>

record served =
  sv_env :: auth_env
  sv_req :: Request
  sv_resp :: Response

definition genuine :: "Authenticator \<Rightarrow> served list \<Rightarrow> auth_env \<Rightarrow> Request \<Rightarrow> bool" where
  "genuine a tr env r \<longleftrightarrow>
     (\<forall>(n, v) \<in> set (rq_Cookies r). \<forall>p. sealed_in (ae_crypto env) (codec a) v p \<longrightarrow>
        (\<exists>e \<in> set tr. \<exists>ck \<in> set (rs_Cookies (sv_resp e)). b64_decode (ck_Value ck) = b64_decode v))"

text \<open>
  What \<open>encoding/json\<close> documents on the two contents: they decode to what was encoded (text that is
  valid UTF-8, and the alphabet of tokens is), keys of the other type are ignored and missing keys
  leave the zero value; and claims were decoded from JSON.
\<close>

definition zero_time :: gotime where
  "zero_time = - 62135596800 * 1000000000"

definition cookie_json_lawful ::
  "Session json_codec \<Rightarrow> loginState json_codec \<Rightarrow> (string \<Rightarrow> bool) \<Rightarrow> bool" where
  "cookie_json_lawful sj lj utf8 \<longleftrightarrow>
     (\<forall>s. utf8 (Email s) \<and> utf8 (SessionName s) \<longrightarrow> marshals_back sj s) \<and>
     (\<forall>ls b. js_Marshal lj ls = Inr b \<longrightarrow> set (State ls) \<union> set (Nonce ls) \<subseteq> set b64_alphabet \<longrightarrow>
        (\<exists>path. js_Unmarshal lj b = Inr (ls\<lparr>ReturnPath := path\<rparr>))) \<and>
     (\<forall>ls b. js_Marshal lj ls = Inr b \<longrightarrow>
        js_Unmarshal sj b = Inr \<lparr>Email = [], SessionName = [], Expiry = zero_time\<rparr>) \<and>
     (\<forall>s b. js_Marshal sj s = Inr b \<longrightarrow>
        js_Unmarshal lj b = Inr \<lparr>State = [], Nonce = [], ReturnPath = []\<rparr>)"

definition env_ok ::
  "crypto_api \<Rightarrow> Session json_codec \<Rightarrow> loginState json_codec \<Rightarrow> (string \<Rightarrow> bool) \<Rightarrow> auth_env \<Rightarrow> bool" where
  "env_ok cr sj lj utf8 env \<longleftrightarrow>
     ae_crypto env = cr \<and> ae_session_json env = sj \<and> ae_login_json env = lj \<and>
     (\<forall>i. fills (ae_rand env i)) \<and>
     (\<forall>v raw t email name. Verify (ae_oidc env) v raw = Inr t \<longrightarrow> id_Claims t = Inr (email, name) \<longrightarrow>
        utf8 email \<and> utf8 name)"

inductive auth_run ::
  "crypto_api \<Rightarrow> Session json_codec \<Rightarrow> loginState json_codec \<Rightarrow> (string \<Rightarrow> bool) \<Rightarrow> Authenticator \<Rightarrow>
   'st handler \<Rightarrow> served list \<Rightarrow> 'st \<Rightarrow> bool"
  for cr sj lj utf8 a "next" where
  start: "auth_run cr sj lj utf8 a next [] st"
| serve: "auth_run cr sj lj utf8 a next tr st \<Longrightarrow> env_ok cr sj lj utf8 env \<Longrightarrow> genuine a tr env r \<Longrightarrow>
    Wrap env a next r (new_response fs) st = Some (w, st') \<Longrightarrow>
    auth_run cr sj lj utf8 a next (tr @ [\<lparr>sv_env = env, sv_req = r, sv_resp = w\<rparr>]) st'"

definition cookie_origin :: "Authenticator \<Rightarrow> served \<Rightarrow> string \<Rightarrow> bool" where
  "cookie_origin a e raw \<longleftrightarrow>
     raw = [] \<or> (\<exists>ls. login_issued (sv_env e) a (sv_req e) ls raw) \<or>
     (\<exists>s. session_issued (sv_env e) a (sv_req e) s raw)"

lemma auth_run_entry:
  assumes "auth_run cr sj lj utf8 a next tr st" "sets_no_cookies next" "tr = tr1 @ e # tr2"
  shows "env_ok cr sj lj utf8 (sv_env e) \<and> genuine a tr1 (sv_env e) (sv_req e) \<and>
    (\<forall>ck \<in> set (rs_Cookies (sv_resp e)). cookie_origin a e (ck_Value ck))"
  using assms
proof (induction arbitrary: tr1 tr2 rule: auth_run.induct)
  case (serve tr st env r fs w st')
  show ?case
  proof (cases tr2 rule: rev_cases)
    case Nil
    then have "tr1 = tr" "e = \<lparr>sv_env = env, sv_req = r, sv_resp = w\<rparr>" using serve.prems by auto
    with serve.hyps Wrap_cookies [OF serve.hyps(4) serve.prems(1)] show ?thesis
      by (auto simp: cookie_origin_def)
  next
    case (snoc tr2' e')
    with serve.prems have "tr = tr1 @ e # tr2'" by simp
    from serve.IH [OF serve.prems(1) this] show ?thesis .
  qed
qed simp

text \<open>The request whose answer handed out the ciphertext of a cookie.\<close>

lemma sealed_in_decode:
  "b64_decode v = b64_decode v' \<Longrightarrow> sealed_in cr c v p \<longleftrightarrow> sealed_in cr c v' p"
  by (simp add: sealed_in_def)

lemma not_sealed_empty: "aead_lawful cr \<Longrightarrow> \<not> sealed_in cr c [] p"
  by (auto simp: sealed_in_def b64_decode_def aead_lawful_def)

lemma issued_sealed:
  assumes "env_ok cr sj lj utf8 env"
  shows "login_issued env a r ls raw \<Longrightarrow>
      \<exists>p. js_Marshal lj ls = Inr p \<and> sealed_in cr (codec a) raw p"
    and "session_issued env a r s raw \<Longrightarrow>
      \<exists>p. js_Marshal sj s = Inr p \<and> sealed_in cr (codec a) raw p"
  using assms encodeValue_sealed
  by (fastforce simp: env_ok_def login_issued_def session_issued_def)+

lemma cookie_handed_out:
  assumes "auth_run cr sj lj utf8 a next tr st" "sets_no_cookies next" "aead_lawful cr"
    and "env_ok cr sj lj utf8 env" "genuine a tr env r"
    and "request_cookie r name = Some raw" "sealed_in cr (codec a) raw p"
  shows "\<exists>tr1 e tr2 x. tr = tr1 @ e # tr2 \<and> env_ok cr sj lj utf8 (sv_env e) \<and>
    genuine a tr1 (sv_env e) (sv_req e) \<and>
    ((\<exists>ls. login_issued (sv_env e) a (sv_req e) ls x \<and> js_Marshal lj ls = Inr p) \<or>
     (\<exists>s. session_issued (sv_env e) a (sv_req e) s x \<and> js_Marshal sj s = Inr p))"
proof -
  have "(name, raw) \<in> set (rq_Cookies r)"
    using assms(6) by (simp add: request_cookie_def map_of_SomeD)
  then obtain e ck where e: "e \<in> set tr" "ck \<in> set (rs_Cookies (sv_resp e))"
    "b64_decode (ck_Value ck) = b64_decode raw"
    using assms(4,5,7) unfolding genuine_def env_ok_def by blast
  then obtain tr1 tr2 where tr: "tr = tr1 @ e # tr2" by (auto simp: in_set_conv_decomp)
  note entry = auth_run_entry [OF assms(1,2) tr]
  have p: "sealed_in cr (codec a) (ck_Value ck) p"
    using assms(7) e(3) sealed_in_decode by blast
  have ok: "env_ok cr sj lj utf8 (sv_env e)" using entry by simp
  consider (login) ls where "login_issued (sv_env e) a (sv_req e) ls (ck_Value ck)"
    | (session) s where "session_issued (sv_env e) a (sv_req e) s (ck_Value ck)"
    using entry e(2) p not_sealed_empty [OF assms(3)] by (auto simp: cookie_origin_def)
  then show ?thesis
  proof cases
    case login
    from issued_sealed(1) [OF ok this] have "js_Marshal lj ls = Inr p"
      using sealed_in_unique [OF _ p assms(3)] by auto
    with login tr entry show ?thesis by blast
  next
    case session
    from issued_sealed(2) [OF ok this] have "js_Marshal sj s = Inr p"
      using sealed_in_unique [OF _ p assms(3)] by auto
    with session tr entry show ?thesis by blast
  qed
qed

lemma verified_claims_utf8:
  assumes "env_ok cr sj lj utf8 env" "verified_login env a r ls s"
  shows "utf8 (Email s) \<and> utf8 (SessionName s)"
proof -
  obtain raw tok where "Verify (ae_oidc env) (verifier a) raw = Inr tok"
    "id_Claims tok = Inr (Email s, SessionName s)"
    using assms(2)
    by (auto simp: verified_login_def verify_code_def split: sum.splits option.splits if_splits)
  with assms(1) show ?thesis unfolding env_ok_def by blast
qed

lemma token_alphabet: "randomToken rnd n = Inr t \<Longrightarrow> set t \<subseteq> set b64_alphabet"
  using set_b64_encode by (auto simp: randomToken_def split: sum.splits)

lemma auth_run_prefix:
  assumes "auth_run cr sj lj utf8 a next tr st" "tr = tr1 @ tr2"
  shows "\<exists>st1. auth_run cr sj lj utf8 a next tr1 st1"
  using assms
proof (induction arbitrary: tr2 rule: auth_run.induct)
  case (start st)
  then show ?case using auth_run.start by fastforce
next
  case (serve tr st env r fs w st')
  show ?case
  proof (cases tr2 rule: rev_cases)
    case Nil
    with serve.prems auth_run.serve [OF serve.hyps] show ?thesis by auto
  next
    case (snoc tr2' e)
    with serve show ?thesis by auto
  qed
qed

lemma login_state_origin:
  assumes "auth_run cr sj lj utf8 a next tr st" "sets_no_cookies next"
    and "aead_lawful cr" "cookie_json_lawful sj lj utf8"
    and "tr = tr1 @ e # tr2" "env_ok cr sj lj utf8 (sv_env e)" "genuine a tr1 (sv_env e) (sv_req e)"
    and "verified_login (sv_env e) a (sv_req e) ls s"
  shows "State ls = [] \<and> Nonce ls = [] \<or>
     (\<exists>d \<in> set tr1. \<exists>path raw. login_issued (sv_env d) a (sv_req d) (ls\<lparr>ReturnPath := path\<rparr>) raw)"
proof -
  have cr: "ae_crypto (sv_env e) = cr" "ae_login_json (sv_env e) = lj"
    using assms(6) by (auto simp: env_ok_def)
  from assms(8) obtain raw where raw: "request_cookie (sv_req e) loginStateCookieName = Some raw"
    "decodeValue cr lj (codec a) raw = Inr ls"
    by (auto simp: verified_login_def loginStateFromRequest_def cr split: option.splits sum.splits)
  obtain p where p: "sealed_in cr (codec a) raw p" "js_Unmarshal lj p = Inr ls"
    using decodeValue_sealed [OF raw(2) assms(3)] by auto
  obtain st1 where "auth_run cr sj lj utf8 a next tr1 st1"
    using auth_run_prefix [OF assms(1,5)] by blast
  from cookie_handed_out [OF this assms(2,3,6,7) raw(1) p(1)]
  obtain tr3 d tr4 x where d: "tr1 = tr3 @ d # tr4"
    and o: "(\<exists>ls. login_issued (sv_env d) a (sv_req d) ls x \<and> js_Marshal lj ls = Inr p) \<or>
     (\<exists>s. js_Marshal sj s = Inr p)" by blast
  from o show ?thesis
  proof
    assume "\<exists>ls. login_issued (sv_env d) a (sv_req d) ls x \<and> js_Marshal lj ls = Inr p"
    then obtain ls' where ls': "login_issued (sv_env d) a (sv_req d) ls' x" "js_Marshal lj ls' = Inr p"
      by blast
    then have "set (State ls') \<union> set (Nonce ls') \<subseteq> set b64_alphabet"
      using token_alphabet by (fastforce simp: login_issued_def)
    with assms(4) [unfolded cookie_json_lawful_def] ls'(2)
    obtain path where "js_Unmarshal lj p = Inr (ls'\<lparr>ReturnPath := path\<rparr>)" by blast
    with p(2) have "ls = ls'\<lparr>ReturnPath := path\<rparr>" by simp
    then have "ls\<lparr>ReturnPath := ReturnPath ls'\<rparr> = ls'" by simp
    with ls'(1) d show ?thesis by (metis in_set_conv_decomp)
  next
    assume "\<exists>s. js_Marshal sj s = Inr p"
    with p(2) assms(4) show ?thesis by (auto simp: cookie_json_lawful_def)
  qed
qed

text \<open>
  C34: Every session was authenticated.  In any run of the server in which no outsider forges a
  ciphertext, a request that is let through carries a session for which an earlier request
  completed the login: at most 24 hours ago a callback exchanged its code for a verified ID token
  with these claims, whose nonce is that of the state cookie and whose state parameter is the
  cookie's; and that state cookie was made by a login request before the callback, with a fresh
  state and nonce, unless it holds the empty state and nonce (a session cookie presented as a
  state cookie).
\<close>

theorem session_was_authenticated:
  assumes "auth_run cr sj lj utf8 a next tr st" "sets_no_cookies next"
    and "aead_lawful cr" "cookie_json_lawful sj lj utf8"
    and "env_ok cr sj lj utf8 env" "genuine a tr env r" "zero_time < ae_now env"
    and "request_session env a r = Some s"
  shows "\<exists>tr1 e tr2 ls. tr = tr1 @ e # tr2 \<and> verified_login (sv_env e) a (sv_req e) ls s \<and>
    ae_now env \<le> ae_now (sv_env e) + sessionLifetime \<and>
    (State ls = [] \<and> Nonce ls = [] \<or>
     (\<exists>d \<in> set tr1. \<exists>path raw. login_issued (sv_env d) a (sv_req d) (ls\<lparr>ReturnPath := path\<rparr>) raw))"
proof -
  have cr: "ae_crypto env = cr" "ae_session_json env = sj" using assms(5) by (auto simp: env_ok_def)
  from assms(8) obtain raw where raw: "request_cookie r sessionCookieName = Some raw"
    "decodeValue cr sj (codec a) raw = Inr s" "\<not> Expiry s < ae_now env"
    by (auto simp: request_session_def sessionFromRequest_def decodeSession_def cr
        split: option.splits sum.splits if_splits)
  obtain p where p: "sealed_in cr (codec a) raw p" "js_Unmarshal sj p = Inr s"
    using decodeValue_sealed [OF raw(2) assms(3)] by auto
  from cookie_handed_out [OF assms(1-3,5,6) raw(1) p(1)]
  obtain tr1 e tr2 x where e: "tr = tr1 @ e # tr2" "env_ok cr sj lj utf8 (sv_env e)"
    "genuine a tr1 (sv_env e) (sv_req e)"
    and o: "(\<exists>ls. login_issued (sv_env e) a (sv_req e) ls x \<and> js_Marshal lj ls = Inr p) \<or>
     (\<exists>s. session_issued (sv_env e) a (sv_req e) s x \<and> js_Marshal sj s = Inr p)" by blast
  have "\<not> (\<exists>ls. js_Marshal lj ls = Inr p)"
    using assms(4,7) p(2) raw(3) by (auto simp: cookie_json_lawful_def)
  with o obtain s' where s': "session_issued (sv_env e) a (sv_req e) s' x" "js_Marshal sj s' = Inr p"
    by blast
  then obtain ls where ls: "verified_login (sv_env e) a (sv_req e) ls s'"
    by (auto simp: session_issued_def)
  have "marshals_back sj s'"
    using verified_claims_utf8 [OF e(2) ls] assms(4) by (simp add: cookie_json_lawful_def)
  with s'(2) p(2) have s: "s' = s" by (simp add: marshals_back_def)
  have "ae_now env \<le> ae_now (sv_env e) + sessionLifetime"
    using ls raw(3) by (simp add: s verified_login_def)
  moreover have "State ls = [] \<and> Nonce ls = [] \<or>
     (\<exists>d \<in> set tr1. \<exists>path raw. login_issued (sv_env d) a (sv_req d) (ls\<lparr>ReturnPath := path\<rparr>) raw)"
    using login_state_origin [OF assms(1-4) e ls] .
  ultimately show ?thesis using e(1) ls s by blast
qed

text \<open>A login for examples: the random source is constant, the provider accepts every code.\<close>

definition demo_token :: string where
  "demo_token = b64_encode (replicate 32 CHR ''r'')"

definition demo_login :: loginState where
  "demo_login = \<lparr>State = demo_token, Nonce = demo_token, ReturnPath = ''/''\<rparr>"

definition demo_session :: Session where
  "demo_session = \<lparr>Email = ''ann@example'', SessionName = ''Ann'', Expiry = 7 + sessionLifetime\<rparr>"

definition demo_session_json :: "Session json_codec" where
  "demo_session_json =
     \<lparr>js_Marshal = (\<lambda>s. if s = demo_session then Inr ''s'' else Inl (Errorf ''no'' [])),
      js_Unmarshal = (\<lambda>b. if b = ''s'' then Inr demo_session
        else if b = ''l'' then Inr \<lparr>Email = [], SessionName = [], Expiry = zero_time\<rparr>
        else Inl (Errorf ''no'' []))\<rparr>"

definition demo_login_json :: "loginState json_codec" where
  "demo_login_json =
     \<lparr>js_Marshal = (\<lambda>ls. if ls = demo_login then Inr ''l'' else Inl (Errorf ''no'' [])),
      js_Unmarshal = (\<lambda>b. if b = ''l'' then Inr demo_login
        else if b = ''s'' then Inr \<lparr>State = [], Nonce = [], ReturnPath = []\<rparr>
        else Inl (Errorf ''no'' []))\<rparr>"

lemma demo_json_lawful: "cookie_json_lawful demo_session_json demo_login_json (\<lambda>_. True)"
  by (auto simp: cookie_json_lawful_def demo_session_json_def demo_login_json_def marshals_back_def
      split: if_splits intro!: exI [of _ "''/''"]) (simp add: demo_login_def)

definition demo_oidc :: oidc_api where
  "demo_oidc =
     \<lparr>NewProvider = (\<lambda>i. Inr i), AuthCodeURL = (\<lambda>c s n. ''https://idp''),
      Exchange = (\<lambda>c x. Inr (Some ''jwt'')),
      Verify = (\<lambda>v raw. Inr \<lparr>id_Nonce = demo_token, id_Claims = Inr (''ann@example'', ''Ann'')\<rparr>)\<rparr>"

definition demo_env :: "gotime \<Rightarrow> auth_env" where
  "demo_env now =
     \<lparr>ae_ip6 = (\<lambda>_. False), ae_crypto = sample_crypto, ae_session_json = demo_session_json,
      ae_login_json = demo_login_json, ae_oidc = demo_oidc, ae_rand = (\<lambda>i. sample_rand),
      ae_now = now, ae_page = (\<lambda>d. [''page'']), ae_me_json = (\<lambda>c. Inr ''{}'')\<rparr>"

definition demo_auth :: Authenticator where
  "demo_auth =
     \<lparr>oauth2Config = \<lparr>oa_ClientID = ''c'', oa_ClientSecret = ''s'', oa_RedirectURL = ''u'',
        oa_Endpoint = ''e'', oa_Scopes = []\<rparr>,
      verifier = (''i'', ''c''), codec = \<lparr>codec_key = ''key''\<rparr>, secureCookies = True\<rparr>"

definition demo_get :: "string \<Rightarrow> string \<Rightarrow> (string \<times> string) list \<Rightarrow> Request" where
  "demo_get path query cookies =
     \<lparr>rq_Method = ''GET'', rq_URL = empty_URL\<lparr>UrlPath := path, RawQuery := query\<rparr>, rq_Cookies = cookies\<rparr>"

definition demo_login_raw :: string where "demo_login_raw = b64_encode (''rr'' @ ''key'' @ ''rr'' @ ''l'')"

definition demo_session_raw :: string where "demo_session_raw = b64_encode (''rr'' @ ''key'' @ ''rr'' @ ''s'')"

definition demo_request0 :: Request where
  "demo_request0 = demo_get ''/auth/login'' [] []"

definition demo_request1 :: Request where
  "demo_request1 =
     demo_get ''/auth/callback'' (''state='' @ demo_token @ ''&code=x'')
       [(''bepper_oidc_state'', demo_login_raw)]"

definition demo_request2 :: Request where
  "demo_request2 = demo_get ''/'' [] [(''bepper_session'', demo_session_raw)]"

lemma demo_routes:
  "mux_dispatch auth_routes demo_request0 = MuxHandler RouteLogin []"
  "mux_dispatch auth_routes demo_request1 = MuxHandler RouteCallback []"
  "Query_Get (rq_URL demo_request0) ''return'' = []"
  "Query_Get (rq_URL demo_request1) ''state'' = demo_token"
  "Query_Get (rq_URL demo_request1) ''code'' = ''x''"
  by code_simp+

lemma demo_env_ok: "env_ok sample_crypto demo_session_json demo_login_json (\<lambda>_. True) (demo_env t)"
  by (simp add: env_ok_def demo_env_def sample_rand_fills)

lemma demo_encode:
  "encodeValue sample_crypto demo_login_json sample_rand (codec demo_auth) demo_login = Inr demo_login_raw"
  "encodeValue sample_crypto demo_session_json sample_rand (codec demo_auth) demo_session = Inr demo_session_raw"
  "decodeValue sample_crypto demo_login_json (codec demo_auth) demo_login_raw = Inr demo_login"
  "decodeValue sample_crypto demo_session_json (codec demo_auth) demo_session_raw = Inr demo_session"
  by (simp_all add: encodeValue_def decodeValue_def gcm_def sample_crypto_def demo_login_json_def
      demo_session_json_def demo_auth_def sample_rand_def numeral_2_eq_2 demo_login_raw_def
      demo_session_raw_def HasPrefix_def del: b64_encode.simps)

definition demo_next :: "unit handler" where
  "demo_next r w st = Some (w, st)"

lemma demo_next_quiet: "sets_no_cookies demo_next"
  by (simp add: sets_no_cookies_def demo_next_def)

definition demo_trace :: "served list" where
  "demo_trace =
     [\<lparr>sv_env = demo_env 1, sv_req = demo_request0,
       sv_resp = handleLogin (demo_env 1) demo_auth demo_request0 (new_response [])\<rparr>,
      \<lparr>sv_env = demo_env 7, sv_req = demo_request1,
       sv_resp = handleCallback (demo_env 7) demo_auth demo_request1 (new_response [])\<rparr>]"

lemma demo_cookies:
  "login_state_cookie True demo_login_raw \<in>
     set (rs_Cookies (handleLogin (demo_env 1) demo_auth demo_request0 (new_response [])))"
  "session_cookie True demo_session_raw (7 + sessionLifetime) \<in>
     set (rs_Cookies (handleCallback (demo_env 7) demo_auth demo_request1 (new_response [])))"
proof -
  have a: "secureCookies demo_auth" by (simp add: demo_auth_def)
  have e: "ae_rand (demo_env t) = (\<lambda>i. sample_rand)" "ae_crypto (demo_env t) = sample_crypto"
    "ae_login_json (demo_env t) = demo_login_json" "ae_session_json (demo_env t) = demo_session_json"
    "ae_now (demo_env t) = t" "ae_oidc (demo_env t) = demo_oidc" for t
    by (simp_all add: demo_env_def)
  have r: "randomToken sample_rand 32 = Inr demo_token"
    by (simp add: randomToken_def sample_rand_def demo_token_def del: b64_encode.simps)
  have l: "\<lparr>State = demo_token, Nonce = demo_token,
      ReturnPath = validateReturnPath (ae_ip6 (demo_env 1)) []\<rparr> = demo_login"
    by (simp add: validateReturnPath_def demo_login_def)
  show "login_state_cookie True demo_login_raw \<in>
     set (rs_Cookies (handleLogin (demo_env 1) demo_auth demo_request0 (new_response [])))"
    unfolding handleLogin_def demo_routes e r Let_def sum.case l setLoginStateCookie_def demo_encode
    using a by simp
  have c: "request_cookie demo_request1 loginStateCookieName = Some demo_login_raw"
    by (simp add: demo_request1_def demo_get_def request_cookie_def loginStateCookieName_def)
  have s: "State demo_login = demo_token" "Nonce demo_login = demo_token"
    by (simp_all add: demo_login_def)
  have v: "verify_code (demo_env 7) demo_auth demo_login ''x'' = Some (''ann@example'', ''Ann'')"
    by (simp add: verify_code_def e demo_oidc_def s)
  have ds: "\<lparr>Email = ''ann@example'', SessionName = ''Ann'', Expiry = 7 + sessionLifetime\<rparr> = demo_session"
    "Expiry demo_session = 7 + sessionLifetime"
    by (simp_all add: demo_session_def)
  show "session_cookie True demo_session_raw (7 + sessionLifetime) \<in>
     set (rs_Cookies (handleCallback (demo_env 7) demo_auth demo_request1 (new_response [])))"
    using a v s ds
    by (simp add: handleCallback_def loginStateFromRequest_def c e demo_encode demo_routes
        setSessionCookie_def Let_def)
qed

lemma demo_genuine:
  "genuine demo_auth [] (demo_env 1) demo_request0"
  "genuine demo_auth (take 1 demo_trace) (demo_env 7) demo_request1"
  "genuine demo_auth demo_trace (demo_env 9) demo_request2"
  using demo_cookies
  by (force simp: genuine_def demo_request0_def demo_request1_def demo_request2_def demo_get_def demo_trace_def login_state_cookie_def
      session_cookie_def)+

lemma demo_run:
  "auth_run sample_crypto demo_session_json demo_login_json (\<lambda>_. True) demo_auth demo_next demo_trace ()"
proof -
  note start = auth_run.start [of sample_crypto demo_session_json demo_login_json "\<lambda>_. True" demo_auth
      demo_next "()"]
  have w1: "Wrap (demo_env 1) demo_auth demo_next demo_request0 (new_response []) () =
      Some (handleLogin (demo_env 1) demo_auth demo_request0 (new_response []), ())"
    by (simp only: Wrap_def demo_routes mux_result.case auth_route.case)
  have w2: "Wrap (demo_env 7) demo_auth demo_next demo_request1 (new_response []) () =
      Some (handleCallback (demo_env 7) demo_auth demo_request1 (new_response []), ())"
    by (simp only: Wrap_def demo_routes mux_result.case auth_route.case)
  have g2: "genuine demo_auth ([] @ [\<lparr>sv_env = demo_env 1, sv_req = demo_request0,
      sv_resp = handleLogin (demo_env 1) demo_auth demo_request0 (new_response [])\<rparr>])
      (demo_env 7) demo_request1"
    using demo_genuine(2) by (simp add: demo_trace_def)
  from auth_run.serve [OF auth_run.serve [OF start demo_env_ok demo_genuine(1) w1] demo_env_ok g2 w2]
  show ?thesis by (simp add: demo_trace_def)
qed

theorem session_was_authenticated_witness:
  "\<exists>tr1 e tr2 ls. demo_trace = tr1 @ e # tr2 \<and> verified_login (sv_env e) demo_auth (sv_req e) ls demo_session \<and>
    9 \<le> ae_now (sv_env e) + sessionLifetime"
proof -
  have now: "ae_now (demo_env 9) = 9" "ae_crypto (demo_env 9) = sample_crypto"
    "ae_session_json (demo_env 9) = demo_session_json"
    by (simp_all add: demo_env_def)
  have "request_cookie demo_request2 sessionCookieName = Some demo_session_raw"
    by (simp add: demo_request2_def demo_get_def request_cookie_def sessionCookieName_def)
  then have s: "request_session (demo_env 9) demo_auth demo_request2 = Some demo_session"
    by (simp add: request_session_def sessionFromRequest_def decodeSession_def now demo_encode)
      (simp add: demo_session_def sessionLifetime_def)
  have "zero_time < ae_now (demo_env 9)" by (simp add: now zero_time_def)
  from session_was_authenticated [OF demo_run demo_next_quiet sample_crypto_lawful demo_json_lawful
      demo_env_ok demo_genuine(3) this s]
  show ?thesis unfolding now by blast
qed

section \<open>The gate and the return path\<close>

lemma Wrap_closed:
  assumes "request_session env a r = None"
  shows "\<exists>w'. (\<forall>next st. Wrap env a next r w st = Some (w', st :: 'st)) \<and>
    (\<forall>vs. mux_dispatch auth_routes r = MuxHandler RouteNext vs \<longrightarrow>
       HasPrefix (UrlPath (rq_URL r)) ''/api/'' \<longrightarrow> w' = http_Error ''unauthorized'' 401 w)"
proof (cases "mux_dispatch auth_routes r")
  case (MuxHandler route vs)
  with assms show ?thesis
    by (cases route; cases "HasPrefix (UrlPath (rq_URL r)) ''/api/''")
      (auto simp: Wrap_def requireSession_def)
qed (auto simp: Wrap_def)

text \<open>
  The gate.  A request without a valid session never reaches the handler behind the gate: the
  response is the same whatever that handler is, and its state is untouched; requests for the API
  that the gate decides are answered with 401.
\<close>

theorem Wrap_gate:
  assumes "request_session env a r = None"
  shows "\<exists>w'. (\<forall>next st. Wrap env a next r w st = Some (w', st :: 'st)) \<and>
    (\<forall>vs. mux_dispatch auth_routes r = MuxHandler RouteNext vs \<longrightarrow>
       HasPrefix (UrlPath (rq_URL r)) ''/api/'' \<longrightarrow> w' = http_Error ''unauthorized'' 401 w)"
  using assms by (rule Wrap_closed)

theorem Wrap_gate_witness:
  "\<exists>w'. (\<forall>next st. Wrap (demo_env 1) demo_auth next (demo_get ''/api/invocations'' [] []) (new_response []) st
       = Some (w', st :: nat)) \<and> w' = http_Error ''unauthorized'' 401 (new_response [])"
proof -
  have s: "request_session (demo_env 1) demo_auth (demo_get ''/api/invocations'' [] []) = None"
    by (simp add: request_session_def sessionFromRequest_def request_cookie_def demo_get_def)
  have d: "mux_dispatch auth_routes (demo_get ''/api/invocations'' [] []) = MuxHandler RouteNext []"
    by code_simp
  have p: "HasPrefix (UrlPath (rq_URL (demo_get ''/api/invocations'' [] []))) ''/api/''" by code_simp
  from Wrap_gate [OF s, of "new_response []"] d p show ?thesis by blast
qed

lemma Join_no_leading_slash:
  assumes "\<And>e. e \<in> set es \<Longrightarrow> path_elem e"
  shows "Join es [slash] = [] \<or> hd (Join es [slash]) \<noteq> slash"
proof (cases es)
  case (Cons e es')
  then have "e \<noteq> []" "slash \<notin> set e" using assms by (auto simp: path_elem_def)
  with Cons show ?thesis by (cases es'; cases e) auto
qed simp

definition local_path :: "string \<Rightarrow> bool" where
  "local_path p \<longleftrightarrow> HasPrefix p ''/'' \<and> \<not> HasPrefix p ''//''"

lemma local_path_Cons: "local_path (slash # s) \<longleftrightarrow> s = [] \<or> hd s \<noteq> slash"
  by (cases s) (auto simp: local_path_def HasPrefix_def slash_def)

lemma clean_keep_slash_local:
  assumes "rooted p" "q = [] \<or> hd q = CHR ''?''"
  shows "local_path (clean_keep_slash p @ q)"
proof -
  let ?j = "Join (clean_elems p) [slash]"
  have c: "Clean p = slash # ?j" using assms(1) by (simp add: Clean_def render_path_def)
  have j: "?j = [] \<or> hd ?j \<noteq> slash" by (rule Join_no_leading_slash) (rule path_elem_clean)
  show ?thesis
  proof (cases "?j = []")
    case True
    then have "clean_keep_slash p = [slash]" by (simp add: clean_keep_slash_def c HasSuffix_def slash_def)
    moreover have "hd q = CHR ''?'' \<Longrightarrow> hd q \<noteq> slash" by (simp add: slash_def)
    ultimately show ?thesis using assms(2) by (auto simp: local_path_Cons)
  next
    case False
    with j show ?thesis by (auto simp: clean_keep_slash_def c local_path_Cons hd_append)
  qed
qed

lemma url_Parse_root: "url_Parse ip6 ''/'' = Inr (empty_URL\<lparr>UrlPath := ''/''\<rparr>)"
  by (simp add: url_Parse_def cut_total_def parse_ref_def getScheme_def containsCTLByte_def
      split_query_def parse_hier_def setPath_def HasPrefix_def escape_def escape_char_def
      code_def is_lower_def is_upper_def is_digit_def less_eq_char_def empty_URL_def ToLower_def)

text \<open>
  C36: The return path.  What \<open>validateReturnPath\<close> lets through is a path on this host as RFC 3986
  reads it, starting with exactly one slash, and so is the location that the redirect after the
  login sends.
\<close>

theorem return_path_local:
  "local_path (validateReturnPath ip6 p) \<and>
   local_path (redirect_location ip6 r (validateReturnPath ip6 p))"
proof -
  have l: "local_path (validateReturnPath ip6 p)"
    by (auto simp: validateReturnPath_def local_path_def HasPrefix_def split: sum.splits)
  let ?p = "validateReturnPath ip6 p"
  obtain u where u: "url_Parse ip6 ?p = Inr u" "Scheme u = []" "UrlHost u = []"
  proof (cases "?p = p")
    case True
    show ?thesis
    proof (cases "url_Parse ip6 p")
      case (Inl e)
      then have "?p = ''/''" by (simp add: validateReturnPath_def)
      with url_Parse_root [of ip6] that show ?thesis by (simp add: empty_URL_def)
    next
      case (Inr u)
      with True that url_Parse_root [of ip6] show ?thesis
        by (auto simp: validateReturnPath_def empty_URL_def split: if_splits)
    qed
  next
    case False
    then have "?p = ''/''" by (auto simp: validateReturnPath_def split: sum.splits if_splits)
    with url_Parse_root [of ip6] that show ?thesis by (simp add: empty_URL_def)
  qed
  from l obtain s where s: "?p = slash # s" by (auto simp: local_path_def HasPrefix_def prefix_def slash_def)
  let ?path = "takeWhile (\<lambda>c. c \<noteq> CHR ''?'') ?p" and ?q = "dropWhile (\<lambda>c. c \<noteq> CHR ''?'') ?p"
  have "rooted ?path" by (simp add: s rooted_def slash_def)
  moreover have "?q = [] \<or> hd ?q = CHR ''?''" using hd_dropWhile [of "\<lambda>c. c \<noteq> CHR ''?''" ?p] by auto
  ultimately have "local_path (clean_keep_slash ?path @ ?q)" by (rule clean_keep_slash_local)
  moreover have "redirect_location ip6 r ?p = clean_keep_slash ?path @ ?q"
    using u l by (simp add: redirect_location_def Let_def local_path_def)
  ultimately show ?thesis using l by simp
qed


end
