(* ===== verification/WebUi.thy ===== *)
theory WebUi
  imports Http Bytestream EventStore Indexer Targets Detail
begin

text \<open>
  The invocation viewer, \<open>src/webui/webui.go\<close>: its JSON shapes, every handler of its API, and the
  routes.  Parameters are the storage backend, the index, gRPC, the encoding of a JSON value and of
  times as text, the quoting of \<open>%q\<close>, the text of an error, and the embedded front end, which the
  build generates.
\<close>

section \<open>JSON shapes\<close>

record invocationDTO =
  inv_ID :: string
  inv_Command :: string
  inv_Pattern :: "string list"
  inv_Tags :: "string list"
  inv_User :: string
  inv_Host :: string
  inv_Role :: string
  inv_RepoURL :: string
  inv_BranchName :: string
  inv_CommitSHA :: string
  inv_ParentRunID :: string
  inv_RunID :: string
  inv_Success :: bool
  inv_BazelExitCode :: string
  inv_DurationUsec :: int
  inv_ActionCount :: int
  inv_CreatedAt :: string
  inv_UpdatedAt :: string

record logFile =
  file_Name :: string
  file_URI :: string

record attemptDTO =
  at_Status :: string
  at_StartTime :: string
  at_DurationUsec :: int
  at_CachedLocally :: bool

record targetDTO =
  td_Label :: string
  td_Kind :: string
  td_IsTest :: bool
  td_Success :: bool
  td_TestStatus :: string
  td_DurationUsec :: int
  td_FailureMessage :: string
  td_LogFiles :: "logFile list"
  td_Attempts :: "attemptDTO list"
  td_OutputFiles :: "logFile list"

record flagDTO =
  fd_CombinedForm :: string
  fd_Source :: string

record buildInfoDTO =
  bd_CPU :: string
  bd_RemoteExecutionEnabled :: bool
  bd_CachingEnabled :: bool
  bd_PackagesLoaded :: int
  bd_FetchCount :: nat

record detailDTO =
  det_Targets :: "targetDTO list"
  det_Flags :: "flagDTO list"
  det_BuildError :: string
  det_BuildInfo :: buildInfoDTO

datatype json_value =
    JInvocations "invocationDTO list"
  | JInvocation invocationDTO
  | JDetail detailDTO
  | JRaw "bytes list"

definition toDTO :: "(gotime \<Rightarrow> string) \<Rightarrow> Record \<Rightarrow> invocationDTO" where
  "toDTO fmt rec =
     \<lparr>inv_ID = InvocationID rec, inv_Command = Command rec, inv_Pattern = Pattern rec,
      inv_Tags = Tags rec, inv_User = User rec, inv_Host = Host rec, inv_Role = Role rec,
      inv_RepoURL = RepoURL rec, inv_BranchName = BranchName rec, inv_CommitSHA = CommitSHA rec,
      inv_ParentRunID = ParentRunID rec, inv_RunID = RunID rec, inv_Success = Success rec,
      inv_BazelExitCode = BazelExitCode rec, inv_DurationUsec = DurationUsec rec,
      inv_ActionCount = ActionCount rec, inv_CreatedAt = fmt (CreatedAt rec),
      inv_UpdatedAt = fmt (UpdatedAt rec)\<rparr>"

section \<open>The handler\<close>

record ('st, 'w, 'ix, 'ctx, 'conn) webui_env =
  wu_blobs :: "('st, 'w) Blobstore"
  wu_pj :: event_codec
  wu_lib :: golib
  wu_index :: "'ix Indexer"
  wu_grpc :: "('ctx, 'conn) grpc_api"
  wu_ctx :: 'ctx
  wu_Format :: "gotime \<Rightarrow> string"
  wu_Parse :: "string \<Rightarrow> gotime option"
  wu_Quote :: "string \<Rightarrow> string"
  wu_ErrorText :: "goerror \<Rightarrow> string"
  wu_Encode :: "json_value \<Rightarrow> goerror + bytes"
  wu_index_html :: "goerror + bytes"
  wu_files :: "Request \<Rightarrow> Response \<Rightarrow> Response"

text \<open>The struct \<open>handler\<close>: the state of the index, of the store and of the remote cache client.\<close>

record ('st, 'w, 'ix, 'conn) ui_handler =
  ui_idx :: 'ix
  ui_store :: "('st, 'w) Store"
  ui_blob :: "'conn Client option"

definition defaultListLimit :: int where
  "defaultListLimit = 50"

definition writeJSON ::
  "('st, 'w, 'ix, 'ctx, 'conn) webui_env \<Rightarrow> json_value \<Rightarrow> Response \<Rightarrow> Response" where
  "writeJSON env v w =
     (let w' = Header_Set ''Content-Type'' ''application/json'' w
      in case wu_Encode env v of
           Inl e \<Rightarrow> w'
         | Inr b \<Rightarrow> snd (rs_Write (b @ [CHR 0x0A]) w'))"

definition server_error ::
  "('st, 'w, 'ix, 'ctx, 'conn) webui_env \<Rightarrow> goerror \<Rightarrow> Response \<Rightarrow> Response" where
  "server_error env e w = http_Error (wu_ErrorText env e) 500 w"

definition parseTimeParam ::
  "('st, 'w, 'ix, 'ctx, 'conn) webui_env \<Rightarrow> Request \<Rightarrow> string \<Rightarrow> gotime option" where
  "parseTimeParam env r name =
     (let v = Query_Get (rq_URL r) name in if v = [] then None else wu_Parse env v)"

definition list_options ::
  "('st, 'w, 'ix, 'ctx, 'conn) webui_env \<Rightarrow> Request \<Rightarrow> ListOptions" where
  "list_options env r =
     (let v = Query_Get (rq_URL r) ''limit'';
          limit = (if v = [] then defaultListLimit
                   else case ParseInt v of
                     Inr n \<Rightarrow> if 0 < n then n else defaultListLimit
                   | Inl e \<Rightarrow> defaultListLimit)
      in \<lparr>Limit = limit, Query = Query_Get (rq_URL r) ''q'', Status = Query_Get (rq_URL r) ''status'',
          Before = parseTimeParam env r ''before'', Since = parseTimeParam env r ''since'',
          Until = parseTimeParam env r ''until''\<rparr>)"

type_synonym ('st, 'w, 'ix, 'ctx, 'conn) ui_op =
  "('st, 'w, 'ix, 'ctx, 'conn) webui_env \<Rightarrow> string \<Rightarrow> Request \<Rightarrow> Response \<Rightarrow>
   ('st, 'w, 'ix, 'conn) ui_handler \<Rightarrow> Response \<times> ('st, 'w, 'ix, 'conn) ui_handler"

definition listInvocations :: "('st, 'w, 'ix, 'ctx, 'conn) ui_op" where
  "listInvocations env iid r w h =
     (case ix_List (wu_index env) (list_options env r) (ui_idx h) of
        (Inl e, ix) \<Rightarrow> (server_error env e w, h\<lparr>ui_idx := ix\<rparr>)
      | (Inr recs, ix) \<Rightarrow>
          (writeJSON env (JInvocations (map (toDTO (wu_Format env)) recs)) w, h\<lparr>ui_idx := ix\<rparr>))"

definition getInvocation :: "('st, 'w, 'ix, 'ctx, 'conn) ui_op" where
  "getInvocation env iid r w h =
     (case ix_Get (wu_index env) iid (ui_idx h) of
        (Inl e, ix) \<Rightarrow> (server_error env e w, h\<lparr>ui_idx := ix\<rparr>)
      | (Inr None, ix) \<Rightarrow> (http_NotFound w, h\<lparr>ui_idx := ix\<rparr>)
      | (Inr (Some rec), ix) \<Rightarrow>
          (writeJSON env (JInvocation (toDTO (wu_Format env) rec)) w, h\<lparr>ui_idx := ix\<rparr>))"

text \<open>The beginning that the four handlers of stored events share.\<close>

definition with_events ::
  "('st, 'w, 'ix, 'ctx, 'conn) webui_env \<Rightarrow> string \<Rightarrow> Response \<Rightarrow> ('st, 'w, 'ix, 'conn) ui_handler \<Rightarrow>
   (BuildEvent list \<Rightarrow> Response) \<Rightarrow> Response \<times> ('st, 'w, 'ix, 'conn) ui_handler" where
  "with_events env iid w h k =
     (case ReadEvents (wu_blobs env) (wu_pj env) iid (ui_store h) of
        ((events, found, Some e), s) \<Rightarrow> (server_error env e w, h\<lparr>ui_store := s\<rparr>)
      | ((events, found, None), s) \<Rightarrow>
          (if \<not> found then http_NotFound w else k events, h\<lparr>ui_store := s\<rparr>))"

definition console_log :: "BuildEvent list \<Rightarrow> string" where
  "console_log events =
     concat (map (\<lambda>e. GetStdout (GetProgress e) @ GetStderr (GetProgress e)) events)"

definition getLog :: "('st, 'w, 'ix, 'ctx, 'conn) ui_op" where
  "getLog env iid r w h =
     with_events env iid w h (\<lambda>events.
       snd (rs_Write (console_log events)
         (Header_Set ''Content-Type'' ''text/plain; charset=utf-8'' w)))"

definition toLogFile :: "LogFile \<Rightarrow> logFile" where
  "toLogFile f = \<lparr>file_Name = lf_Name f, file_URI = lf_URI f\<rparr>"

definition toAttemptDTO :: "(gotime \<Rightarrow> string) \<Rightarrow> TestAttempt \<Rightarrow> attemptDTO" where
  "toAttemptDTO fmt a =
     \<lparr>at_Status = ta_Status a, at_StartTime = fmt (ta_StartTime a),
      at_DurationUsec = ta_DurationUsec a, at_CachedLocally = ta_CachedLocally a\<rparr>"

definition toTargetDTO :: "(gotime \<Rightarrow> string) \<Rightarrow> Target \<Rightarrow> targetDTO" where
  "toTargetDTO fmt t =
     \<lparr>td_Label = t_Label t, td_Kind = t_Kind t, td_IsTest = t_IsTest t, td_Success = t_Success t,
      td_TestStatus = t_TestStatus t, td_DurationUsec = t_DurationUsec t,
      td_FailureMessage = t_FailureMessage t, td_LogFiles = map toLogFile (t_LogFiles t),
      td_Attempts = map (toAttemptDTO fmt) (t_Attempts t),
      td_OutputFiles = map toLogFile (t_OutputFiles t)\<rparr>"

definition details :: "('st, 'w, 'ix, 'ctx, 'conn) webui_env \<Rightarrow> BuildEvent list \<Rightarrow> detailDTO" where
  "details env events =
     (let info = ParseBuildInfo events in
      \<lparr>det_Targets = map (toTargetDTO (wu_Format env)) (ParseTargets (wu_lib env) events),
       det_Flags = map (\<lambda>f. \<lparr>fd_CombinedForm = fl_CombinedForm f, fd_Source = fl_Source f\<rparr>)
         (ParseFlags events),
       det_BuildError = ParseBuildError events,
       det_BuildInfo =
         \<lparr>bd_CPU = bi_CPU info, bd_RemoteExecutionEnabled = bi_RemoteExecutionEnabled info,
          bd_CachingEnabled = bi_CachingEnabled info, bd_PackagesLoaded = bi_PackagesLoaded info,
          bd_FetchCount = bi_FetchCount info\<rparr>\<rparr>)"

definition getDetails :: "('st, 'w, 'ix, 'ctx, 'conn) ui_op" where
  "getDetails env iid r w h =
     with_events env iid w h (\<lambda>events. writeJSON env (JDetail (details env events)) w)"

fun marshal_events :: "event_codec \<Rightarrow> BuildEvent list \<Rightarrow> goerror + bytes list" where
  "marshal_events pj [] = Inr []"
| "marshal_events pj (event # events) =
     (case pj_Marshal pj event of
        Inl e \<Rightarrow> Inl e
      | Inr b \<Rightarrow> map_sum id (Cons b) (marshal_events pj events))"

definition getRaw :: "('st, 'w, 'ix, 'ctx, 'conn) ui_op" where
  "getRaw env iid r w h =
     with_events env iid w h (\<lambda>events.
       case marshal_events (wu_pj env) events of
         Inl e \<Rightarrow> server_error env e w
       | Inr raw \<Rightarrow> writeJSON env (JRaw raw) w)"

section \<open>Blobs\<close>

text \<open>\<open>filepath.Ext\<close> and \<open>filepath.Base\<close>.\<close>

definition after_last_slash :: "string \<Rightarrow> string" where
  "after_last_slash p = (case cut_last p CHR ''/'' of Some (d, f) \<Rightarrow> f | None \<Rightarrow> p)"

definition filepath_Ext :: "string \<Rightarrow> string" where
  "filepath_Ext p =
     (case cut_last (after_last_slash p) CHR ''.'' of Some (a, b) \<Rightarrow> ''.'' @ b | None \<Rightarrow> [])"

definition filepath_Base :: "string \<Rightarrow> string" where
  "filepath_Base p =
     (if p = [] then ''.''
      else let q = rev (dropWhile (\<lambda>c. c = CHR ''/'') (rev p))
           in if q = [] then ''/'' else after_last_slash q)"

definition textLikeExtensions :: "string list" where
  "textLikeExtensions =
     [''.log'', ''.txt'', ''.xml'', ''.json'', ''.md'', ''.yaml'', ''.yml'', ''.csv'']"

definition setBlobHeaders :: "(string \<Rightarrow> string) \<Rightarrow> string \<Rightarrow> Response \<Rightarrow> Response" where
  "setBlobHeaders quote name w =
     (if ToLower (filepath_Ext name) \<in> set textLikeExtensions
      then Header_Set ''Content-Type'' ''text/plain; charset=utf-8'' w
      else Header_Set ''Content-Disposition'' (''attachment; filename='' @ quote (filepath_Base name))
             (Header_Set ''Content-Type'' ''application/octet-stream'' w))"

fun find_uri :: "LogFile list \<Rightarrow> string \<Rightarrow> string option" where
  "find_uri [] uri = None"
| "find_uri (f # fs) uri = (if lf_URI f = uri then Some (lf_Name f) else find_uri fs uri)"

fun target_for_uri :: "Target list \<Rightarrow> string \<Rightarrow> string option" where
  "target_for_uri [] uri = None"
| "target_for_uri (t # ts) uri =
     (case find_uri (t_LogFiles t) uri of
        Some n \<Rightarrow> Some n
      | None \<Rightarrow>
          (case find_uri (t_OutputFiles t) uri of
             Some n \<Rightarrow> Some n
           | None \<Rightarrow> target_for_uri ts uri))"

definition fileForURI :: "golib \<Rightarrow> BuildEvent list \<Rightarrow> string \<Rightarrow> string option" where
  "fileForURI lib events uri = target_for_uri (ParseTargets lib events) uri"

text \<open>\<open>trackingWriter\<close>: the response, and whether any bytes went out through it.\<close>

definition tw_Write :: "(Response \<times> bool) writer" where
  "tw_Write tw p =
     (case rs_Write p (fst tw) of ((n, err), w) \<Rightarrow> (err, (w, snd tw \<or> 0 < n)))"

definition getBlob ::
  "('st, 'w, 'ix, 'ctx, 'conn) webui_env \<Rightarrow> string \<Rightarrow> Request \<Rightarrow> Response \<Rightarrow>
   ('st, 'w, 'ix, 'conn) ui_handler \<Rightarrow> (Response \<times> ('st, 'w, 'ix, 'conn) ui_handler) option" where
  "getBlob env iid r w h =
     (case ui_blob h of
        None \<Rightarrow> Some (http_Error ''remote cache fetching is not configured'' 501 w, h)
      | Some client \<Rightarrow>
          (let uri = Query_Get (rq_URL r) ''uri'' in
           if uri = [] then Some (http_Error ''missing uri'' 400 w, h)
           else case ReadEvents (wu_blobs env) (wu_pj env) iid (ui_store h) of
             ((events, found, Some e), s) \<Rightarrow> Some (server_error env e w, h\<lparr>ui_store := s\<rparr>)
           | ((events, found, None), s) \<Rightarrow>
               (let h' = h\<lparr>ui_store := s\<rparr> in
                if \<not> found then Some (http_NotFound w, h')
                else case fileForURI (wu_lib env) events uri of
                  None \<Rightarrow> Some (http_Error ''uri was not reported by this invocation'' 403 w, h')
                | Some name \<Rightarrow>
                    (case Stream (ParseAddr6 (wu_lib env)) (wu_grpc env) tw_Write client
                            (wu_ctx env) uri (setBlobHeaders (wu_Quote env) name w, False) of
                       None \<Rightarrow> None
                     | Some (err, (w', written), client') \<Rightarrow>
                         (let h'' = h'\<lparr>ui_blob := Some client'\<rparr> in
                          case err of
                            None \<Rightarrow> Some (w', h'')
                          | Some e \<Rightarrow>
                              if \<not> written
                              then Some (http_Error (wu_ErrorText env e) 502 w', h'')
                              else Some (w', h''))))))"

section \<open>Routes\<close>

definition spaShell ::
  "('st, 'w, 'ix, 'ctx, 'conn) webui_env \<Rightarrow> Response \<Rightarrow> Response" where
  "spaShell env w =
     (case wu_index_html env of
        Inl e \<Rightarrow> server_error env e w
      | Inr b \<Rightarrow> snd (rs_Write b (Header_Set ''Content-Type'' ''text/html; charset=utf-8'' w)))"

datatype ui_route =
  UiList | UiInvocation | UiLog | UiDetails | UiBlob | UiRaw | UiShell | UiFiles

definition ui_routes :: "(string option \<times> pattern \<times> ui_route) list" where
  "ui_routes =
     (let api = [Lit ''api'', Lit ''invocations'']; ID = Wild ''id'';
          get = (\<lambda>segs e h. (Some ''GET'', \<lparr>pat_segments = segs, pat_end = e\<rparr>, h))
      in [get api Exact UiList, get (api @ [ID]) Exact UiInvocation,
          get (api @ [ID, Lit ''log'']) Exact UiLog, get (api @ [ID, Lit ''details'']) Exact UiDetails,
          get (api @ [ID, Lit ''blob'']) Exact UiBlob, get (api @ [ID, Lit ''raw'']) Exact UiRaw,
          get [] RootOnly UiShell, get [Lit ''invocation''] Exact UiShell,
          get [Lit ''invocation'', ID] Exact UiShell,
          get [Lit ''assets''] Subtree UiFiles, get [Lit ''image''] Subtree UiFiles])"

definition PathValue :: "(string \<times> string) list \<Rightarrow> string \<Rightarrow> string" where
  "PathValue vs name = (case map_of vs name of Some v \<Rightarrow> v | None \<Rightarrow> [])"

definition webui_New ::
  "('st, 'w, 'ix, 'ctx, 'conn) webui_env \<Rightarrow> ('st, 'w, 'ix, 'conn) ui_handler handler" where
  "webui_New env r w h =
     (case mux_dispatch ui_routes r of
        MuxRedirect p \<Rightarrow> Some (mux_redirect (ParseAddr6 (wu_lib env)) r p w, h)
      | MuxMethodNotAllowed \<Rightarrow> Some (mux_not_allowed w, h)
      | MuxNotFound \<Rightarrow> Some (http_NotFound w, h)
      | MuxHandler route vs \<Rightarrow>
          (let iid = PathValue vs ''id'' in
           case route of
             UiList \<Rightarrow> Some (listInvocations env iid r w h)
           | UiInvocation \<Rightarrow> Some (getInvocation env iid r w h)
           | UiLog \<Rightarrow> Some (getLog env iid r w h)
           | UiDetails \<Rightarrow> Some (getDetails env iid r w h)
           | UiBlob \<Rightarrow> getBlob env iid r w h
           | UiRaw \<Rightarrow> Some (getRaw env iid r w h)
           | UiShell \<Rightarrow> Some (spaShell env w, h)
           | UiFiles \<Rightarrow> Some (wu_files env r w, h)))"

section \<open>Which files a blob request may name\<close>

lemma find_uri_Some: "find_uri fs uri = Some n \<Longrightarrow> uri \<in> file_uris fs"
  by (induction fs) (auto simp: file_uris_def split: if_splits)

lemma fileForURI_reported:
  assumes "fileForURI lib es uri = Some n"
  shows "uri \<in> reported_uris es"
proof -
  have "target_for_uri ts uri = Some n \<Longrightarrow> \<exists>t \<in> set ts. uri \<in> target_uris t" for ts
    by (induction ts) (auto simp: target_uris_def split: option.splits dest: find_uri_Some)
  with assms ParseTargets_uris show ?thesis unfolding fileForURI_def by blast
qed

section \<open>What a blob request sends\<close>

lemma rs_Write_effect:
  assumes "rs_Write p w = ((n, err), w')"
  shows "rs_Body w' = rs_Body w @ take n p" "n \<le> length p" "err = None \<Longrightarrow> n = length p"
    "rs_Status w' = Some (case rs_Status w of None \<Rightarrow> 200 | Some c \<Rightarrow> c)"
  using assms
  by (auto simp: rs_Write_def WriteHeader_def Let_def min_def
      split: option.splits list.splits if_splits)

lemma rs_Write_no_fault:
  assumes "rs_faults w = []"
  shows "\<exists>w'. rs_Write p w = ((length p, None), w') \<and> rs_Body w' = rs_Body w @ p \<and>
    rs_Status w' = Some (case rs_Status w of None \<Rightarrow> 200 | Some c \<Rightarrow> c) \<and> rs_faults w' = []"
  using assms by (auto simp: rs_Write_def WriteHeader_def Let_def split: option.splits)

lemma blob_headers_frame [simp]:
  "rs_Status (setBlobHeaders q n w) = rs_Status w" "rs_Body (setBlobHeaders q n w) = rs_Body w"
  "rs_faults (setBlobHeaders q n w) = rs_faults w"
  by (simp_all add: setBlobHeaders_def Header_Set_def)

lemma tw_Write_effect:
  assumes "tw_Write (w, b) p = (err, (w', b'))"
  shows "\<exists>n. rs_Body w' = rs_Body w @ take n p \<and> n \<le> length p \<and> (err = None \<longrightarrow> n = length p) \<and>
    (b' \<longleftrightarrow> b \<or> 0 < n)"
proof -
  obtain n where n: "rs_Write p w = ((n, err), w')" "b' \<longleftrightarrow> b \<or> 0 < n"
    using assms by (auto simp: tw_Write_def split: prod.splits)
  from rs_Write_effect [OF n(1)] n(2) show ?thesis by blast
qed

lemma blob_stream_body:
  assumes "recv_loop tw_Write m r t s 0 0 (w, False) = Some (e, (w', b))" "rs_Body w = []"
  shows "\<exists>j k. rs_Body w' = take k (received s j) \<and> (b \<or> rs_Body w' = [])"
proof -
  let ?I = "\<lambda>i (w, b). rs_Body w = received s i \<and> (b \<or> rs_Body w = [])"
  let ?Q = "\<lambda>(w, b). \<exists>j k. rs_Body w = take k (received s j) \<and> (b \<or> rs_Body w = [])"
  have "?Q (snd (e, (w', b)))"
  proof (rule recv_loop_invariant [OF assms(1), where I = ?I])
    show "?I 0 (w, False)" using assms(2) by simp
    show "?I (Suc i) x'" if "?I i x" "s i = ReadData d" "tw_Write x d = (None, x')" for i d x x'
      using that tw_Write_effect [of "fst x" "snd x" d None "fst x'" "snd x'"] by auto
    show "?Q x" if "?I i x" for i x
    proof -
      have "\<exists>j k. rs_Body (fst x) = take k (received s j)"
        using that by (intro exI [of _ i] exI [of _ "length (received s i)"]) auto
      with that show ?thesis by (cases x) auto
    qed
    show "?Q x'" if I: "?I i x" "s i = ReadData d" "tw_Write x d = (Some err, x')" for i d x err x'
    proof -
      obtain n where n: "rs_Body (fst x') = rs_Body (fst x) @ take n d" "n \<le> length d"
        "snd x' \<longleftrightarrow> snd x \<or> 0 < n"
        using I(3) tw_Write_effect [of "fst x" "snd x" d "Some err" "fst x'" "snd x'"] by auto
      then have "\<exists>j k. rs_Body (fst x') = take k (received s j)"
        using I(1,2) by (intro exI [of _ "Suc i"] exI [of _ "length (received s i) + n"]) auto
      moreover have "snd x' \<or> rs_Body (fst x') = []" using n I(1) by auto
      ultimately show ?thesis by (cases x') simp
    qed
  qed
  then show ?thesis by simp
qed

text \<open>
  C38: The blob endpoint is no open proxy.  When the requested reference is not among the files that
  the stored events of the invocation report, the outcome does not depend on gRPC at all (nothing
  is dialled or read) and the connections of the client stay as they are.
\<close>

theorem blob_only_reported:
  assumes "Query_Get (rq_URL r) ''uri'' \<notin>
    reported_uris (fst (fst (ReadEvents (wu_blobs env) (wu_pj env) iid (ui_store h))))"
  shows "\<exists>w' h'. \<forall>g. getBlob (env\<lparr>wu_grpc := g\<rparr>) iid r w h = Some (w', h') \<and> ui_blob h' = ui_blob h"
proof -
  obtain es found err s where re:
    "ReadEvents (wu_blobs env) (wu_pj env) iid (ui_store h) = ((es, found, err), s)"
    by (metis prod.collapse)
  with assms have "fileForURI (wu_lib env) es (Query_Get (rq_URL r) ''uri'') = None"
    using fileForURI_reported [of "wu_lib env" es "Query_Get (rq_URL r) ''uri''"]
    by (cases "fileForURI (wu_lib env) es (Query_Get (rq_URL r) ''uri'')") auto
  with re show ?thesis
    by (cases "ui_blob h"; cases err; cases found; cases "Query_Get (rq_URL r) ''uri'' = []")
      (auto simp: getBlob_def Let_def server_error_def)
qed

text \<open>
  C39: Blob bytes and error texts never mix.  Whatever the remote cache and the connection to the
  browser do, the body of a blob response is either a prefix of what the cache sent, or the text
  of an error (or a part of it) with no byte of the blob before it.
\<close>

theorem blob_body_unmixed:
  assumes "getBlob env iid r w h = Some (w', h')" "rs_Body w = []"
    and "fileForURI (wu_lib env) (fst (fst (ReadEvents (wu_blobs env) (wu_pj env) iid (ui_store h))))
      (Query_Get (rq_URL r) ''uri'') \<noteq> None"
    and "ui_blob h \<noteq> None" "Query_Get (rq_URL r) ''uri'' \<noteq> []"
    and "snd (fst (ReadEvents (wu_blobs env) (wu_pj env) iid (ui_store h))) = (True, None)"
  shows "rs_Body w' = [] \<or>
    (\<exists>conn x n stream j k. ReadCall (wu_grpc env) conn x n = Inr stream \<and>
       rs_Body w' = take k (received stream j)) \<or>
    (\<exists>e. prefix (rs_Body w') (wu_ErrorText env e @ [CHR 0x0A]))"
proof -
  obtain es s where re:
    "ReadEvents (wu_blobs env) (wu_pj env) iid (ui_store h) = ((es, True, None), s)"
    using assms(6) by (metis prod.collapse)
  obtain client where cl: "ui_blob h = Some client" using assms(4) by auto
  obtain name where nm: "fileForURI (wu_lib env) es (Query_Get (rq_URL r) ''uri'') = Some name"
    using assms(3) re by auto
  let ?w0 = "setBlobHeaders (wu_Quote env) name w"
  have w0: "rs_Body ?w0 = []" using assms(2) by simp
  obtain err w1 b c' where st: "Stream (ParseAddr6 (wu_lib env)) (wu_grpc env) tw_Write client
      (wu_ctx env) (Query_Get (rq_URL r) ''uri'') (?w0, False) = Some (err, (w1, b), c')"
    and out: "err = None \<or> b \<Longrightarrow> w' = w1"
      "err \<noteq> None \<Longrightarrow> \<not> b \<Longrightarrow> w' = http_Error (wu_ErrorText env (the err)) 502 w1"
    using assms(1,5) re cl nm
    by (auto simp: getBlob_def Let_def split: option.splits if_splits)
  consider "w1 = ?w0" "\<not> b" | conn x n stream m t where
      "ReadCall (wu_grpc env) conn x n = Inr stream"
      "recv_loop tw_Write m n t stream 0 0 (?w0, False) = Some (err, (w1, b))"
    using st unfolding Stream_def by (auto split: sum.splits prod.splits option.splits)
  then have body: "(b \<or> rs_Body w1 = []) \<and> (rs_Body w1 = [] \<or> (\<exists>conn x n stream j k.
      ReadCall (wu_grpc env) conn x n = Inr stream \<and> rs_Body w1 = take k (received stream j)))"
  proof cases
    case (2 conn x n stream m t)
    from blob_stream_body [OF 2(2) w0] 2(1) show ?thesis by blast
  qed (use w0 in simp)
  show ?thesis
  proof (cases "err = None \<or> b")
    case True
    with out(1) body show ?thesis by blast
  next
    case False
    then have w': "w' = http_Error (wu_ErrorText env (the err)) 502 w1" "rs_Body w1 = []"
      using out(2) body by auto
    obtain n e' w2 where wr: "rs_Write (wu_ErrorText env (the err) @ [CHR 0x0A])
        (WriteHeader 502 (Header_Set ''X-Content-Type-Options'' ''nosniff''
           (Header_Set ''Content-Type'' ''text/plain; charset=utf-8''
             (Header_Del ''Content-Length'' w1)))) = ((n, e'), w2)" by (metis prod.collapse)
    have "rs_Body (WriteHeader 502 (Header_Set ''X-Content-Type-Options'' ''nosniff''
           (Header_Set ''Content-Type'' ''text/plain; charset=utf-8''
             (Header_Del ''Content-Length'' w1)))) = []"
      using w'(2) by (simp add: WriteHeader_def Header_Set_def Header_Del_def split: option.splits)
    with rs_Write_effect(1) [OF wr] w'(1) wr
    have "rs_Body w' = take n (wu_ErrorText env (the err) @ [CHR 0x0A])"
      by (simp add: http_Error_def)
    then show ?thesis by (metis take_is_prefix)
  qed
qed

text \<open>
  C40: An empty first chunk defeats the error response.  When the remote cache sends an empty chunk and
  then fails, writing the empty chunk has already sent the status 200 and the headers of the blob,
  but counts as no bytes written; the text of the error then becomes the content of a successful
  response.
\<close>

theorem blob_error_as_content:
  assumes "ui_blob h = Some client" "Query_Get (rq_URL r) ''uri'' = uri" "uri \<noteq> []"
    and "ReadEvents (wu_blobs env) (wu_pj env) iid (ui_store h) = ((es, True, None), s)"
    and "fileForURI (wu_lib env) es uri = Some name"
    and "ParseURI (ParseAddr6 (wu_lib env)) uri = Inr (target, rn)" "conns client target = Some conn"
    and "ReadCall (wu_grpc env) conn (outgoing_context (wu_grpc env) (Header client) (wu_ctx env)) rn
      = Inr stream"
    and "stream 0 = ReadData []" "stream 1 = ReadErr e"
    and "rs_Status w = None" "rs_Body w = []" "rs_faults w = []"
  shows "\<exists>w' h'. getBlob env iid r w h = Some (w', h') \<and> rs_Status w' = Some 200 \<and>
    rs_Body w' = wu_ErrorText env (WrapErr ''recv %s from %s'' [rn, target] e) @ [CHR 0x0A]"
proof -
  let ?e = "WrapErr ''recv %s from %s'' [rn, target] e"
  let ?w0 = "setBlobHeaders (wu_Quote env) name w"
  obtain w1 where wr: "rs_Write [] ?w0 = ((0, None), w1)" "rs_Status w1 = Some 200" "rs_Body w1 = []"
    "rs_faults w1 = []"
    using rs_Write_no_fault [of ?w0 "[]"] assms(11-13) by auto
  then have tw: "tw_Write (?w0, False) [] = (None, (w1, False))" by (simp add: tw_Write_def)
  have loop: "recv_loop tw_Write (MaxSizeBytes client) rn target stream 0 0 (?w0, False) =
      Some (Some ?e, (w1, False))"
    using assms(9,10) tw
    by (subst recv_loop.simps) (simp add: int64_def Let_def, subst recv_loop.simps, simp)
  have st: "Stream (ParseAddr6 (wu_lib env)) (wu_grpc env) tw_Write client (wu_ctx env) uri (?w0, False) =
      Some (Some ?e, (w1, False), client)"
    using assms(6-8) loop by (simp add: Stream_def dial_def)
  have "rs_Status (http_Error m c w1) = Some 200 \<and> rs_Body (http_Error m c w1) = m @ [CHR 0x0A]" for m c
    using wr(2-4)
    by (simp add: http_Error_def rs_Write_def WriteHeader_def Header_Set_def Header_Del_def Let_def)
  with assms(1-5) st show ?thesis by (simp add: getBlob_def Let_def)
qed

section \<open>Cookies\<close>

text \<open>The viewer sets no cookies, if its file server sets none.\<close>

lemma getBlob_cookies:
  assumes "getBlob env iid r w h = Some (w', h')"
  shows "rs_Cookies w' = rs_Cookies w"
proof -
  have tw: "rs_Cookies (fst y) = rs_Cookies (fst x)" if "tw_Write x p = (e, y)" for x p e y
    using that cookies_Write_eq by (auto simp: tw_Write_def split: prod.splits)
  have st: "rs_Cookies w1 = rs_Cookies w"
    if "Stream ip6 g tw_Write c ctx uri (setBlobHeaders q n w, False) = Some (e, (w1, b), c')"
    for ip6 g c ctx uri q n e w1 b c'
    using Stream_writer_invariant [OF that, of "\<lambda>x. rs_Cookies (fst x) = rs_Cookies w"] tw
    by (auto simp: setBlobHeaders_def)
  show ?thesis
    using assms
    by (auto simp: getBlob_def server_error_def Let_def
        split: option.splits if_splits prod.splits dest: st)
qed

lemma webui_cookies:
  assumes "webui_New env r w h = Some (w', h')" "\<And>r w. rs_Cookies (wu_files env r w) = rs_Cookies w"
  shows "rs_Cookies w' = rs_Cookies w"
proof -
  have json: "rs_Cookies (writeJSON env v w) = rs_Cookies w" for v w
    by (simp add: writeJSON_def Let_def split: sum.splits)
  have err: "rs_Cookies (server_error env e w) = rs_Cookies w" for e w
    by (simp add: server_error_def)
  have shell: "rs_Cookies (spaShell env w) = rs_Cookies w"
    by (simp add: spaShell_def err split: sum.splits)
  have ev: "rs_Cookies (fst (with_events env iid w h k)) = rs_Cookies w"
    if "\<And>es. rs_Cookies (k es) = rs_Cookies w" for iid w h k
    using that by (auto simp: with_events_def err split: prod.splits option.splits)
  have "rs_Cookies (fst (getLog env iid r w h)) = rs_Cookies w"
    "rs_Cookies (fst (getDetails env iid r w h)) = rs_Cookies w"
    "rs_Cookies (fst (getRaw env iid r w h)) = rs_Cookies w" for iid
    by (auto simp: getLog_def getDetails_def getRaw_def json err intro!: ev split: sum.splits)
  moreover have "rs_Cookies (fst (listInvocations env iid r w h)) = rs_Cookies w"
    "rs_Cookies (fst (getInvocation env iid r w h)) = rs_Cookies w"
    for iid
    by (auto simp: listInvocations_def getInvocation_def json err
        split: prod.splits sum.splits option.splits)
  ultimately have ops: "x = (w', h') \<Longrightarrow> rs_Cookies w' = rs_Cookies w"
    if "x \<in> {getLog env iid r w h, getDetails env iid r w h, getRaw env iid r w h,
      listInvocations env iid r w h, getInvocation env iid r w h}" for x iid
    using that by (metis (no_types, lifting) empty_iff fst_conv insert_iff)
  show ?thesis
  proof (cases "mux_dispatch ui_routes r")
    case (MuxHandler route vs)
    let ?i = "PathValue vs ''id''"
    show ?thesis
    proof (cases route)
      case UiBlob
      with MuxHandler assms(1) have "getBlob env ?i r w h = Some (w', h')"
        by (simp add: webui_New_def Let_def)
      then show ?thesis by (rule getBlob_cookies)
    qed (use MuxHandler assms shell ops [of _ ?i] in \<open>auto simp: webui_New_def Let_def\<close>)
  qed (use assms in \<open>auto simp: webui_New_def\<close>)
qed

section \<open>Examples\<close>

text \<open>An invocation of one test result, in a store that holds nothing else.\<close>

definition demo_uri :: string where "demo_uri = ''bytestream://h:1/n''"

definition demo_event :: BuildEvent where
  "demo_event =
     \<lparr>EventId = Some (BuildEventId_TestResult ''//a:t''), Children = [],
      Payload = BuildEvent_TestResult
        \<lparr>ResultStatus = TestStatus_PASSED, ResultCachedLocally = False, TestAttemptStart = None,
         TestAttemptDuration = None,
         TestActionOutput = [\<lparr>FileName = ''test.log'', FileBody = File_Uri demo_uri\<rparr>]\<rparr>\<rparr>"

definition demo_blobs :: "(unit, unit) Blobstore" where
  "demo_blobs =
     \<lparr>op_BlobExists = (\<lambda>n st. (Inr True, st)), op_ReadBlob = (\<lambda>n st. (Inr ''e'', st)),
      op_WriteBlob = (\<lambda>n d st. (Inr 0, st)), op_DeleteBlob = (\<lambda>n st. (None, st)),
      op_Writer = (\<lambda>n st. (Inr (), st)), op_Write = (\<lambda>w p st. None), op_Close = (\<lambda>w st. None)\<rparr>"

definition demo_pj :: event_codec where
  "demo_pj = \<lparr>pj_Marshal = (\<lambda>e. Inr ''e''), pj_Unmarshal = (\<lambda>b. Inr demo_event)\<rparr>"

definition demo_lib :: golib where
  "demo_lib = \<lparr>AsTime = (\<lambda>t. 0), AsDuration = (\<lambda>d. 0), ParseAddr6 = (\<lambda>_. False)\<rparr>"

definition demo_grpc :: "(nat \<Rightarrow> read_result) \<Rightarrow> (unit, nat) grpc_api" where
  "demo_grpc s = \<lparr>NewClient = (\<lambda>t i. Inr 7), AppendToOutgoingContext = (\<lambda>x k v. x),
     ReadCall = (\<lambda>conn x r. Inr s)\<rparr>"

definition demo_ui :: "(nat \<Rightarrow> read_result) \<Rightarrow> (unit, unit, unit, unit, nat) webui_env" where
  "demo_ui s =
     \<lparr>wu_blobs = demo_blobs, wu_pj = demo_pj, wu_lib = demo_lib,
      wu_index = \<lparr>ix_Upsert = (\<lambda>r ix. (None, ix)), ix_Get = (\<lambda>i ix. (Inr None, ix)),
                  ix_List = (\<lambda>opts ix. (Inr [], ix))\<rparr>,
      wu_grpc = demo_grpc s, wu_ctx = (), wu_Format = (\<lambda>t. ''t''), wu_Parse = (\<lambda>s. None),
      wu_Quote = (\<lambda>s. s), wu_ErrorText = (\<lambda>e. ''failed''), wu_Encode = (\<lambda>v. Inr ''{}''),
      wu_index_html = Inr ''html'', wu_files = (\<lambda>r w. w)\<rparr>"

definition demo_client :: "nat Client" where
  "demo_client = \<lparr>Insecure = True, Header = [], MaxSizeBytes = 10, conns = [''h:1'' \<mapsto> 7]\<rparr>"

definition demo_handler :: "(unit, unit, unit, nat) ui_handler" where
  "demo_handler =
     \<lparr>ui_idx = (), ui_store = store_New (),
      ui_blob = Some demo_client\<rparr>"

definition demo_blob_request :: "string \<Rightarrow> Request" where
  "demo_blob_request uri =
     \<lparr>rq_Method = ''GET'', rq_URL = empty_URL\<lparr>UrlPath := ''/api/invocations/i/blob'',
        RawQuery := ''uri='' @ uri\<rparr>, rq_Cookies = []\<rparr>"

lemma demo_read:
  "ReadEvents demo_blobs demo_pj iid (store_New ()) = (([demo_event], True, None), store_New ())"
  by (simp add: ReadEvents_def demo_blobs_def demo_pj_def store_New_def Let_def)

lemma demo_ui_simps [simp]:
  "wu_blobs (demo_ui s) = demo_blobs" "wu_pj (demo_ui s) = demo_pj" "wu_lib (demo_ui s) = demo_lib"
  "wu_grpc (demo_ui s) = demo_grpc s" "wu_ErrorText (demo_ui s) = (\<lambda>e. ''failed'')"
  "ui_store demo_handler = store_New ()" "ParseAddr6 demo_lib = (\<lambda>_. False)"
  by (simp_all add: demo_ui_def demo_handler_def demo_lib_def)

lemma demo_queries:
  "Query_Get (rq_URL (demo_blob_request demo_uri)) ''uri'' = demo_uri"
  "Query_Get (rq_URL (demo_blob_request ''bytestream://evil/n'')) ''uri'' = ''bytestream://evil/n''"
  by code_simp+

lemma demo_file: "fileForURI demo_lib [demo_event] demo_uri = Some ''test.log''"
proof -
  have "GetUri \<lparr>FileName = ''test.log'', FileBody = File_Uri demo_uri\<rparr> = demo_uri" "demo_uri \<noteq> []"
    by code_simp+
  then have "log_files [\<lparr>FileName = ''test.log'', FileBody = File_Uri demo_uri\<rparr>] =
      [\<lparr>lf_Name = ''test.log'', lf_URI = demo_uri\<rparr>]"
    by (simp add: log_files_def)
  then show ?thesis
    by (simp add: fileForURI_def ParseTargets_def run_targets_def target_step_def demo_event_def
        GetTestResult_def get_update_def target_result_def new_Target_def Let_def)
qed

theorem blob_only_reported_witness:
  "\<exists>w' h'. \<forall>g. getBlob ((demo_ui (\<lambda>i. ReadEOF))\<lparr>wu_grpc := g\<rparr>) ''i'' (demo_blob_request ''bytestream://evil/n'')
      (new_response []) demo_handler = Some (w', h') \<and> ui_blob h' = ui_blob demo_handler"
proof (rule blob_only_reported)
  have "''bytestream://evil/n'' \<notin> reported_uris [demo_event]"
    by (auto simp: reported_uris_def event_files_def demo_event_def GetUri_def demo_uri_def)
  then show "Query_Get (rq_URL (demo_blob_request ''bytestream://evil/n'')) ''uri'' \<notin>
      reported_uris (fst (fst (ReadEvents (wu_blobs (demo_ui (\<lambda>i. ReadEOF))) (wu_pj (demo_ui (\<lambda>i. ReadEOF))) ''i'' (ui_store demo_handler))))"
    by (simp add: demo_read demo_queries)
qed

theorem blob_error_as_content_witness:
  "\<exists>w' h'. getBlob (demo_ui (\<lambda>i. if i = 0 then ReadData [] else ReadErr (OSErr ''reset''))) ''i''
      (demo_blob_request demo_uri) (new_response []) demo_handler = Some (w', h') \<and>
    rs_Status w' = Some 200 \<and> rs_Body w' = ''failed'' @ [CHR 0x0A]"
proof -
  let ?s = "\<lambda>i :: nat. if i = 0 then ReadData [] else ReadErr (OSErr ''reset'')"
  have p: "ParseURI (\<lambda>_. False) demo_uri = Inr (''h:1'', ''n'')"
    unfolding demo_uri_def by (rule sample_ParseURI)
  have "\<exists>w' h'. getBlob (demo_ui ?s) ''i'' (demo_blob_request demo_uri) (new_response []) demo_handler =
        Some (w', h') \<and> rs_Status w' = Some 200 \<and>
      rs_Body w' = wu_ErrorText (demo_ui ?s) (WrapErr ''recv %s from %s'' [''n'', ''h:1''] (OSErr ''reset'')) @ [CHR 0x0A]"
    by (rule blob_error_as_content [of _ demo_client _ demo_uri _ _ "[demo_event]" "store_New ()" "''test.log''" "''h:1''" "''n''" 7 ?s "OSErr ''reset''"])
      (simp_all add: demo_read demo_queries demo_file p demo_grpc_def new_response_def,
       simp_all add: demo_handler_def demo_client_def demo_uri_def)
  then show ?thesis by simp
qed

theorem blob_body_unmixed_witness:
  "\<exists>w' h'. getBlob (demo_ui (sends [''ab'', ''cd''])) ''i'' (demo_blob_request demo_uri) (new_response [])
      demo_handler = Some (w', h') \<and>
    (rs_Body w' = [] \<or>
     (\<exists>conn x n stream j k. ReadCall (demo_grpc (sends [''ab'', ''cd''])) conn x n = Inr stream \<and>
       rs_Body w' = take k (received stream j)) \<or>
     (\<exists>e :: goerror. prefix (rs_Body w') (''failed'' @ [CHR 0x0A])))"
proof -
  let ?env = "demo_ui (sends [''ab'', ''cd''])" and ?c = demo_client
  have p: "ParseURI (\<lambda>_. False) demo_uri = Inr (''h:1'', ''n'')"
    unfolding demo_uri_def by (rule sample_ParseURI)
  let ?w0 = "setBlobHeaders (wu_Quote ?env) ''test.log'' (new_response [])"
  have m: "MaxSizeBytes ?c = 10" "conns ?c ''h:1'' = Some 7" "ui_blob demo_handler = Some ?c"
    by (simp_all add: demo_handler_def demo_client_def)
  have u: "demo_uri \<noteq> []" by (simp add: demo_uri_def)
  have "\<exists>res. recv_loop tw_Write 10 ''n'' ''h:1'' (sends [''ab'', ''cd'']) 0 0 (?w0, False) = Some res"
  proof (rule recv_loop_returns)
    show "no_wrap 10 (sends [''ab'', ''cd''])" by (rule no_wrap_sends) (auto simp: int64_max_def)
    show "sends [''ab'', ''cd''] j \<noteq> ReadData []" for j
      by (cases j; cases "j - 1") (auto simp: sends_def)
  qed simp_all
  then obtain res where
    "recv_loop tw_Write 10 ''n'' ''h:1'' (sends [''ab'', ''cd'']) 0 0 (?w0, False) = Some res" ..
  then have "\<exists>x. Stream (\<lambda>_. False) (demo_grpc (sends [''ab'', ''cd''])) tw_Write ?c (wu_ctx ?env)
      demo_uri (?w0, False) = Some x"
    using m by (cases res) (simp add: Stream_def p dial_def demo_grpc_def)
  then have "getBlob ?env ''i'' (demo_blob_request demo_uri) (new_response []) demo_handler \<noteq> None"
    using m u
    by (auto simp: getBlob_def demo_read demo_queries demo_file Let_def split: option.splits)
  then obtain w' h' where g: "getBlob ?env ''i'' (demo_blob_request demo_uri) (new_response []) demo_handler =
      Some (w', h')" by auto
  have "rs_Body w' = [] \<or>
    (\<exists>conn x n stream j k. ReadCall (wu_grpc ?env) conn x n = Inr stream \<and>
       rs_Body w' = take k (received stream j)) \<or>
    (\<exists>e. prefix (rs_Body w') (wu_ErrorText ?env e @ [CHR 0x0A]))"
    by (rule blob_body_unmixed [OF g])
      (use m u in \<open>simp_all add: demo_read demo_queries demo_file new_response_def\<close>)
  with g show ?thesis by auto
qed

end
