(* ===== verification/LoginPage.thy ===== *)
theory LoginPage
  imports Auth
begin

text \<open>
  The sign-in page, \<open>pageTmpl\<close> of \<open>src/auth/middleware.go\<close>, as \<open>html/template\<close> renders it: the text
  of the template in four pieces, and between them the data, escaped for the place where it stands.
\<close>

section \<open>Escaping\<close>

text \<open>The table of \<open>html/template\<close> for text and for quoted attributes.\<close>

definition html_replacement :: "char \<Rightarrow> string" where
  "html_replacement c =
     (if c = CHR 0x00 then [CHR 0xEF, CHR 0xBF, CHR 0xBD]
      else if c = CHR 0x22 then ''&#34;'' else if c = CHR ''&'' then ''&amp;''
      else if c = CHR 0x27 then ''&#39;'' else if c = CHR ''+'' then ''&#43;''
      else if c = CHR ''<'' then ''&lt;'' else if c = CHR ''>'' then ''&gt;''
      else [c])"

definition template_escape :: "string \<Rightarrow> string" where
  "template_escape s = concat (map html_replacement s)"

text \<open>
  A link: a scheme other than the safe ones is replaced, and what has no place in a URL is
  percent-encoded, escapes that are there already being kept.
\<close>

definition safe_scheme :: "string \<Rightarrow> bool" where
  "safe_scheme p \<longleftrightarrow>
     ToLower p \<in> {''http'', ''https'', ''mailto'', ''http'' @ [CHR 0xC5, CHR 0xBF]}"

definition isSafeURL :: "string \<Rightarrow> bool" where
  "isSafeURL s =
     (case Cut s CHR '':'' of
        Some (protocol, rest) \<Rightarrow> CHR ''/'' \<in> set protocol \<or> safe_scheme protocol
      | None \<Rightarrow> True)"

definition url_filter :: "string \<Rightarrow> string" where
  "url_filter s = (if isSafeURL s then s else ''#ZgotmplZ'')"

fun url_normalize :: "string \<Rightarrow> string" where
  "url_normalize [] = []"
| "url_normalize (c # s) =
     (if unreserved c \<or> c \<in> set ''!#$&*+,/:;=?@[]'' \<or>
         c = CHR ''%'' \<and> 2 \<le> length s \<and> unhex (s ! 0) \<noteq> None \<and> unhex (s ! 1) \<noteq> None
      then [c]
      else [CHR ''%'', to_lower (hexdigit (code c div 16)), to_lower (hexdigit (code c mod 16))]) @
     url_normalize s"

section \<open>The page\<close>

definition unlines :: "string list \<Rightarrow> string" where
  "unlines ls = concat (map (\<lambda>l. l @ [CHR 0x0A]) ls)"

definition page_head :: string where
  \<open>page_head = unlines
     [''<!doctype html>'',
      ''<html>'',
      ''<head>'',
      ''<meta charset="utf-8">'',
      ''<title>bepper</title>'',
      ''<style>'',
      ''  :root {'',
      ''    --bg: #0d1117;'',
      ''    --panel: #161b22;'',
      ''    --border: #30363d;'',
      ''    --text: #c9d1d9;'',
      ''    --muted: #8b949e;'',
      ''    --link: #58a6ff;'',
      ''  }'',
      ''  * { box-sizing: border-box; }'',
      ''  body {'',
      ''    margin: 0;'',
      ''    min-height: 100vh;'',
      ''    display: flex;'',
      ''    align-items: center;'',
      ''    justify-content: center;'',
      ''    background: var(--bg);'',
      ''    color: var(--text);'',
      ''    font: 14px/1.5 -apple-system, BlinkMacSystemFont, "Segoe UI", Helvetica, Arial, sans-serif;'',
      ''  }'',
      ''  .card {'',
      ''    width: 22rem;'',
      ''    max-width: calc(100vw - 2rem);'',
      ''    padding: 2.5rem 2rem;'',
      ''    background: var(--panel);'',
      ''    border: 1px solid var(--border);'',
      ''    border-radius: 12px;'',
      ''    text-align: center;'',
      ''    box-shadow: 0 10px 40px rgba(0, 0, 0, 0.35);'',
      ''  }'',
      ''  .icon { width: 56px; height: 56px; margin-bottom: 1.25rem; }'',
      ''  h1 { margin: 0 0 0.35rem; font-size: 1.4rem; font-weight: 600; letter-spacing: -0.01em; }'',
      ''  .tagline { margin: 0 0 1.75rem; color: var(--muted); font-size: 0.9rem; }'',
      ''  .btn {'',
      ''    display: inline-flex;'',
      ''    align-items: center;'',
      ''    justify-content: center;'',
      ''    gap: 0.5rem;'',
      ''    padding: 0.65rem 1.5rem;'',
      ''    background: var(--link);'',
      ''    color: #0d1117;'',
      ''    border-radius: 8px;'',
      ''    text-decoration: none;'',
      ''    font-weight: 600;'',
      ''    font-size: 0.9rem;'',
      ''    transition: filter 0.15s ease;'',
      ''  }'',
      ''  .btn:hover { filter: brightness(1.12); }'',
      ''  .btn:active { filter: brightness(0.95); }'',
      ''</style>'',
      ''</head>'',
      ''<body>'',
      ''<div class="card">'',
      ''  <svg class="icon" viewBox="0 0 100 100" xmlns="http://www.w3.org/2000/svg" aria-hidden="true">'',
      ''    <polygon points="50,4 92,27 50,50 8,27" fill="#8ec2ff"/>'',
      ''    <polygon points="8,27 50,50 50,96 8,73" fill="#58a6ff"/>'',
      ''    <polygon points="92,27 50,50 50,96 92,73" fill="#2f6fc4"/>'',
      ''  </svg>'',
      ''  <h1>bepper</h1>''] @ ''  <p class="tagline">''\<close>

definition page_link :: string where
  \<open>page_link = unlines
     [''</p>''] @ ''  <a class="btn" href="''\<close>

definition page_label :: string where
  \<open>page_label = ''">''\<close>

definition page_foot :: string where
  \<open>page_foot = unlines
     [''</a>'',
      ''</div>'',
      ''</body>''] @ ''</html>''\<close>

definition pageTmpl :: "pageData \<Rightarrow> bytes list" where
  "pageTmpl d =
     [page_head, template_escape (Tagline d), page_link,
      template_escape (url_normalize (url_filter (ButtonHref d))), page_label,
      template_escape (ButtonLabel d), page_foot]"

section \<open>What a browser reads\<close>

text \<open>The characters that could end a text or an attribute, and the character references.\<close>

definition markup :: "char set" where
  "markup = {CHR ''<'', CHR ''>'', CHR 0x22, CHR 0x27}"

definition char_refs :: "(char \<times> string) list" where
  "char_refs =
     [(CHR 0x22, ''#34;''), (CHR ''&'', ''amp;''), (CHR 0x27, ''#39;''), (CHR ''+'', ''#43;''),
      (CHR ''<'', ''lt;''), (CHR ''>'', ''gt;'')]"

fun html_read_from :: "nat \<Rightarrow> string \<Rightarrow> string" where
  "html_read_from n [] = []"
| "html_read_from (Suc n) (c # s) = html_read_from n s"
| "html_read_from 0 (c # s) =
     (if c = CHR ''&'' then
        (case find (\<lambda>(d, ref). HasPrefix s ref) char_refs of
           Some (d, ref) \<Rightarrow> d # html_read_from (length ref) s
         | None \<Rightarrow> c # html_read_from 0 s)
      else c # html_read_from 0 s)"

definition html_read :: "string \<Rightarrow> string" where
  "html_read s = html_read_from 0 s"

lemma html_read_skip: "html_read_from (length r) (r @ s) = html_read_from 0 s"
  by (induction r) auto

lemma html_read_replacement:
  assumes "c \<noteq> CHR 0x00"
  shows "html_read_from 0 (html_replacement c @ s) = c # html_read_from 0 s"
proof (cases "\<exists>r. (c, r) \<in> set char_refs")
  case True
  then obtain r where ref: "(c, r) \<in> set char_refs" by blast
  then have r: "html_replacement c = CHR ''&'' # r"
    by (auto simp: char_refs_def html_replacement_def)
  have "\<forall>x \<in> set char_refs. find (\<lambda>(d, ref). HasPrefix (snd x @ s) ref) char_refs = Some x"
    by (simp add: char_refs_def HasPrefix_def)
  with ref have "find (\<lambda>(d, ref). HasPrefix (r @ s) ref) char_refs = Some (c, r)" by force
  with r html_read_skip [of r s] show ?thesis by simp
next
  case False
  then have "c \<notin> set (map fst char_refs)" by auto
  moreover have "map fst char_refs = [CHR 0x22, CHR ''&'', CHR 0x27, CHR ''+'', CHR ''<'', CHR ''>'']"
    by (simp add: char_refs_def)
  ultimately have "html_replacement c = [c]" "c \<noteq> CHR ''&''"
    using assms by (simp_all add: html_replacement_def)
  then show ?thesis by simp
qed

lemma html_read_escape: "CHR 0x00 \<notin> set s \<Longrightarrow> html_read (template_escape s) = s"
  unfolding html_read_def template_escape_def
  by (induction s) (auto simp: html_read_replacement)

lemma template_escape_markup: "set (template_escape s) \<inter> markup = {}"
  by (auto simp: template_escape_def html_replacement_def markup_def split: if_splits)

section \<open>Links to the login\<close>

definition login_url :: "Request \<Rightarrow> string" where
  "login_url r = ''/auth/login?return='' @ QueryEscape (RequestURI (rq_URL r))"

lemma url_normalize_escape_char:
  "url_normalize (escape_char encodeQueryComponent c @ s) = escape_char encodeQueryComponent c @ url_normalize s"
proof (cases "shouldEscape c encodeQueryComponent")
  case False
  then have "unreserved c" by (auto simp: shouldEscape_def unreserved_def split: if_splits)
  with False show ?thesis by (simp add: escape_char_def)
next
  case True
  then show ?thesis
    using hexdigit_unhex [OF code_hex(1) [of c]] hexdigit_unhex [OF code_hex(2) [of c]]
    by (simp add: escape_char_def)
qed

lemma url_normalize_QueryEscape: "url_normalize (QueryEscape s) = QueryEscape s"
  unfolding QueryEscape_def escape_def
  by (induction s) (simp_all add: url_normalize_escape_char del: url_normalize.simps(2))

lemma url_normalize_append:
  "list_all (\<lambda>c. unreserved c \<or> c \<in> set ''!#$&*+,/:;=?@[]'') p \<Longrightarrow>
   url_normalize (p @ s) = p @ url_normalize s"
  by (induction p) auto

lemma login_url_kept:
  "url_normalize (url_filter (login_url r)) = login_url r" "CHR 0x00 \<notin> set (login_url r)"
proof -
  have l: "list_all (\<lambda>c. unreserved c \<or> c \<in> set ''!#$&*+,/:;=?@[]'') ''/auth/login?return=''"
    "CHR '':'' \<notin> set ''/auth/login?return=''" "CHR 0x00 \<notin> set ''/auth/login?return=''"
    "\<not> unreserved CHR 0x00"
    by code_simp+
  have "CHR '':'' \<notin> set (login_url r)"
    using l(2) QueryEscape_chars [of "CHR '':''"] by (auto simp: login_url_def)
  then have "url_filter (login_url r) = login_url r"
    by (simp add: url_filter_def isSafeURL_def Cut_None_iff [THEN iffD2])
  then show "url_normalize (url_filter (login_url r)) = login_url r"
    using url_normalize_append [OF l(1)] by (simp only: login_url_def url_normalize_QueryEscape)
  show "CHR 0x00 \<notin> set (login_url r)"
    using l(3,4) QueryEscape_chars [of "CHR 0x00"] by (auto simp: login_url_def)
qed

text \<open>Pieces written without faults follow each other in the body.\<close>

lemma write_pieces_body:
  "rs_faults w = [] \<Longrightarrow> rs_Body (write_pieces ps w) = rs_Body w @ concat ps"
proof (induction ps arbitrary: w)
  case (Cons p ps)
  have "rs_faults (WriteHeader 200 w) = []" "rs_Body (WriteHeader 200 w) = rs_Body w"
    using Cons.prems by (simp_all add: WriteHeader_def split: option.splits)
  then have "rs_Write p w = ((length p, None),
      (WriteHeader 200 w)\<lparr>rs_Body := rs_Body w @ p, rs_faults := []\<rparr>)"
    by (simp add: rs_Write_def Let_def)
  with Cons.IH show ?case by simp
qed simp

lemma write_pieces_status:
  "ps \<noteq> [] \<Longrightarrow> rs_Status w = None \<Longrightarrow> rs_faults w = [] \<Longrightarrow> rs_Status (write_pieces ps w) = Some 200"
proof (induction ps arbitrary: w)
  case (Cons p ps)
  have keep: "rs_Status (write_pieces qs v) = Some 200" if "rs_Status v = Some 200" for qs v
    using that
  proof (induction qs arbitrary: v)
    case (Cons q qs)
    have "rs_Status (snd (rs_Write q v)) = Some 200"
      using Cons.prems by (auto simp: rs_Write_def WriteHeader_def Let_def split: list.splits option.splits)
    with Cons.IH show ?case by (auto split: prod.splits option.splits)
  qed simp
  have "rs_Status (snd (rs_Write p w)) = Some 200"
    using Cons.prems by (auto simp: rs_Write_def WriteHeader_def Let_def split: list.splits option.splits)
  with keep show ?case by (auto split: prod.splits option.splits)
qed simp

text \<open>
  C10: The sign-in page.  Whatever was requested, the page is the text of the template around one
  value that depends on the request; that value holds no character that could end the attribute it
  stands in, and a browser reads it as the login with the request as its return path.
\<close>

theorem login_page_link:
  assumes "ae_page env = pageTmpl"
  shows "\<exists>h. rs_Body (renderLoginPage env r (new_response [])) =
      page_head @ ''Sign in to view build invocations.'' @ page_link @ h @ page_label @ ''Log in'' @ page_foot \<and>
    rs_Status (renderLoginPage env r (new_response [])) = Some 200 \<and>
    set h \<inter> markup = {} \<and> html_read h = login_url r"
proof -
  let ?w = "Header_Set ''Content-Type'' ''text/html; charset=utf-8'' (new_response [])"
  let ?h = "template_escape (login_url r)"
  have w: "rs_faults ?w = []" "rs_Body ?w = []" "rs_Status ?w = None"
    by (simp_all add: Header_Set_def new_response_def)
  let ?d = "\<lparr>Tagline = ''Sign in to view build invocations.'', ButtonLabel = ''Log in'',
      ButtonHref = login_url r\<rparr>"
  have t: "template_escape ''Sign in to view build invocations.'' = ''Sign in to view build invocations.''"
    "template_escape ''Log in'' = ''Log in''"
    by code_simp+
  have p: "renderLoginPage env r (new_response []) = write_pieces (pageTmpl ?d) ?w"
    using assms by (simp add: renderLoginPage_def login_url_def)
  have "rs_Body (write_pieces (pageTmpl ?d) ?w) = page_head @ ''Sign in to view build invocations.'' @
      page_link @ ?h @ page_label @ ''Log in'' @ page_foot"
    unfolding write_pieces_body [OF w(1)] w(2) by (simp add: pageTmpl_def login_url_kept t)
  moreover have "rs_Status (write_pieces (pageTmpl ?d) ?w) = Some 200"
    using w by (intro write_pieces_status) (simp_all add: pageTmpl_def)
  ultimately show ?thesis
    unfolding p using template_escape_markup [of "login_url r"] html_read_escape [OF login_url_kept(2)] by blast
qed

theorem login_page_link_witness:
  "\<exists>h. rs_Body (renderLoginPage ((demo_env 1)\<lparr>ae_page := pageTmpl\<rparr>)
        (demo_get ''/invocation/x'' ''q=a+b&c=%22'' []) (new_response [])) =
      page_head @ ''Sign in to view build invocations.'' @ page_link @ h @ page_label @ ''Log in'' @ page_foot \<and>
    html_read h = ''/auth/login?return=%2Finvocation%2Fx%3Fq%3Da%2Bb%26c%3D%2522''"
proof -
  have "login_url (demo_get ''/invocation/x'' ''q=a+b&c=%22'' []) =
      ''/auth/login?return=%2Finvocation%2Fx%3Fq%3Da%2Bb%26c%3D%2522''"
    by code_simp
  moreover have "ae_page ((demo_env 1)\<lparr>ae_page := pageTmpl\<rparr>) = pageTmpl" by simp
  ultimately show ?thesis using login_page_link [of "(demo_env 1)\<lparr>ae_page := pageTmpl\<rparr>"] by metis
qed

end
