(* ===== verification/Login.thy ===== *)
theory Login
  imports LoginPage
begin

text \<open>
  A login from beginning to end, over the handlers of \<open>src/auth/middleware.go\<close>: the page that is asked
  for without a session, the link on the sign-in page, the redirect to the identity provider, its
  callback, and the page that is asked for again.
\<close>

section \<open>What a response hands out\<close>

definition sent_cookie :: "Response \<Rightarrow> string \<Rightarrow> string option" where
  "sent_cookie w name = map_option ck_Value (find (\<lambda>ck. ck_Name ck = name) (snd (rs_Sent w)))"

definition sent_header :: "Response \<Rightarrow> string \<Rightarrow> string option" where
  "sent_header w name = map_of (fst (rs_Sent w)) name"

lemma sent_Write: "rs_Status w = Some c \<Longrightarrow>
    rs_Status (snd (rs_Write p w)) = Some c \<and> rs_Sent (snd (rs_Write p w)) = rs_Sent w"
  by (auto simp: rs_Write_def WriteHeader_def Let_def split: list.splits option.splits)

lemma status_Header_Set [simp]: "rs_Status (Header_Set k v w) = rs_Status w"
  by (simp add: Header_Set_def)

lemma sent_Redirect:
  assumes "rs_Status w = None"
  shows "rs_Status (http_Redirect ip6 r t c w) = Some c"
    and "snd (rs_Sent (http_Redirect ip6 r t c w)) = rs_Cookies w"
    and "sent_header (http_Redirect ip6 r t c w) ''Location'' =
      Some (hex_escape_non_ascii (redirect_location ip6 r t))"
proof -
  let ?l = "Header_Set ''Location'' (hex_escape_non_ascii (redirect_location ip6 r t)) w"
  obtain v where v: "rs_Status v = Some c"
    "rs_Sent v = (rs_Header ?l, rs_Cookies w) \<or>
     rs_Sent v = (rs_Header (Header_Set ''Content-Type'' ''text/html; charset=utf-8'' ?l), rs_Cookies w)"
    "http_Redirect ip6 r t c w = v \<or> (\<exists>p. http_Redirect ip6 r t c w = snd (rs_Write p v))"
  proof (cases "map_of (rs_Header w) ''Content-Type'' = None \<and> rq_Method r \<in> {''GET'', ''HEAD''}")
    case True
    let ?v = "WriteHeader c (Header_Set ''Content-Type'' ''text/html; charset=utf-8'' ?l)"
    have "http_Redirect ip6 r t c w = ?v \<or> (\<exists>p. http_Redirect ip6 r t c w = snd (rs_Write p ?v))"
      using True by (auto simp: http_Redirect_def Let_def)
    with that [of ?v] assms show thesis by (simp add: WriteHeader_def)
  next
    case False
    let ?v = "WriteHeader c ?l"
    have "http_Redirect ip6 r t c w = ?v \<or> (\<exists>p. http_Redirect ip6 r t c w = snd (rs_Write p ?v))"
      using False by (auto simp: http_Redirect_def Let_def)
    with that [of ?v] assms show thesis by (simp add: WriteHeader_def)
  qed
  then have s: "rs_Status (http_Redirect ip6 r t c w) = Some c"
    "rs_Sent (http_Redirect ip6 r t c w) = rs_Sent v"
    using sent_Write [OF v(1)] by auto
  show "rs_Status (http_Redirect ip6 r t c w) = Some c"
    "snd (rs_Sent (http_Redirect ip6 r t c w)) = rs_Cookies w"
    "sent_header (http_Redirect ip6 r t c w) ''Location'' =
      Some (hex_escape_non_ascii (redirect_location ip6 r t))"
    using s v(2) by (auto simp: sent_header_def Header_Set_def)
qed

section \<open>Cookies that work\<close>

text \<open>Random numbers and AES-GCM are there, and JSON takes the contents of a cookie and gives it back.\<close>

definition auth_works :: "auth_env \<Rightarrow> Authenticator \<Rightarrow> bool" where
  "auth_works env a \<longleftrightarrow>
     aead_lawful (ae_crypto env) \<and> NewGCM (ae_crypto env) (codec_key (codec a)) = None \<and>
     (\<forall>i n. \<exists>b. ae_rand env i n = Inr b \<and> length b = n)"

definition json_works :: "'v json_codec \<Rightarrow> 'v \<Rightarrow> bool" where
  "json_works js v \<longleftrightarrow> (\<exists>b. js_Marshal js v = Inr b \<and> js_Unmarshal js b = Inr v)"

lemma cookie_works:
  assumes "auth_works env a" "json_works js v"
  shows "\<exists>raw. encodeValue (ae_crypto env) js (ae_rand env i) (codec a) v = Inr raw \<and>
    decodeValue (ae_crypto env) js (codec a) raw = Inr v"
proof -
  obtain n where "ae_rand env i (NonceSize (ae_crypto env)) = Inr n"
    using assms(1) unfolding auth_works_def by blast
  moreover from assms(2) obtain b where "js_Marshal js v = Inr b" "js_Unmarshal js b = Inr v"
    by (auto simp: json_works_def)
  ultimately have b: "js_Marshal js v = Inr b" "js_Unmarshal js b = Inr v"
    "ae_rand env i (NonceSize (ae_crypto env)) = Inr n" by auto
  have g: "aead_lawful (ae_crypto env)" "NewGCM (ae_crypto env) (codec_key (codec a)) = None"
    "fills (ae_rand env i)"
    using assms(1) unfolding auth_works_def fills_def by (auto dest: spec2) (metis sum.inject(2))
  let ?raw = "b64_encode (n @ Seal (ae_crypto env) (codec_key (codec a)) n b)"
  have e: "encodeValue (ae_crypto env) js (ae_rand env i) (codec a) v = Inr ?raw"
    using b g(2) by (simp add: encodeValue_def gcm_def)
  from encodeValue_sealed [OF e g(3)] b(1) have "sealed_in (ae_crypto env) (codec a) ?raw b" by simp
  from decodeValue_of_sealed [OF this g(1,2), of js] b(2) e show ?thesis by simp
qed

section \<open>The link\<close>

definition login_query :: "Request \<Rightarrow> string" where
  "login_query r = ''return='' @ QueryEscape (RequestURI (rq_URL r))"

lemma login_url_target: "login_url r = target_text [''auth'', ''login''] (login_query r)"
  by (simp add: login_url_def login_query_def target_text_def slash_def)

lemma login_elems: "\<forall>e \<in> set [''auth'', ''login'']. plain_elem e"
  by code_simp

lemma login_query_chars: "list_all query_char (login_query r)"
proof -
  have "list_all query_char ''return=''" by code_simp
  moreover have "query_char c" if "c \<in> set (QueryEscape s)" for c s
    using QueryEscape_chars [OF that] by (auto simp: query_char_def)
  ultimately show ?thesis by (simp add: login_query_def list_all_iff)
qed

lemma login_request:
  assumes "url_Parse ip6 (login_url r0) = Inr (rq_URL r)" "rq_Method r = ''GET''"
  shows "mux_dispatch auth_routes r = MuxHandler RouteLogin []"
    and "Query_Get (rq_URL r) ''return'' = RequestURI (rq_URL r0)"
proof -
  have u: "rq_URL r = plain_target [''auth'', ''login''] (login_query r0)"
    using assms(1) url_Parse_target [OF login_elems _ login_query_chars, of ip6 r0]
    by (simp add: login_url_target)
  have "mux_find auth_routes ''GET'' [''auth'', ''login''] = Some (RouteLogin, [])"
    by (simp add: auth_routes_def match_pattern_def method_matches_def)
  then have "mux_dispatch auth_routes (r\<lparr>rq_URL := plain_url [''auth'', ''login'']\<rparr>) =
      MuxHandler RouteLogin []"
    using plain_dispatch [OF login_elems, of "r\<lparr>rq_URL := plain_url [''auth'', ''login'']\<rparr>"] assms(2)
    by simp
  then show "mux_dispatch auth_routes r = MuxHandler RouteLogin []"
    using mux_dispatch_query [OF u [unfolded plain_target_def], of auth_routes] by simp
  have "list_all unreserved ''return''" by code_simp
  from query_pairs_single [OF this, of "RequestURI (rq_URL r0)"]
  have "query_pairs (RawQuery (rq_URL r)) = [(''return'', RequestURI (rq_URL r0))]"
    by (simp add: u plain_target_def login_query_def)
  then show "Query_Get (rq_URL r) ''return'' = RequestURI (rq_URL r0)" by (simp add: Query_Get_def)
qed

text \<open>A page of the web UI: what it takes to be gated, and that it is a return path.\<close>

definition page_request :: "Request \<Rightarrow> string list \<Rightarrow> string \<Rightarrow> bool" where
  "page_request r es q \<longleftrightarrow> rq_Method r = ''GET'' \<and> rq_URL r = plain_target es q \<and>
     es \<noteq> [] \<and> (\<forall>e \<in> set es. plain_elem e) \<and> hd es \<noteq> ''auth'' \<and> hd es \<noteq> ''api'' \<and>
     list_all query_char q"

lemma page_gated:
  assumes "page_request r es q"
  shows "mux_dispatch auth_routes r = MuxHandler RouteNext []"
    and "\<not> HasPrefix (UrlPath (rq_URL r)) ''/api/''"
proof -
  obtain e es' where es: "es = e # es'" "e \<noteq> ''auth''" "e \<noteq> ''api''" "\<forall>e \<in> set es. plain_elem e"
    using assms by (cases es) (auto simp: page_request_def)
  have "mux_find auth_routes ''GET'' es = Some (RouteNext, [])"
    using es(1,2) by (simp add: auth_routes_def match_pattern_def method_matches_def)
  then have "mux_dispatch auth_routes (r\<lparr>rq_URL := plain_url es\<rparr>) = MuxHandler RouteNext []"
    using plain_dispatch [OF es(4), of "r\<lparr>rq_URL := plain_url es\<rparr>"] assms
    by (simp add: page_request_def)
  moreover have "rq_URL r = (plain_url es)\<lparr>RawQuery := q\<rparr>"
    using assms by (simp add: page_request_def plain_target_def)
  ultimately show "mux_dispatch auth_routes r = MuxHandler RouteNext []"
    using mux_dispatch_query [where r = r and u = "plain_url es" and q = q and routes = auth_routes] by simp
  have p: "UrlPath (rq_URL r) = slash # Join es [slash]"
    using assms by (simp add: page_request_def plain_target_def plain_url_def)
  show "\<not> HasPrefix (UrlPath (rq_URL r)) ''/api/''"
  proof
    assume "HasPrefix (UrlPath (rq_URL r)) ''/api/''"
    then obtain s where "Join es [slash] = ''api'' @ slash # s"
      unfolding p by (auto simp: HasPrefix_def prefix_def slash_def)
    then have "Split (Join es [slash]) slash = ''api'' # Split s slash"
      using Split_append [of slash "''api''" s] by (simp add: slash_def)
    moreover have "Split (Join es [slash]) slash = es"
      using es(1,4) by (intro Split_Join) (auto simp: plain_elem_def path_elem_def)
    ultimately show False using es(1,3) by simp
  qed
qed

lemma page_return_path:
  assumes "page_request r es q"
  shows "validateReturnPath ip6 (RequestURI (rq_URL r)) = RequestURI (rq_URL r)"
    and "redirect_location ip6 r' (RequestURI (rq_URL r)) = RequestURI (rq_URL r)"
    and "hex_escape_non_ascii (RequestURI (rq_URL r)) = RequestURI (rq_URL r)"
proof -
  have es: "\<forall>e \<in> set es. plain_elem e" "es \<noteq> []" "list_all query_char q"
    using assms by (simp_all add: page_request_def)
  have t: "RequestURI (rq_URL r) = target_text es q"
    using assms RequestURI_plain [OF es(1,2)] by (simp add: page_request_def)
  obtain c s where "Join es [slash] = c # s" "unreserved c" using plain_elem_start [OF es(1,2)] by blast
  then have "HasPrefix (target_text es q) ''/''" "\<not> HasPrefix (target_text es q) ''//''"
    by (auto simp: target_text_def HasPrefix_def slash_def)
  moreover have "Scheme (plain_target es q) = []" "UrlHost (plain_target es q) = []"
    by (simp_all add: plain_target_def plain_url_def empty_URL_def)
  ultimately show "validateReturnPath ip6 (RequestURI (rq_URL r)) = RequestURI (rq_URL r)"
    unfolding t using url_Parse_target [OF es, of ip6]
    by (auto simp: validateReturnPath_def HasPrefix_def)
  show "redirect_location ip6 r' (RequestURI (rq_URL r)) = RequestURI (rq_URL r)"
    "hex_escape_non_ascii (RequestURI (rq_URL r)) = RequestURI (rq_URL r)"
    unfolding t by (rule redirect_target [OF es])+
qed

section \<open>The three answers\<close>

lemma login_answer:
  assumes "auth_works env a" "validateReturnPath (ae_ip6 env) (Query_Get (rq_URL r) ''return'') = p"
    and "randomToken (ae_rand env 0) 32 = Inr state" "randomToken (ae_rand env 1) 32 = Inr nonce"
    and "json_works (ae_login_json env) \<lparr>State = state, Nonce = nonce, ReturnPath = p\<rparr>"
  shows "\<exists>raw. rs_Status (handleLogin env a r (new_response [])) = Some 302 \<and>
    sent_header (handleLogin env a r (new_response [])) ''Location'' =
      Some (hex_escape_non_ascii (redirect_location (ae_ip6 env) r
        (AuthCodeURL (ae_oidc env) (oauth2Config a) state nonce))) \<and>
    sent_cookie (handleLogin env a r (new_response [])) loginStateCookieName = Some raw \<and>
    decodeValue (ae_crypto env) (ae_login_json env) (codec a) raw =
      Inr \<lparr>State = state, Nonce = nonce, ReturnPath = p\<rparr>"
proof -
  obtain raw where raw: "encodeValue (ae_crypto env) (ae_login_json env) (ae_rand env 2) (codec a)
      \<lparr>State = state, Nonce = nonce, ReturnPath = p\<rparr> = Inr raw"
    "decodeValue (ae_crypto env) (ae_login_json env) (codec a) raw =
      Inr \<lparr>State = state, Nonce = nonce, ReturnPath = p\<rparr>"
    using cookie_works [OF assms(1,5)] by blast
  let ?w = "SetCookie (login_state_cookie (secureCookies a) raw) (new_response [])"
  have "handleLogin env a r (new_response []) = http_Redirect (ae_ip6 env) r
      (AuthCodeURL (ae_oidc env) (oauth2Config a) state nonce) 302 ?w"
    using assms(2-4) raw(1) by (simp add: handleLogin_def setLoginStateCookie_def Let_def)
  moreover have "rs_Status ?w = None" "rs_Cookies ?w = [login_state_cookie (secureCookies a) raw]"
    by (simp_all add: SetCookie_def new_response_def)
  ultimately show ?thesis
    using sent_Redirect [of ?w] raw(2) by (simp add: sent_cookie_def login_state_cookie_def)
qed

lemma callback_answer:
  assumes "auth_works env a"
    and "loginStateFromRequest (ae_crypto env) (ae_login_json env) r (codec a) =
      Some \<lparr>State = Query_Get (rq_URL r) ''state'', Nonce = nonce, ReturnPath = p\<rparr>"
    and "Query_Get (rq_URL r) ''code'' \<noteq> []"
    and "Exchange (ae_oidc env) (oauth2Config a) (Query_Get (rq_URL r) ''code'') = Inr (Some tok)"
    and "Verify (ae_oidc env) (verifier a) tok = Inr \<lparr>id_Nonce = nonce, id_Claims = Inr (email, name)\<rparr>"
    and "json_works (ae_session_json env)
      \<lparr>Email = email, SessionName = name, Expiry = ae_now env + sessionLifetime\<rparr>"
  shows "\<exists>raw. rs_Status (handleCallback env a r (new_response [])) = Some 302 \<and>
    sent_header (handleCallback env a r (new_response [])) ''Location'' =
      Some (hex_escape_non_ascii (redirect_location (ae_ip6 env) r p)) \<and>
    sent_cookie (handleCallback env a r (new_response [])) sessionCookieName = Some raw \<and>
    decodeValue (ae_crypto env) (ae_session_json env) (codec a) raw =
      Inr \<lparr>Email = email, SessionName = name, Expiry = ae_now env + sessionLifetime\<rparr>"
proof -
  obtain raw where raw: "encodeValue (ae_crypto env) (ae_session_json env) (ae_rand env 0) (codec a)
      \<lparr>Email = email, SessionName = name, Expiry = ae_now env + sessionLifetime\<rparr> = Inr raw"
    "decodeValue (ae_crypto env) (ae_session_json env) (codec a) raw =
      Inr \<lparr>Email = email, SessionName = name, Expiry = ae_now env + sessionLifetime\<rparr>"
    using cookie_works [OF assms(1,6)] by blast
  let ?w = "SetCookie (session_cookie (secureCookies a) raw (ae_now env + sessionLifetime))
      (clearLoginStateCookie (secureCookies a) (new_response []))"
  have "verify_code env a \<lparr>State = Query_Get (rq_URL r) ''state'', Nonce = nonce, ReturnPath = p\<rparr>
      (Query_Get (rq_URL r) ''code'') = Some (email, name)"
    using assms(4,5) by (simp add: verify_code_def)
  then have "handleCallback env a r (new_response []) = http_Redirect (ae_ip6 env) r p 302 ?w"
    using assms(2,3) raw(1) by (simp add: handleCallback_def setSessionCookie_def Let_def)
  moreover have "rs_Status ?w = None"
    "find (\<lambda>ck. ck_Name ck = sessionCookieName) (rs_Cookies ?w) =
      Some (session_cookie (secureCookies a) raw (ae_now env + sessionLifetime))"
    by (simp_all add: SetCookie_def clearLoginStateCookie_def new_response_def session_cookie_def
        sessionCookieName_def loginStateCookieName_def)
  ultimately show ?thesis
    using sent_Redirect [of ?w] raw(2) by (simp add: sent_cookie_def session_cookie_def)
qed

section \<open>From a link to its page\<close>

text \<open>
  C9: A login from beginning to end.  A page that is asked for without a session is answered with the
  sign-in page.  Following its link leads to the identity provider with a fresh state and nonce; when
  the provider's callback brings back the state with a code that the provider exchanges for a token
  with that nonce, the browser is sent to the very page it asked for first, and asking for it with
  the cookie it was given then reaches the web UI, until the session expires.
\<close>

theorem login_returns_to_page:
  assumes "page_request r0 es q" "request_session env a r0 = None"
    and "auth_works env a" "auth_works (env\<lparr>ae_rand := rnd, ae_now := t\<rparr>) a"
    and "url_Parse (ae_ip6 env) (login_url r0) = Inr (rq_URL r1)" "rq_Method r1 = ''GET''"
    and "randomToken (ae_rand env 0) 32 = Inr state" "randomToken (ae_rand env 1) 32 = Inr nonce"
    and "json_works (ae_login_json env) \<lparr>State = state, Nonce = nonce, ReturnPath = RequestURI (rq_URL r0)\<rparr>"
    and "mux_dispatch auth_routes r2 = MuxHandler RouteCallback []"
    and "request_cookie r2 loginStateCookieName =
      sent_cookie (handleLogin env a r1 (new_response [])) loginStateCookieName"
    and "Query_Get (rq_URL r2) ''state'' = state" "Query_Get (rq_URL r2) ''code'' = authcode" "authcode \<noteq> []"
    and "Exchange (ae_oidc env) (oauth2Config a) authcode = Inr (Some tok)"
    and "Verify (ae_oidc env) (verifier a) tok = Inr \<lparr>id_Nonce = nonce, id_Claims = Inr (email, name)\<rparr>"
    and "json_works (ae_session_json env) \<lparr>Email = email, SessionName = name, Expiry = t + sessionLifetime\<rparr>"
    and "page_request r3 es q" "t3 \<le> t + sessionLifetime"
    and "request_cookie r3 sessionCookieName =
      sent_cookie (handleCallback (env\<lparr>ae_rand := rnd, ae_now := t\<rparr>) a r2 (new_response [])) sessionCookieName"
  shows "\<exists>w1 w2. Wrap env a next r0 (new_response []) st = Some (renderLoginPage env r0 (new_response []), st) \<and>
    Wrap env a next r1 (new_response []) st = Some (w1, st) \<and> rs_Status w1 = Some 302 \<and>
    sent_header w1 ''Location'' = Some (hex_escape_non_ascii (redirect_location (ae_ip6 env) r1
      (AuthCodeURL (ae_oidc env) (oauth2Config a) state nonce))) \<and>
    Wrap (env\<lparr>ae_rand := rnd, ae_now := t\<rparr>) a next r2 (new_response []) st = Some (w2, st) \<and>
    rs_Status w2 = Some 302 \<and> sent_header w2 ''Location'' = Some (RequestURI (rq_URL r0)) \<and>
    Wrap (env\<lparr>ae_now := t3\<rparr>) a next r3 w st = next r3 w st"
proof -
  let ?e = "env\<lparr>ae_rand := rnd, ae_now := t\<rparr>" and ?p = "RequestURI (rq_URL r0)"
  note g0 = page_gated [OF assms(1)] and g3 = page_gated [OF assms(18)]
  note rp = page_return_path [OF assms(1)]
  note l = login_request [OF assms(5,6)]
  have "validateReturnPath (ae_ip6 env) (Query_Get (rq_URL r1) ''return'') = ?p" using l(2) rp(1) by simp
  from login_answer [OF assms(3) this assms(7-9)] obtain raw1 where
    w1: "rs_Status (handleLogin env a r1 (new_response [])) = Some 302"
    "sent_header (handleLogin env a r1 (new_response [])) ''Location'' =
      Some (hex_escape_non_ascii (redirect_location (ae_ip6 env) r1
        (AuthCodeURL (ae_oidc env) (oauth2Config a) state nonce)))"
    "sent_cookie (handleLogin env a r1 (new_response [])) loginStateCookieName = Some raw1"
    "decodeValue (ae_crypto env) (ae_login_json env) (codec a) raw1 =
      Inr \<lparr>State = state, Nonce = nonce, ReturnPath = ?p\<rparr>" by blast
  have "loginStateFromRequest (ae_crypto ?e) (ae_login_json ?e) r2 (codec a) =
      Some \<lparr>State = Query_Get (rq_URL r2) ''state'', Nonce = nonce, ReturnPath = ?p\<rparr>"
    using assms(11,12) w1(3,4) by (simp add: loginStateFromRequest_def)
  from callback_answer [OF assms(4) this, of tok email name] assms(13-17) obtain raw2 where
    w2: "rs_Status (handleCallback ?e a r2 (new_response [])) = Some 302"
    "sent_header (handleCallback ?e a r2 (new_response [])) ''Location'' = Some ?p"
    "sent_cookie (handleCallback ?e a r2 (new_response [])) sessionCookieName = Some raw2"
    "decodeValue (ae_crypto env) (ae_session_json env) (codec a) raw2 =
      Inr \<lparr>Email = email, SessionName = name, Expiry = t + sessionLifetime\<rparr>"
    using rp(2,3) by auto
  have "request_session (env\<lparr>ae_now := t3\<rparr>) a r3 \<noteq> None"
    using assms(19,20) w2(3,4) by (simp add: request_session_def sessionFromRequest_def decodeSession_def)
  then have "Wrap (env\<lparr>ae_now := t3\<rparr>) a next r3 w st = next r3 w st"
    using g3 by (simp add: Wrap_def requireSession_def)
  moreover have "Wrap env a next r0 (new_response []) st = Some (renderLoginPage env r0 (new_response []), st)"
    using g0 assms(2) by (simp add: Wrap_def requireSession_def)
  ultimately show ?thesis
    using w1(1,2) w2(1,2) l(1) assms(10) by (intro exI conjI) (assumption | simp add: Wrap_def)+
qed

definition deep_login :: loginState where
  "deep_login = \<lparr>State = demo_token, Nonce = demo_token, ReturnPath = ''/invocation/x?tab=log''\<rparr>"

definition deep_env :: auth_env where
  "deep_env = (demo_env 1)\<lparr>ae_login_json :=
     \<lparr>js_Marshal = (\<lambda>ls. if ls = deep_login then Inr ''l'' else Inl (Errorf ''no'' [])),
      js_Unmarshal = (\<lambda>b. if b = ''l'' then Inr deep_login else Inl (Errorf ''no'' []))\<rparr>\<rparr>"

definition deep_page :: Request where "deep_page = demo_get ''/invocation/x'' ''tab=log'' []"

definition deep_follow :: Request where
  "deep_follow = demo_get ''/auth/login'' ''return=%2Finvocation%2Fx%3Ftab%3Dlog'' []"

definition deep_callback :: Request where
  "deep_callback = demo_request1\<lparr>rq_Cookies := [(loginStateCookieName,
     the (sent_cookie (handleLogin deep_env demo_auth deep_follow (new_response [])) loginStateCookieName))]\<rparr>"

definition deep_env2 :: auth_env where "deep_env2 = deep_env\<lparr>ae_rand := (\<lambda>i. sample_rand), ae_now := 7\<rparr>"

definition deep_again :: Request where
  "deep_again = deep_page\<lparr>rq_Cookies := [(sessionCookieName,
     the (sent_cookie (handleCallback deep_env2 demo_auth deep_callback (new_response [])) sessionCookieName))]\<rparr>"

lemma deep_env_simps:
  "ae_crypto deep_env = sample_crypto" "ae_session_json deep_env = demo_session_json"
  "ae_rand deep_env = (\<lambda>i. sample_rand)" "ae_oidc deep_env = demo_oidc"
  "json_works (ae_login_json deep_env) deep_login" "json_works demo_session_json demo_session"
  "auth_works deep_env demo_auth" "auth_works deep_env2 demo_auth"
  by (simp_all add: deep_env_def deep_env2_def demo_env_def json_works_def demo_session_json_def auth_works_def
      sample_crypto_lawful sample_rand_def) (simp_all add: sample_crypto_def)

lemma deep_requests:
  "page_request deep_page [''invocation'', ''x''] ''tab=log''"
  "request_session deep_env demo_auth deep_page = None"
  "RequestURI (rq_URL deep_page) = ''/invocation/x?tab=log''"
  "url_Parse ip6 (login_url deep_page) = Inr (rq_URL deep_follow)"
  "randomToken sample_rand 32 = Inr demo_token"
proof -
  have u: "rq_URL deep_page = plain_target [''invocation'', ''x''] ''tab=log''"
    by (simp add: deep_page_def demo_get_def plain_target_def plain_url_def slash_def)
  have "\<forall>e \<in> set [''invocation'', ''x'']. plain_elem e" "list_all query_char ''tab=log''" by code_simp+
  then show "page_request deep_page [''invocation'', ''x''] ''tab=log''"
    using u by (simp add: page_request_def) (simp add: deep_page_def demo_get_def)
  show "request_session deep_env demo_auth deep_page = None"
    by (simp add: request_session_def sessionFromRequest_def request_cookie_def deep_page_def demo_get_def)
  show "RequestURI (rq_URL deep_page) = ''/invocation/x?tab=log''" by code_simp
  have "login_query deep_page = ''return=%2Finvocation%2Fx%3Ftab%3Dlog''" by code_simp
  with url_Parse_target [OF login_elems _ login_query_chars, of ip6 deep_page]
  show "url_Parse ip6 (login_url deep_page) = Inr (rq_URL deep_follow)"
    by (simp add: login_url_target deep_follow_def demo_get_def plain_target_def plain_url_def slash_def)
  show "randomToken sample_rand 32 = Inr demo_token"
    by (simp add: randomToken_def sample_rand_def demo_token_def del: b64_encode.simps)
qed

theorem login_returns_to_page_witness:
  "\<exists>w2. Wrap deep_env2 demo_auth demo_next deep_callback (new_response []) () = Some (w2, ()) \<and>
    sent_header w2 ''Location'' = Some ''/invocation/x?tab=log'' \<and>
    Wrap (deep_env\<lparr>ae_now := 99\<rparr>) demo_auth demo_next deep_again (new_response []) () =
      Some (new_response [], ())"
proof -
  let ?e2 = "deep_env\<lparr>ae_rand := (\<lambda>i. sample_rand), ae_now := 7\<rparr>"
  have r: "mux_dispatch auth_routes deep_callback = MuxHandler RouteCallback []"
    "Query_Get (rq_URL deep_callback) ''state'' = demo_token" "Query_Get (rq_URL deep_callback) ''code'' = ''x''"
    using demo_routes mux_dispatch_cong [of deep_callback demo_request1 auth_routes]
    by (simp_all add: deep_callback_def)
  have tok: "randomToken (ae_rand deep_env 0) 32 = Inr demo_token" "randomToken (ae_rand deep_env 1) 32 = Inr demo_token"
    using deep_requests(5) by (simp_all add: deep_env_simps)
  have jl: "json_works (ae_login_json deep_env)
      \<lparr>State = demo_token, Nonce = demo_token, ReturnPath = RequestURI (rq_URL deep_page)\<rparr>"
    using deep_env_simps(5) by (simp add: deep_login_def deep_requests(3))
  have js: "json_works (ae_session_json deep_env)
      \<lparr>Email = ''ann@example'', SessionName = ''Ann'', Expiry = 7 + sessionLifetime\<rparr>"
    using deep_env_simps(2,6) by (simp add: demo_session_def)
  have idp: "Exchange (ae_oidc deep_env) (oauth2Config demo_auth) ''x'' = Inr (Some ''jwt'')"
    "Verify (ae_oidc deep_env) (verifier demo_auth) ''jwt'' =
      Inr \<lparr>id_Nonce = demo_token, id_Claims = Inr (''ann@example'', ''Ann'')\<rparr>"
    by (simp_all add: deep_env_simps demo_oidc_def)
  have get: "rq_Method deep_follow = ''GET''" by (simp add: deep_follow_def demo_get_def)
  note w2 = deep_env_simps(8) [unfolded deep_env2_def]
  have p: "validateReturnPath (ae_ip6 deep_env) (Query_Get (rq_URL deep_follow) ''return'') = RequestURI (rq_URL deep_page)"
    using login_request(2) [OF deep_requests(4) get] page_return_path(1) [OF deep_requests(1)] by simp
  obtain raw1 where c1: "sent_cookie (handleLogin deep_env demo_auth deep_follow (new_response [])) loginStateCookieName = Some raw1"
    "decodeValue (ae_crypto deep_env) (ae_login_json deep_env) (codec demo_auth) raw1 =
      Inr \<lparr>State = demo_token, Nonce = demo_token, ReturnPath = RequestURI (rq_URL deep_page)\<rparr>"
    using login_answer [OF deep_env_simps(7) p tok jl] by blast
  then have k1: "request_cookie deep_callback loginStateCookieName = Some raw1"
    by (simp add: deep_callback_def request_cookie_def)
  then have "loginStateFromRequest (ae_crypto ?e2) (ae_login_json ?e2) deep_callback (codec demo_auth) =
      Some \<lparr>State = Query_Get (rq_URL deep_callback) ''state'', Nonce = demo_token,
        ReturnPath = RequestURI (rq_URL deep_page)\<rparr>"
    using c1(2) r(2) by (simp add: loginStateFromRequest_def)
  from callback_answer [OF w2 this, of "''jwt''" "''ann@example''" "''Ann''"] r(3) idp js obtain raw2 where
    c2: "sent_cookie (handleCallback ?e2 demo_auth deep_callback (new_response [])) sessionCookieName = Some raw2"
    by auto
  have k2: "request_cookie deep_again sessionCookieName =
      sent_cookie (handleCallback ?e2 demo_auth deep_callback (new_response [])) sessionCookieName"
    using c2 by (simp add: deep_again_def request_cookie_def deep_env2_def)
  have again: "page_request deep_again [''invocation'', ''x''] ''tab=log''"
    using deep_requests(1) by (simp add: deep_again_def page_request_def)
  have "(99 :: gotime) \<le> 7 + sessionLifetime" by (simp add: sessionLifetime_def)
  from login_returns_to_page [OF deep_requests(1,2) deep_env_simps(7) w2 deep_requests(4) get tok jl r(1)
      k1 [folded c1(1)] r(2,3) _ idp js again this k2, of demo_next "()" "new_response []"]
  show ?thesis by (auto simp: deep_requests(3) deep_env2_def demo_next_def)
qed

end
