(* ===== verification/Spec2Isabelle.thy ===== *)
theory Spec2Isabelle
  imports EventParser Targets Detail GitUrl Disk Server Interleaving Bytestream Startup Login
begin

text \<open>
  Verification of the build event service: a Go server that receives the build event streams of
  Bazel over gRPC, stores the events of every invocation as one blob, keeps a summary of every
  invocation in Postgres, and serves a web UI over both, behind single sign-on if configured.

  \<^bold>\<open>How the program is put together.\<close>  \<open>main.go\<close> reads the environment, makes a blob store (local disk,
  S3, or S3 behind a disk cache), an event store on top of it, the index, the authenticator and the
  client of the remote cache, and starts two servers on them.  The gRPC server hands every stream to
  \<open>PublishBuildToolEventStream\<close>, which appends each event to the store, feeds it to the event parser
  and, at the end of a complete stream, commits the blob, upserts the record and acknowledges.  The
  web UI lists and shows records, derives details and targets from the stored events on every
  request, and streams log files from the remote cache.

  \<^bold>\<open>Which theory models what.\<close>  Names are those of the code; all sources are under \<open>src/src\<close> except
  \<open>src/main.go\<close>.

  \<^item> \<open>Prelude\<close>: Go's strings, bytes, errors and 64-bit integers (\<open>int64\<close> wraps), and the collections
    \<open>gostr\<close>, \<open>frame\<close> and \<open>invs\<close>.  \<open>OsFs\<close>: \<open>path/filepath\<close>, and a file system with inodes, open files,
    offsets, modification times and a script of faults, one entry per system call.  \<open>GoUrl\<close>, \<open>Http\<close>,
    \<open>Base64\<close>: the parts of \<open>net/url\<close>, \<open>net/http\<close> (response writer, cookies, routing) and
    \<open>encoding/base64\<close> that the program calls.
  \<^item> \<open>BuildEvents\<close>: the messages, oneofs and getters the program reads, from \<open>src/proto/gen\<close>.
  \<^item> \<open>Blobstore\<close> (\<open>blobstore/blobstore.go\<close>): the interface as a record of operations; its contract as
    the locales \<open>blobstore\<close> (what holds whatever fails) and \<open>reliable_blobstore\<close> (what is sure to
    succeed while nothing fails).
  \<^item> \<open>Disk\<close> (\<open>blobstore/disk\<close>), \<open>DiskCache\<close> (\<open>blobstore/diskcache\<close>), \<open>S3\<close> (\<open>blobstore/s3\<close>): the three
    backends and the interpretations of the contract on them; the cache meets it over any lawful
    backend.  \<open>Backends\<close>: the backend as one interface value; an embedding of a backend into a larger
    state keeps its contract.
  \<^item> \<open>EventStore\<close> (\<open>store/store.go\<close>): the store over any backend, its specification as a machine with
    the phases \<open>Idle\<close>, \<open>Streaming\<close>, \<open>Failed\<close> and \<open>Stored\<close> for every invocation, and the simulation,
    proved once inside the locales.
  \<^item> \<open>InvocationRecord\<close> (\<open>index/record.go\<close>, \<open>index/tags.go\<close>), \<open>GitUrl\<close> (\<open>index/giturl.go\<close>), \<open>EventParser\<close>
    (\<open>index/parser.go\<close>), \<open>Targets\<close> (\<open>index/targets.go\<close>), \<open>Detail\<close> (\<open>index/detail.go\<close>): from events to
    records, targets and details.  The setters with priorities are interpretations of one locale,
    \<open>prio_field\<close>.
  \<^item> \<open>Indexer\<close> (\<open>index/indexer.go\<close>): the interface of the index and its contract, the locale
    \<open>indexer\<close>, which \<open>live_indexer\<close> extends for an index whose calls do not fail.
    \<open>Postgres\<close> (\<open>index/postgres\<close>): the statements as syntax trees, parameters and scanned rows, and the
    interpretations of both contracts over a database that answers them as documented.
  \<^item> \<open>Server\<close> (\<open>server/server.go\<close>): the handler of one stream.  \<open>Interleaving\<close>: any schedule of the
    deliveries of many streams on the shared store.
  \<^item> \<open>Bytestream\<close> (\<open>bytestream/bytestream.go\<close>): cache references, dialling, and the receive loop, which
    is a \<open>partial_function\<close> because the server may never stop sending.
  \<^item> \<open>AuthSession\<close> (\<open>auth/config.go\<close>, \<open>auth/session.go\<close>), \<open>Auth\<close> (\<open>auth/oidc.go\<close>, \<open>auth/middleware.go\<close>):
    configuration, cookies, login, callback, logout, the gate, and the runs of requests, the
    inductive relation \<open>auth_run\<close>.  \<open>LoginPage\<close>: the sign-in page, its text and the escaping of
    \<open>html/template\<close>, and what a browser reads in it.  \<open>Login\<close>: a login from the page that is asked
    for to the page that is shown.
  \<^item> \<open>WebUi\<close> (\<open>webui/webui.go\<close>): every handler, its JSON shapes and the routes.
  \<^item> \<open>Startup\<close> (\<open>main.go\<close>): configuration, start, and requests and streams on the state of the program.
  \<^item> This theory: the store and the server over the disk, the store over the cached S3, and a started
    program on examples.

  \<^bold>\<open>What the properties show.\<close>  End to end, what is published is acknowledged and read back
  (\<open>publish_then_read\<close>, \<open>Startup.publish_then_log\<close>), also among other streams
  (\<open>Interleaving.complete_stream_among_others\<close>, \<open>Interleaving.streams_do_not_interfere\<close>), and its
  summary is found in the index (\<open>Startup.publish_then_summary\<close>); only complete streams are
  acknowledged.  The store refines its specification over every configuration
  (\<open>Startup.configured_store_refines\<close>).  Paths stay below the root, the cache stays within its bound,
  transfers within their limit.  The record of an invocation is characterised field by field, the
  targets label by label; the resolution of named sets reaches every set once on any graph.
  Repository spellings have one normal form.  Sessions only come from verified logins, and without
  one nothing behind the gate is reached; a login leads back to the page that was asked for
  (\<open>Login.login_returns_to_page\<close>), over a link that cannot break out of the sign-in page.  The web UI
  only fetches reported references and never mixes content and error text.  A second group states behaviour at odds with the comments of the
  code: a retried stream is appended to the failed attempt, an open writer already makes its blob
  exist, a broken upload to S3 blocks the writer, a cache may keep an old version, an owner with
  leading digits is misread in a repository URL, a backslash passes the check of the return path,
  and an error can become the content of a successful response.

  \<^bold>\<open>Errors, bounds and loops.\<close>  An error is a value of \<open>goerror\<close>, a fallible call returns a sum or an
  option of it.  \<open>None\<close> as the result of an operation means that it never returns: a write into a
  pipe nobody reads any more, or a stream that keeps delivering.  No fuel is used: loops recurse over
  their data, with a measure where needed (the visited sets of \<open>resolveFileSets\<close>), and the theorems
  that an operation returns say so with \<open>Some\<close>.  Sequence numbers, sizes and offsets are integers with
  the wrap-around of \<open>int64\<close> written out; where a property needs that a sum does not wrap, the bound
  \<open>2 ^ 63\<close> is a hypothesis.

  \<^bold>\<open>What is a parameter.\<close>  gzip, \<open>protojson\<close>, the AWS SDK and S3, the database, gRPC to the remote
  cache, AES-GCM and SHA-256, the identity provider, JSON and time formatting, the stable order of
  \<open>sort.Slice\<close> and the clock are arguments of the definitions.  What is used of them is named
  (\<open>gzip_lawful\<close>, \<open>json_lawful\<close>, \<open>s3_lawful\<close>, \<open>sort_lawful\<close> and so on), and every property with such a
  hypothesis is applied to a concrete instance.

  \<^bold>\<open>Not modelled.\<close>  The TypeScript front end and the embedded files that are built from it; the
  generated serialisation code; registration with gRPC and the
  accept loops of the two servers; log lines; tests and deployment files.  Deliveries of different
  streams interleave as whole steps, and calls of \<open>singleflight\<close> that overlap in the disk cache are
  not modelled.
\<close>

section \<open>The service over the disk backend\<close>

type_synonym disk_store = "(osfs, compressFileWriter) Store"

text \<open>A server to run the examples on.\<close>

definition sample_index :: "Record list Indexer" where
  "sample_index =
     \<lparr>ix_Upsert = (\<lambda>rec rs. (None, rec # filter (\<lambda>x. InvocationID x \<noteq> InvocationID rec) rs)),
      ix_Get = (\<lambda>i rs. (Inr (find (\<lambda>x. InvocationID x = i) rs), rs)),
      ix_List = (\<lambda>opts rs. (Inr rs, rs))\<rparr>"

definition sample_env :: "(osfs, compressFileWriter, Record list) server_env" where
  "sample_env =
     \<lparr>env_blobs = disk_ops sample_gzip ''data/events'', env_json = sample_json,
      env_UnmarshalTo = (\<lambda>b. if b = ''f'' then Inr (plain_event BuildEvent_Fetch)
                         else if b = ''x'' then Inr (plain_event BuildEvent_Expanded)
                         else Inl (Errorf ''mismatched message type'' [])),
      env_lib = sample_lib, env_index = sample_index\<rparr>"

definition sample_sid :: StreamId where
  "sample_sid = \<lparr>StreamInvocationId = ''inv'', StreamBuildId = ''b''\<rparr>"

definition sample_req :: "int \<Rightarrow> string \<Rightarrow> OrderedBuildEvent" where
  "sample_req n body =
     \<lparr>OB_StreamId = Some sample_sid, OB_SequenceNumber = n, OB_BazelEvent = Some body\<rparr>"

lemma sample_server_facts:
  "env_blobs sample_env = disk_ops sample_gzip ''data/events''"
  "json_lawful (env_json sample_env)" "simple_name (blobName (StreamInvocationId sample_sid))"
  "StreamInvocationId sample_sid \<noteq> []" "OB_StreamId (sample_req n b) = Some sample_sid"
  "env_json sample_env = sample_json" "StreamInvocationId sample_sid = ''inv''"
proof -
  have "simple_name ''inv.jsonl''" by code_simp
  then show "simple_name (blobName (StreamInvocationId sample_sid))"
    by (simp add: blobName_def sample_sid_def)
qed (simp_all add: sample_env_def sample_json_lawful sample_sid_def sample_req_def)

lemma sample_stream_facts:
  "complete (sequence_numbers [(sample_req 2 ''f'', 0), (sample_req 1 ''x'', 0)])"
  "stream_events sample_env [(sample_req 2 ''f'', 0), (sample_req 1 ''x'', 0)] =
     [plain_event BuildEvent_Fetch, plain_event BuildEvent_Expanded]"
  "stream_events sample_env [(sample_req 2 ''f'', 0)] = [plain_event BuildEvent_Fetch]"
  "marshals sample_json (plain_event BuildEvent_Fetch)"
  "marshals sample_json (plain_event BuildEvent_Expanded)"
  by (simp_all add: complete_def sample_req_def request_events_def sample_env_def marshals_def
      sample_json_def plain_event_def)

text \<open>
  C1: A complete stream that is published to a server over the disk backend, while the operating
  system reports no error, is acknowledged in full; reading the invocation then returns exactly the
  events of the stream, in order, and the index has been given the record that the parser computes
  from them.
\<close>
theorem publish_then_read:
  assumes "env_blobs env = disk_ops gz rootDir" "gzip_lawful gz" "json_lawful (env_json env)"
    and "fs_ok fs" "disk_live rootDir fs" "rootDir \<noteq> []"
    and "simple_name (blobName (StreamInvocationId sid))" "StreamInvocationId sid \<noteq> []"
    and "OB_StreamId r = Some sid" "int (length ((r, t) # reqs)) < 2 ^ 63"
    and "complete (sequence_numbers ((r, t) # reqs))"
    and "\<forall>e \<in> set (stream_events env ((r, t) # reqs)). marshals (env_json env) e"
    and "stream_events env ((r, t) # reqs) \<noteq> []"
  shows "\<exists>srv. PublishBuildToolEventStream env [] (deliver ((r, t) # reqs) @ [(RecvEOF, now)])
        (NewBuildEventServer (store_New fs) idx) =
      Some (None, map (\<lambda>i. (sid, int i)) [1..<Suc (length ((r, t) # reqs))], srv) \<and>
    fst (ReadEvents (disk_ops gz rootDir) (env_json env) (StreamInvocationId sid) (srv_store srv)) =
      (stream_events env ((r, t) # reqs), True, None) \<and>
    srv_idx srv = snd (ix_Upsert (env_index env)
      (stream_record env r t (stream_events env ((r, t) # reqs)) now) idx)"
proof -
  let ?V = "disk_view gz rootDir" and ?srv = "NewBuildEventServer (store_New fs :: disk_store) idx"
  let ?es = "stream_events env ((r, t) # reqs)" and ?i = "StreamInvocationId sid"
  have sim: "store_sim ?V (env_json env) (srv_store ?srv) (\<lambda>_. Idle)"
    using assms by (simp add: NewBuildEventServer_def store_sim_New)
  have lv: "disk_live rootDir (blobs (srv_store ?srv))" and ok: "v_ok ?V (blobName ?i)"
    using assms by (simp_all add: NewBuildEventServer_def store_New_def)
  have "append_phases ((\<lambda>_. Idle) ?i) ?es = Streaming ?es"
    using assms(13) by (simp add: append_phases_def)
  from live_disk.stream_stored [OF assms(1) ok sim lv phase.distinct(3) assms(9,8,12,10,11) this, of now]
  obtain srv where s: "disk_live rootDir (blobs (srv_store srv))"
    "store_sim ?V (env_json env) (srv_store srv) ((\<lambda>_. Idle)(?i := Stored ?es))"
    "srv_idx srv = snd (ix_Upsert (env_index env) (stream_record env r t ?es now) (srv_idx ?srv))"
    "PublishBuildToolEventStream env [] (deliver ((r, t) # reqs) @ [(RecvEOF, now)]) ?srv =
      Some (None, map (\<lambda>i. (sid, int i)) [1..<Suc (length ((r, t) # reqs))], srv)"
    by (elim exE conjE) (rule that; assumption)
  from live_disk.live_read_events [OF assms(3) s(2) ok s(1)] s(3,4)
  show ?thesis by (intro exI [of _ srv]) (auto simp: NewBuildEventServer_def simp del: upt_Suc stream_simps)
qed

theorem publish_then_read_witness:
  "\<exists>srv. PublishBuildToolEventStream sample_env []
       (deliver [(sample_req 2 ''f'', 0), (sample_req 1 ''x'', 0)] @ [(RecvEOF, 9)])
       (NewBuildEventServer (store_New sample_fs) []) = Some (None, [(sample_sid, 1), (sample_sid, 2)], srv) \<and>
     fst (ReadEvents (disk_ops sample_gzip ''data/events'') sample_json ''inv'' (srv_store srv)) =
       ([plain_event BuildEvent_Fetch, plain_event BuildEvent_Expanded], True, None)"
proof -
  have "stream_events sample_env [(sample_req 2 ''f'', 0), (sample_req 1 ''x'', 0)] \<noteq> []"
    by (simp only: sample_stream_facts list.distinct not_False_eq_True)
  then show ?thesis
    using publish_then_read [OF sample_server_facts(1) sample_gzip_lawful sample_server_facts(2)
        sample_fs_ok sample_fs_live _ sample_server_facts(3,4,5) _ sample_stream_facts(1), of 9 "[]"]
    by (auto simp add: sample_stream_facts sample_server_facts(6,7) simp del: stream_simps)
qed

text \<open>
  C26: Bazel resends a stream from scratch when it fails, but the server keeps the writer of the
  failed attempt open: when an attempt breaks off and a later one succeeds, reading the invocation
  returns the events of both attempts.
\<close>
theorem retried_stream_is_appended:
  assumes "env_blobs env = disk_ops gz rootDir" "gzip_lawful gz" "json_lawful (env_json env)"
    and "fs_ok fs" "disk_live rootDir fs" "rootDir \<noteq> []"
    and "simple_name (blobName (StreamInvocationId sid))" "StreamInvocationId sid \<noteq> []"
    and "OB_StreamId r = Some sid" "int (length ((r, t) # reqs)) < 2 ^ 63"
    and "complete (sequence_numbers ((r, t) # reqs))"
    and "\<forall>e \<in> set (stream_events env ((r, t) # reqs)). marshals (env_json env) e"
    and "stream_events env ((r, t) # part) \<noteq> []"
    and "\<forall>e \<in> set (stream_events env ((r, t) # part)). marshals (env_json env) e"
  shows "\<exists>srv1 srv2. PublishBuildToolEventStream env [] (deliver ((r, t) # part) @ [(RecvErr err, now)])
        (NewBuildEventServer (store_New fs) idx) = Some (Some err, [], srv1) \<and>
    PublishBuildToolEventStream env [] (deliver ((r, t) # reqs) @ [(RecvEOF, now)]) srv1 =
      Some (None, map (\<lambda>i. (sid, int i)) [1..<Suc (length ((r, t) # reqs))], srv2) \<and>
    fst (ReadEvents (disk_ops gz rootDir) (env_json env) (StreamInvocationId sid) (srv_store srv2)) =
      (stream_events env ((r, t) # part) @ stream_events env ((r, t) # reqs), True, None)"
proof -
  let ?V = "disk_view gz rootDir" and ?srv = "NewBuildEventServer (store_New fs :: disk_store) idx"
  let ?es1 = "stream_events env ((r, t) # part)" and ?es2 = "stream_events env ((r, t) # reqs)"
  let ?i = "StreamInvocationId sid"
  have sim: "store_sim ?V (env_json env) (srv_store ?srv) (\<lambda>_. Idle)"
    using assms by (simp add: NewBuildEventServer_def store_sim_New)
  have lv: "disk_live rootDir (blobs (srv_store ?srv))" and ok: "v_ok ?V (blobName ?i)"
    using assms by (simp_all add: NewBuildEventServer_def store_New_def)
  have a: "append_phases Idle ?es1 = Streaming ?es1"
    using assms(13) by (simp add: append_phases_def)
  from live_disk.stream_broken_off [OF assms(1) ok sim lv phase.distinct(3) assms(9,8,14), of "[]" err now] a
  obtain srv1 where s1: "disk_live rootDir (blobs (srv_store srv1))"
    "store_sim ?V (env_json env) (srv_store srv1) ((\<lambda>_. Idle)(?i := Streaming ?es1))"
    "PublishBuildToolEventStream env [] (deliver ((r, t) # part) @ [(RecvErr err, now)]) ?srv =
      Some (Some err, [], srv1)"
    by (auto simp del: fun_upd_apply stream_simps)
  have "append_phases (((\<lambda>_. Idle)(?i := Streaming ?es1)) ?i) ?es2 = Streaming (?es1 @ ?es2)"
    by (simp add: append_phases_def del: stream_simps)
  moreover have "((\<lambda>_. Idle)(?i := Streaming ?es1)) ?i \<noteq> Failed" by simp
  ultimately have "\<exists>srv'. disk_live rootDir (blobs (srv_store srv')) \<and>
    store_sim ?V (env_json env) (srv_store srv') ((\<lambda>_. Idle)(?i := Streaming ?es1, ?i := Stored (?es1 @ ?es2))) \<and>
    PublishBuildToolEventStream env [] (deliver ((r, t) # reqs) @ [(RecvEOF, now)]) srv1 =
      Some (None, map (\<lambda>i. (sid, int i)) [1..<Suc (length ((r, t) # reqs))], srv')"
    using live_disk.stream_stored [OF assms(1) ok s1(2,1) _ assms(9,8,12,10,11), of "?es1 @ ?es2" now]
    by blast
  then obtain srv2 where s2: "disk_live rootDir (blobs (srv_store srv2))"
    "store_sim ?V (env_json env) (srv_store srv2) ((\<lambda>_. Idle)(?i := Stored (?es1 @ ?es2)))"
    "PublishBuildToolEventStream env [] (deliver ((r, t) # reqs) @ [(RecvEOF, now)]) srv1 =
      Some (None, map (\<lambda>i. (sid, int i)) [1..<Suc (length ((r, t) # reqs))], srv2)"
    by (auto simp del: upt_Suc fun_upd_apply stream_simps)
  from live_disk.live_read_events [OF assms(3) s2(2) ok s2(1)] s1(3) s2(3)
  show ?thesis by (intro exI [of _ srv1] exI [of _ srv2]) auto
qed

theorem retried_stream_is_appended_witness:
  "\<exists>srv1 srv2. PublishBuildToolEventStream sample_env []
       (deliver [(sample_req 2 ''f'', 0)] @ [(RecvErr (OSErr ''reset''), 9)])
       (NewBuildEventServer (store_New sample_fs) []) = Some (Some (OSErr ''reset''), [], srv1) \<and>
     PublishBuildToolEventStream sample_env []
       (deliver [(sample_req 2 ''f'', 0), (sample_req 1 ''x'', 0)] @ [(RecvEOF, 9)]) srv1 =
       Some (None, [(sample_sid, 1), (sample_sid, 2)], srv2) \<and>
     fst (ReadEvents (disk_ops sample_gzip ''data/events'') sample_json ''inv'' (srv_store srv2)) =
       ([plain_event BuildEvent_Fetch, plain_event BuildEvent_Fetch, plain_event BuildEvent_Expanded],
        True, None)"
proof -
  have "stream_events sample_env [(sample_req 2 ''f'', 0)] \<noteq> []"
    by (simp only: sample_stream_facts list.distinct not_False_eq_True)
  then show ?thesis
    using retried_stream_is_appended [OF sample_server_facts(1) sample_gzip_lawful sample_server_facts(2)
        sample_fs_ok sample_fs_live _ sample_server_facts(3,4,5) _ sample_stream_facts(1),
        of "[]" "OSErr ''reset''" 9 "[]"]
    by (auto simp add: sample_stream_facts sample_server_facts(6,7) simp del: stream_simps)
qed

text \<open>
  Over the disk backend, whatever system calls fail, the event store behaves as specified for
  any sequence of calls on any invocations: a successful \<open>Finalize\<close> commits exactly the events
  whose \<open>AppendEvent\<close> succeeded, a failed write is reported by \<open>Finalize\<close>, and a stored invocation
  reads back its events or an error.
\<close>
theorem disk_store_refines:
  assumes "gzip_lawful gz" "json_lawful pj" "fs_ok fs" "rootDir \<noteq> []"
    and "\<forall>op \<in> set ops. simple_name (blobName (op_id op))"
    and "run_ops (disk_ops gz rootDir) pj ops (store_New fs) = Some (outs, s)"
    and "reads_settled pj (\<lambda>_. Idle) ops outs"
  shows "spec_trace pj (\<lambda>_. Idle) ops outs"
  using assms by (intro disk.run_ops_refines [OF assms(2) store_sim_New]) auto

text \<open>
  With the calls on other invocations interleaved in any way: when every append of an invocation
  and its \<open>Finalize\<close> succeed, a read that reports no error returns the appended events in order.
\<close>
theorem disk_store_round_trip:
  assumes "gzip_lawful gz" "json_lawful pj" "fs_ok fs" "rootDir \<noteq> []"
    and "\<forall>op \<in> set ops. simple_name (blobName (op_id op))"
    and "run_ops (disk_ops gz rootDir) pj ops (store_New fs) = Some (outs, s)"
    and "reads_settled pj (\<lambda>_. Idle) ops outs" "es \<noteq> []"
    and "calls_on i ops outs =
      map (\<lambda>e. (OpAppend i e, Done None)) es @ [(OpFinalize i, Done None), (OpRead i, Got got found None)]"
  shows "got = es \<and> found"
proof -
  have "v_inv (disk_view gz rootDir) fs" using assms by simp
  from disk.run_ops_refines [OF assms(2) store_sim_New [OF this] _ assms(6,7)] assms(5)
  have tr: "spec_trace pj (\<lambda>_. Idle) ops outs" by simp
  have "Got got found None = Got ([] @ es) True None"
    using assms(8) by (intro spec_round_trip [OF tr _ assms(9)]) auto
  then show ?thesis by simp
qed

definition sample_ops :: "store_op list" where
  "sample_ops =
     [OpAppend ''i'' (plain_event BuildEvent_Fetch), OpAppend ''j'' (plain_event BuildEvent_Expanded),
      OpAppend ''i'' (plain_event BuildEvent_Expanded), OpFinalize ''i'', OpRead ''i'']"

definition sample_outs :: "store_out list" where
  "sample_outs =
     [Done None, Done None, Done None, Done None,
      Got [plain_event BuildEvent_Fetch, plain_event BuildEvent_Expanded] True None]"

lemma sample_run:
  "\<exists>s. run_ops (disk_ops sample_gzip ''data/events'') sample_json sample_ops (store_New sample_fs) =
     Some (sample_outs, s)"
proof -
  have "map_option fst (run_ops (disk_ops sample_gzip ''data/events'') sample_json sample_ops
      (store_New sample_fs)) = Some sample_outs" by code_simp
  then show ?thesis by auto
qed

lemma sample_ops_facts:
  "\<forall>op \<in> set sample_ops. simple_name (blobName (op_id op))"
  "reads_settled sample_json (\<lambda>_. Idle) sample_ops sample_outs"
  by code_simp+

theorem disk_store_refines_witness: "spec_trace sample_json (\<lambda>_. Idle) sample_ops sample_outs"
proof -
  obtain s where "run_ops (disk_ops sample_gzip ''data/events'') sample_json sample_ops
      (store_New sample_fs) = Some (sample_outs, s)" using sample_run by blast
  from disk_store_refines [OF sample_gzip_lawful sample_json_lawful sample_fs_ok _ sample_ops_facts(1)
      this sample_ops_facts(2)] show ?thesis by simp
qed

theorem disk_store_round_trip_witness:
  "[plain_event BuildEvent_Fetch, plain_event BuildEvent_Expanded] =
     (case last sample_outs of Got es found err \<Rightarrow> es | _ \<Rightarrow> [])"
proof -
  let ?es = "[plain_event BuildEvent_Fetch, plain_event BuildEvent_Expanded]"
  obtain s where r: "run_ops (disk_ops sample_gzip ''data/events'') sample_json sample_ops
      (store_New sample_fs) = Some (sample_outs, s)" using sample_run by blast
  have "calls_on ''i'' sample_ops sample_outs = map (\<lambda>e. (OpAppend ''i'' e, Done None)) ?es @
      [(OpFinalize ''i'', Done None), (OpRead ''i'', last sample_outs)]" by code_simp
  moreover obtain got found where g: "last sample_outs = Got got found None"
    by (simp add: sample_outs_def)
  ultimately show ?thesis
    using disk_store_round_trip [OF sample_gzip_lawful sample_json_lawful sample_fs_ok _
        sample_ops_facts(1) r sample_ops_facts(2), of ?es "''i''" got found] g by auto
qed


section \<open>The service over S3 with the disk cache\<close>

text \<open>
  The store over S3 with the disk cache, as deployed when a bucket is configured, meets the same
  specification: for any behaviour of S3 within its documented promises and a local disk that works,
  cached reads, evictions and write-through never make a stored invocation read back as anything but
  its events or an error.
\<close>
theorem cached_s3_store_refines:
  assumes "gzip_lawful gz" "json_lawful pj" "s3_lawful api obj" "sort_lawful sorter"
    and "fs_ok fs" "disk_live dir fs" "dir \<noteq> []"
    and "\<forall>op \<in> set ops. simple_name (blobName (op_id op))"
    and "run_ops (cache_ops (s3_cache api gz bucket sorter dir maxBytes)) pj ops
      (store_New \<lparr>dc_backing = svc, dc_fs = fs\<rparr>) = Some (outs, s)"
    and "reads_settled pj (\<lambda>_. Idle) ops outs"
  shows "spec_trace pj (\<lambda>_. Idle) ops outs"
  using assms
  by (intro cached_s3.run_ops_refines [OF assms(2) store_sim_New _ assms(9,10), where obj = obj])
    (auto simp: cache_view_sel cache_ready_def s3_cache_def simple_name_def path_elem_def)

definition sample_cached_s3 :: "(sample_svc cache_state, streamWriter teeWriteCloser) Blobstore" where
  "sample_cached_s3 =
     cache_ops (s3_cache (sample_s3 None) sample_gzip ''b'' (sort_key cf_modTime) ''data/events'' 3)"

theorem cached_s3_store_refines_witness:
  "\<exists>s. run_ops sample_cached_s3 sample_json sample_ops
       (store_New \<lparr>dc_backing = [], dc_fs = sample_fs\<rparr>) = Some (sample_outs, s) \<and>
     spec_trace sample_json (\<lambda>_. Idle) sample_ops sample_outs"
proof -
  have "map_option fst (run_ops sample_cached_s3 sample_json sample_ops
      (store_New \<lparr>dc_backing = [], dc_fs = sample_fs\<rparr>)) = Some sample_outs" by code_simp
  then obtain s where r: "run_ops sample_cached_s3 sample_json sample_ops
      (store_New \<lparr>dc_backing = [], dc_fs = sample_fs\<rparr>) = Some (sample_outs, s)" by auto
  from cached_s3_store_refines [OF sample_gzip_lawful sample_json_lawful sample_s3_lawful sort_key_lawful
      sample_fs_ok sample_fs_live _ sample_ops_facts(1) r [unfolded sample_cached_s3_def] sample_ops_facts(2)] r
  show ?thesis by simp
qed

section \<open>Interleaved streams on examples\<close>

text \<open>
  A stream of two events out of order, while another stream starts between them and breaks off.
\<close>

definition other_sid :: StreamId where
  "other_sid = \<lparr>StreamInvocationId = ''other'', StreamBuildId = ''b2''\<rparr>"

definition sample_names :: "nat \<Rightarrow> StreamId" where
  "sample_names k = (if k = 0 then sample_sid else other_sid)"

definition sample_schedule :: "(nat \<times> recv \<times> gotime) list" where
  "sample_schedule =
     [(0, Req (sample_req 2 ''f''), 0),
      (1, Req \<lparr>OB_StreamId = Some other_sid, OB_SequenceNumber = 1, OB_BazelEvent = Some ''f''\<rparr>, 0),
      (0, Req (sample_req 1 ''x''), 0), (1, RecvErr (Errorf ''reset'' []), 0), (0, RecvEOF, 9)]"

lemma sample_schedule_facts:
  "fst ` set sample_schedule = {0, 1}"
  "inj_on (\<lambda>k. StreamInvocationId (sample_names k)) (fst ` set sample_schedule)"
  "\<forall>k \<in> fst ` set sample_schedule. simple_name (blobName (StreamInvocationId (sample_names k)))"
  "\<forall>(k, d) \<in> set sample_schedule. \<forall>r. fst d = Req r \<longrightarrow> OB_StreamId r = Some (sample_names k)"
  "deliveries 0 sample_schedule =
     deliver [(sample_req 2 ''f'', 0), (sample_req 1 ''x'', 0)] @ [(RecvEOF, 9)]"
  "deliveries 1 sample_schedule =
     deliver [(\<lparr>OB_StreamId = Some other_sid, OB_SequenceNumber = 1, OB_BazelEvent = Some ''f''\<rparr>, 0)] @
       [(RecvErr (Errorf ''reset'' []), 0)]"
proof -
  show k: "fst ` set sample_schedule = {0, 1}" by (auto simp: sample_schedule_def)
  show "inj_on (\<lambda>k. StreamInvocationId (sample_names k)) (fst ` set sample_schedule)"
    unfolding k by (auto simp: inj_on_def sample_names_def sample_sid_def other_sid_def)
  have "simple_name ''other.jsonl''" by code_simp
  then show "\<forall>k \<in> fst ` set sample_schedule. simple_name (blobName (StreamInvocationId (sample_names k)))"
    unfolding k using sample_server_facts(3) by (simp add: sample_names_def other_sid_def blobName_def)
qed (auto simp: sample_schedule_def sample_names_def sample_req_def)

theorem complete_stream_among_others_witness:
  "\<exists>W. serve_all sample_env (\<lambda>_. []) sample_schedule (new_world (NewBuildEventServer (store_New sample_fs) [])) =
      Some W \<and>
    wl_calls W 0 = Returned None [(sample_sid, 1), (sample_sid, 2)] \<and>
    fst (ReadEvents (env_blobs sample_env) (env_json sample_env) ''inv'' (srv_store (wl_srv W))) =
      ([plain_event BuildEvent_Fetch, plain_event BuildEvent_Expanded], True, None)"
proof -
  let ?reqs = "[(sample_req 2 ''f'', 0), (sample_req 1 ''x'', 0)]"
  have f: "StreamInvocationId (sample_names 0) \<noteq> []" "int (length ?reqs) < 2 ^ 63"
    "\<forall>e \<in> set (stream_events sample_env ?reqs). marshals (env_json sample_env) e"
    "stream_events sample_env ?reqs \<noteq> []" "StreamInvocationId (sample_names 0) = ''inv''"
    "''data/events'' \<noteq> []" "sample_names 0 = sample_sid"
    unfolding sample_stream_facts sample_server_facts(6)
    using sample_stream_facts(4,5) by (simp_all add: sample_names_def sample_sid_def)
  from complete_stream_among_others [OF sample_server_facts(1) sample_gzip_lawful sample_server_facts(2)
      sample_fs_ok sample_fs_live f(6) sample_schedule_facts(2-5) f(1,2) sample_stream_facts(1) f(3,4), of "[]"]
  show ?thesis unfolding f(7) sample_stream_facts by (simp add: sample_server_facts(7))
qed

theorem streams_do_not_interfere_witness:
  "\<exists>W. serve_all sample_env (\<lambda>_. []) sample_schedule (new_world (NewBuildEventServer (store_New sample_fs) [])) =
      Some W \<and>
    wl_calls W 1 = Returned (Some (Errorf ''reset'' [])) []"
proof -
  have a: "fst (alone sample_env [] (deliveries 1 sample_schedule)) = Returned (Some (Errorf ''reset'' [])) []"
    unfolding sample_schedule_facts(6)
    by (simp add: alone_def start_stream_def new_stream_def GetInvocationId_def other_sid_def)
  from streams_do_not_interfere [OF sample_server_facts(1) sample_gzip_lawful sample_server_facts(2)
      sample_fs_ok sample_fs_live _ sample_schedule_facts(2-4), of "\<lambda>_. []" "[]"]
  obtain W where "serve_all sample_env (\<lambda>_. []) sample_schedule
      (new_world (NewBuildEventServer (store_New sample_fs) [])) = Some W"
    "wl_calls W 1 = fst (alone sample_env [] (deliveries 1 sample_schedule))"
    using sample_schedule_facts(1) by auto
  with a show ?thesis by simp
qed

section \<open>The started program on examples\<close>

definition sample_libs :: "(sample_svc, (string \<times> sqlrow) list) libs" where
  "sample_libs =
     \<lparr>lib_s3 = sample_s3 None, lib_gz = sample_gzip, lib_sort = sort_key cf_modTime,
      lib_sql = sample_sql, lib_oidc = demo_oidc, lib_crypto = sample_crypto,
      lib_Listen = (\<lambda>addr. None)\<rparr>"

lemma sample_libs_simps [simp]:
  "lib_s3 sample_libs = sample_s3 None" "lib_gz sample_libs = sample_gzip"
  "lib_sort sample_libs = sort_key cf_modTime" "lib_sql sample_libs = sample_sql"
  "lib_crypto sample_libs = sample_crypto"
  by (simp_all add: sample_libs_def)

definition sample_machine :: "sample_svc cache_state" where
  "sample_machine = \<lparr>dc_backing = [], dc_fs = sample_fs\<rparr>"

definition s3_environ :: environ where
  "s3_environ v = (if v = ''BEP_S3_BUCKET'' then ''b'' else [])"

definition auth_environ :: environ where
  "auth_environ v =
     (if v = ''BEP_REQUIRE_AUTH'' then ''true''
      else if v \<in> {''BEP_OIDC_ISSUER_URL'', ''BEP_OIDC_CLIENT_ID'', ''BEP_OIDC_CLIENT_SECRET'',
                  ''BEP_OIDC_REDIRECT_URL''} then ''x''
      else if v = ''BEP_SESSION_SECRET'' then ''0123456789abcdef'' else [])"

lemma no_blob_dirs: "simple_name n \<Longrightarrow> blob_file ''data/blobcache'' n \<notin> set (os_dirs sample_fs)"
proof -
  assume "simple_name n"
  moreover have "clean_elems ''data/blobcache'' = [''data'', ''blobcache'']" by code_simp
  ultimately have "path_elems (blob_file ''data/blobcache'' n) = [''data'', ''blobcache'', n]"
    using blobPath_elems(1) [of "''data/blobcache''" n]
    by (simp add: simple_name_def path_elems_simple)
  moreover have "path_elems ''.'' = []" "path_elems ''data'' = [''data'']"
    "path_elems ''data/events'' = [''data'', ''events'']" by code_simp+
  ultimately show ?thesis by (auto simp: sample_fs_def)
qed


theorem started_ui_is_gated_witness:
  "\<exists>(P :: (sample_svc, (string \<times> sqlrow) list, nat) program) a w'.
     main_start sample_libs auth_environ sample_machine [] = Inr P \<and> prog_authn P = Some a \<and>
     (\<forall>(wenv :: (_, _, _, unit, _) webui_env) st. serve_ui (demo_env 1) wenv (demo_get ''/api/invocations'' [] []) (new_response [])
        (P\<lparr>prog_state := st\<rparr>) = Some (w', P\<lparr>prog_state := st\<rparr>))"
proof -
  let ?start = "main_start sample_libs auth_environ sample_machine [] ::
      goerror + (sample_svc, (string \<times> sqlrow) list, nat) program"
  have "(case ?start of Inl e \<Rightarrow> False | Inr P \<Rightarrow> True)" by code_simp
  then obtain P where P: "?start = Inr P" by (auto split: sum.splits)
  have s: "request_session (demo_env 1) a (demo_get ''/api/invocations'' [] []) = None" for a
    by (simp add: request_session_def sessionFromRequest_def request_cookie_def demo_get_def)
  have "auth_environ ''BEP_REQUIRE_AUTH'' = ''true''" by (simp add: auth_environ_def)
  with started_ui_is_gated [OF P, where ?'d = unit] s P show ?thesis by blast
qed

text \<open>A build that reports output on its console.\<close>

definition progress_event :: BuildEvent where
  "progress_event = plain_event (BuildEvent_Progress \<lparr>Stdout = ''out'', Stderr = ''err''\<rparr>)"

definition progress_json :: event_codec where
  "progress_json =
     \<lparr>pj_Marshal = (\<lambda>e. if e = progress_event then Inr ''{progress}'' else Inl (Errorf ''unknown event'' [])),
      pj_Unmarshal = (\<lambda>l. if l = ''{progress}'' then Inr progress_event
                     else Inl (Errorf ''syntax error'' []))\<rparr>"

lemma progress_json_lawful: "json_lawful progress_json"
  by (auto simp: json_lawful_def progress_json_def split: if_splits)

definition sample_service_blobs :: "(sample_svc cache_state, backend_writer) Blobstore" where
  "sample_service_blobs = backend_ops (sample_s3 None) sample_gzip (DiskBackend ''data/events'')"

definition service_env ::
  "(sample_svc cache_state, backend_writer, (string \<times> sqlrow) list) server_env" where
  "service_env =
     \<lparr>env_blobs = sample_service_blobs, env_json = progress_json,
      env_UnmarshalTo = (\<lambda>b. Inr progress_event), env_lib = sample_lib,
      env_index = pg_indexer sample_sql\<rparr>"

definition service_ui ::
  "(sample_svc cache_state, backend_writer, (string \<times> sqlrow) list, unit, nat) webui_env" where
  "service_ui =
     \<lparr>wu_blobs = sample_service_blobs, wu_pj = progress_json, wu_lib = sample_lib,
      wu_index = pg_indexer sample_sql, wu_grpc = demo_grpc (\<lambda>i. ReadEOF), wu_ctx = (),
      wu_Format = (\<lambda>t. ''t''), wu_Parse = (\<lambda>s. None), wu_Quote = (\<lambda>s. s), wu_ErrorText = (\<lambda>e. ''failed''),
      wu_Encode = (\<lambda>v. Inr ''{}''), wu_index_html = Inr ''html'', wu_files = (\<lambda>r w. w)\<rparr>"

text \<open>What the two runs of the program below share.\<close>

lemma sample_program:
  "\<exists>P :: (sample_svc, (string \<times> sqlrow) list, nat) program.
     main_start sample_libs (\<lambda>v. []) sample_machine [] = Inr P \<and>
     prog_backend P = DiskBackend ''data/events'' \<and> prog_authn P = None \<and> ui_idx (prog_state P) = []"
proof -
  let ?start = "main_start sample_libs (\<lambda>v. []) sample_machine [] ::
      goerror + (sample_svc, (string \<times> sqlrow) list, nat) program"
  have "(case ?start of Inl e \<Rightarrow> False | Inr P \<Rightarrow>
      (case prog_backend P of DiskBackend d \<Rightarrow> d = ''data/events'' | _ \<Rightarrow> False) \<and>
      Option.is_none (prog_authn P) \<and> List.null (ui_idx (prog_state P)))" by code_simp
  then show ?thesis
    by (cases ?start) (auto simp: Option.is_none_def List.null_iff split: backend.splits)
qed

lemma sample_machine_facts:
  "fs_ok (dc_fs sample_machine)" "os_faults (dc_fs sample_machine) = []"
  "\<forall>n. simple_name n \<longrightarrow> blob_file ''data/events'' n \<notin> set (os_dirs (dc_fs sample_machine))"
  "plain_elem (StreamInvocationId sample_sid)"
proof -
  show "plain_elem (StreamInvocationId sample_sid)" unfolding sample_sid_def by code_simp
qed (use sample_fs_ok sample_fs_live in \<open>simp_all add: sample_machine_def disk_live_def\<close>)

theorem publish_then_log_witness:
  "\<exists>(P :: (sample_svc, (string \<times> sqlrow) list, nat) program) P1 P2 w.
     main_start sample_libs (\<lambda>v. []) sample_machine [] = Inr P \<and>
     serve_events service_env []
       (deliver [(sample_req 2 ''p'', 0), (sample_req 1 ''p'', 0)] @ [(RecvEOF, 9)]) P =
       Some (None, [(sample_sid, 1), (sample_sid, 2)], P1) \<and>
     serve_ui (demo_env 1) service_ui (demo_get ''/api/invocations/inv/log'' [] []) (new_response []) P1 =
       Some (w, P2) \<and> rs_Status w = Some 200 \<and> rs_Body w = ''outerrouterr''"
proof -
  let ?reqs = "[(sample_req 2 ''p'', 0), (sample_req 1 ''p'', 0)]"
  obtain P :: "(sample_svc, (string \<times> sqlrow) list, nat) program" where
    P: "main_start sample_libs (\<lambda>v. []) sample_machine [] = Inr P"
    "prog_backend P = DiskBackend ''data/events''" "prog_authn P = None"
    using sample_program by blast
  have ev: "stream_events service_env ?reqs = [progress_event, progress_event]"
    by (simp add: request_events_def sample_req_def service_env_def)
  have m: "marshals progress_json progress_event" by (simp add: marshals_def progress_json_def)
  have c: "complete (sequence_numbers ?reqs)" by (simp add: complete_def sample_req_def)
  have q: "rq_Method (demo_get ''/api/invocations/inv/log'' [] []) = ''GET''"
    "rq_URL (demo_get ''/api/invocations/inv/log'' [] []) = plain_url (log_elems (StreamInvocationId sample_sid))"
    by (simp_all add: demo_get_def plain_url_def log_elems_def sample_sid_def slash_def empty_URL_def)
  have e: "env_blobs service_env = backend_ops (lib_s3 sample_libs) (lib_gz sample_libs) (prog_backend P)"
    "env_json service_env = progress_json" "wu_blobs service_ui = env_blobs service_env"
    "wu_pj service_ui = env_json service_env"
    using P(2) by (simp_all add: service_env_def service_ui_def sample_service_blobs_def)
  have l: "console_log [progress_event, progress_event] = ''outerrouterr''" by code_simp
  obtain P1 P2 w where
    "serve_events service_env [] (deliver ?reqs @ [(RecvEOF, 9)]) P =
      Some (None, map (\<lambda>i. (sample_sid, int i)) [1..<Suc (length ?reqs)], P1)"
    "serve_ui (demo_env 1) service_ui (demo_get ''/api/invocations/inv/log'' [] []) (new_response []) P1 =
      Some (w, P2)" "rs_Status w = Some 200" "rs_Body w = console_log (stream_events service_env ?reqs)"
    using publish_then_log [OF P(1) _ _ _ sample_machine_facts(1-3) e(1,3,4) sample_server_facts(5)
        sample_machine_facts(4) sample_server_facts(3) _ c _ _ q, of "demo_env 1" 9]
      sample_gzip_lawful progress_json_lawful m e(2) ev P(3)
    by (auto simp del: upt_Suc stream_simps)
  then show ?thesis using P(1) l ev by (auto simp del: stream_simps)
qed

text \<open>A failed test run, and a user interface that writes a part of the summary as plain text.\<close>

definition run_started :: BuildEvent where
  "run_started = sample_event (BuildEvent_Started sample_started)"

definition run_finished :: BuildEvent where
  "run_finished = sample_event (BuildEvent_Finished sample_finished)"

definition run_json :: event_codec where
  "run_json =
     \<lparr>pj_Marshal = (\<lambda>e. if e = run_started then Inr ''{started}'' else if e = run_finished then
        Inr ''{finished}'' else Inl (Errorf ''unknown event'' [])),
      pj_Unmarshal = (\<lambda>l. if l = ''{started}'' then Inr run_started else if l = ''{finished}'' then
        Inr run_finished else Inl (Errorf ''syntax error'' []))\<rparr>"

lemma run_json_lawful: "json_lawful run_json"
  by (auto simp: json_lawful_def run_json_def split: if_splits)

definition run_env :: "(sample_svc cache_state, backend_writer, (string \<times> sqlrow) list) server_env" where
  "run_env = service_env\<lparr>env_json := run_json,
     env_UnmarshalTo := (\<lambda>b. Inr (if b = ''s'' then run_started else run_finished))\<rparr>"

definition run_text :: "json_value \<Rightarrow> goerror + bytes" where
  "run_text v = (case v of JInvocation d \<Rightarrow> Inr (inv_ID d @ '' '' @ inv_Command d @ '' '' @ inv_BazelExitCode d)
     | _ \<Rightarrow> Inl (Errorf ''unsupported value'' []))"

definition run_ui ::
  "(sample_svc cache_state, backend_writer, (string \<times> sqlrow) list, unit, nat) webui_env" where
  "run_ui = service_ui\<lparr>wu_pj := run_json, wu_Encode := run_text\<rparr>"

theorem publish_then_summary_witness:
  "\<exists>(P :: (sample_svc, (string \<times> sqlrow) list, nat) program) P1 P2 w.
     main_start sample_libs (\<lambda>v. []) sample_machine [] = Inr P \<and>
     serve_events run_env []
       (deliver [(sample_req 1 ''s'', 0), (sample_req 2 ''f'', 0)] @ [(RecvEOF, 9)]) P =
       Some (None, [(sample_sid, 1), (sample_sid, 2)], P1) \<and>
     serve_ui (demo_env 1) run_ui (demo_get ''/api/invocations/inv'' [] []) (new_response []) P1 =
       Some (w, P2) \<and> rs_Status w = Some 200 \<and> rs_Body w = ''inv test TESTS_FAILED'' @ [CHR 0x0A]"
proof -
  let ?reqs = "[(sample_req 1 ''s'', 0), (sample_req 2 ''f'', 0)]" and ?es = "[run_started, run_finished]"
  let ?rec = "upserted (kept_record (\<lambda>t. t)) None (stream_record run_env (sample_req 1 ''s'') 0 ?es 9)"
  let ?q = "demo_get ''/api/invocations/inv'' [] []"
  obtain P :: "(sample_svc, (string \<times> sqlrow) list, nat) program" where
    P: "main_start sample_libs (\<lambda>v. []) sample_machine [] = Inr P"
    "prog_backend P = DiskBackend ''data/events''" "prog_authn P = None" "ui_idx (prog_state P) = []"
    using sample_program by blast
  have ev: "stream_events run_env ?reqs = ?es"
    by (simp add: request_events_def sample_req_def run_env_def)
  have m: "\<forall>e \<in> set (stream_events run_env ?reqs). marshals (env_json run_env) e"
    unfolding ev by (auto simp: run_env_def marshals_def run_json_def)
  have c: "complete (sequence_numbers ?reqs)" by (simp add: complete_def sample_req_def)
  have q: "rq_Method ?q = ''GET''" "rq_URL ?q = plain_url (summary_elems (StreamInvocationId sample_sid))"
    by (simp_all add: demo_get_def plain_url_def summary_elems_def sample_sid_def slash_def empty_URL_def)
  have e: "env_blobs run_env = backend_ops (lib_s3 sample_libs) (lib_gz sample_libs) (prog_backend P)"
    "env_json run_env = run_json" "env_index run_env = pg_indexer (lib_sql sample_libs)"
    "wu_index run_ui = pg_indexer (lib_sql sample_libs)"
    using P(2) by (simp_all add: run_env_def run_ui_def service_env_def service_ui_def sample_service_blobs_def)
  have up: "xv_inv (pg_up_view (lib_sql sample_libs) map_of sample_ilike (\<lambda>t. t)) (ui_idx (prog_state P))"
    using sample_sql_lawful P(4) by (auto simp: sql_up_def sample_exec_again Let_def)
  have enc: "wu_Encode run_ui (JInvocation (toDTO (wu_Format run_ui) ?rec)) = Inr ''inv test TESTS_FAILED''"
    by code_simp
  obtain P1 P2 w where
    "serve_events run_env [] (deliver ?reqs @ [(RecvEOF, 9)]) P =
      Some (None, map (\<lambda>i. (sample_sid, int i)) [1..<Suc (length ?reqs)], P1)"
    "serve_ui (demo_env 1) run_ui ?q (new_response []) P1 =
      Some (w, P2)" "rs_Status w = Some 200" "rs_Body w = ''inv test TESTS_FAILED'' @ [CHR 0x0A]"
    using publish_then_summary [OF P(1) _ _ _ sample_machine_facts(1-3) e(1) sample_server_facts(5)
        sample_machine_facts(4) sample_server_facts(3) _ c m _ e(3,4) up _ _ q, of ?rec 9
        "''inv test TESTS_FAILED''" "demo_env 1"]
      sample_gzip_lawful run_json_lawful e(2) ev enc P(3,4)
    by (auto simp del: upt_Suc stream_simps)
  then show ?thesis using P(1) by auto
qed

end
